(* ===== verification/Prelude.thy ===== *)
theory Prelude
  imports Complex_Main "HOL-Library.AList" "HOL-Library.Log_Nat" "HOL-Library.Multiset" "HOL-Library.Signed_Division"
begin

text \<open>
  The Go runtime as the operator uses it, and the lemmas every component shares:
  fixed-width integers, instants and durations of package \<open>time\<close>, buffered channels with the
  non-blocking send idiom, maps with string keys as association lists, decimal formatting and
  the contract of \<open>sort.Slice\<close>.
  The collection \<open>go_simps\<close> holds the unfolding rules of the runtime, \<open>store_simps\<close> the
  lookup rules of maps.
\<close>

named_theorems go_simps "unfolding rules of the Go runtime model"
named_theorems store_simps "lookup rules for association-list maps"

section \<open>Fixed-width integers\<close>

text \<open>Two's complement wrap-around of \<open>int64\<close> and \<open>int32\<close> arithmetic.\<close>

definition wrap64 :: "int \<Rightarrow> int" where
  "wrap64 x = (x + 2 ^ 63) mod 2 ^ 64 - 2 ^ 63"

definition wrap32 :: "int \<Rightarrow> int" where
  "wrap32 x = (x + 2 ^ 31) mod 2 ^ 32 - 2 ^ 31"

definition in64 :: "int \<Rightarrow> bool" where
  "in64 x \<longleftrightarrow> - (2 ^ 63) \<le> x \<and> x < 2 ^ 63"

definition in32 :: "int \<Rightarrow> bool" where
  "in32 x \<longleftrightarrow> - (2 ^ 31) \<le> x \<and> x < 2 ^ 31"

lemma wrap64_id [simp]: "in64 x \<Longrightarrow> wrap64 x = x"
  by (simp add: wrap64_def in64_def)

lemma wrap32_id [simp]: "in32 x \<Longrightarrow> wrap32 x = x"
  by (simp add: wrap32_def in32_def)

lemma in64_wrap64 [simp]: "in64 (wrap64 x)"
proof -
  have "0 \<le> (x + 2 ^ 63) mod 2 ^ 64" "(x + 2 ^ 63) mod 2 ^ 64 < 2 ^ 64" by simp_all
  then show ?thesis by (simp add: wrap64_def in64_def)
qed

lemma in32_wrap32 [simp]: "in32 (wrap32 x)"
proof -
  have "0 \<le> (x + 2 ^ 31) mod 2 ^ 32" "(x + 2 ^ 31) mod 2 ^ 32 < 2 ^ 32" by simp_all
  then show ?thesis by (simp add: wrap32_def in32_def)
qed

text \<open>Wrapped sums only depend on the summands modulo the width.\<close>

lemma wrap64_add_left [simp]: "wrap64 (wrap64 a + b) = wrap64 (a + b)"
proof -
  have "(wrap64 a + b + 2 ^ 63) mod 2 ^ 64 = ((a + 2 ^ 63) mod 2 ^ 64 + b) mod 2 ^ 64"
    by (simp add: wrap64_def)
  also have "\<dots> = (a + b + 2 ^ 63) mod 2 ^ 64"
    by (subst mod_add_left_eq) (simp only: ac_simps)
  finally show ?thesis
    by (simp only: wrap64_def [of "wrap64 a + b"] wrap64_def [of "a + b"])
qed

lemma wrap64_add_right [simp]: "wrap64 (a + wrap64 b) = wrap64 (a + b)"
  using wrap64_add_left [of b a] by (simp add: add.commute)

lemma wrap64_diff_left [simp]: "wrap64 (wrap64 a - b) = wrap64 (a - b)"
  using wrap64_add_left [of a "- b"] by simp

section \<open>Floating point\<close>

text \<open>
  A \<open>float64\<close> value is a finite number or one of the three special values; comparisons with
  \<open>NaN\<close> are false. The sign of zero is not represented. Arithmetic rounds to the nearest double,
  ties to even.
\<close>

datatype float64 = Fin rat | PosInf | NegInf | NaN

fun f64_le :: "float64 \<Rightarrow> float64 \<Rightarrow> bool" where
  "f64_le NaN _ = False"
| "f64_le _ NaN = False"
| "f64_le NegInf _ = True"
| "f64_le _ PosInf = True"
| "f64_le (Fin a) (Fin b) = (a \<le> b)"
| "f64_le _ _ = False"

definition f64_ge :: "float64 \<Rightarrow> float64 \<Rightarrow> bool" where
  "f64_ge a b = f64_le b a"

definition pow2 :: "int \<Rightarrow> rat" where
  "pow2 k = (if 0 \<le> k then 2 ^ nat k else 1 / 2 ^ nat (- k))"

definition log2_floor :: "rat \<Rightarrow> int" where
  "log2_floor q =
     (let (n, d) = quotient_of q; k = bitlen n - bitlen d in if pow2 k \<le> q then k else k - 1)"

definition round_even :: "rat \<Rightarrow> int" where
  "round_even q =
     (let f = \<lfloor>q\<rfloor>; r = q - of_int f in
      if r < 1 / 2 then f else if r > 1 / 2 then f + 1 else if even f then f else f + 1)"

definition f64_round :: "rat \<Rightarrow> float64" where
  "f64_round q =
     (if q = 0 then Fin 0
      else
        (let e = max (log2_floor \<bar>q\<bar>) (- 1022); u = pow2 (e - 52); r = of_int (round_even (q / u)) * u in
         if r \<ge> 2 ^ 1024 then PosInf else if r \<le> - (2 ^ 1024) then NegInf else Fin r))"

fun f64_mul :: "float64 \<Rightarrow> float64 \<Rightarrow> float64" where
  "f64_mul NaN _ = NaN"
| "f64_mul _ NaN = NaN"
| "f64_mul (Fin a) (Fin b) = f64_round (a * b)"
| "f64_mul (Fin a) PosInf = (if a > 0 then PosInf else if a < 0 then NegInf else NaN)"
| "f64_mul (Fin a) NegInf = (if a > 0 then NegInf else if a < 0 then PosInf else NaN)"
| "f64_mul PosInf (Fin b) = (if b > 0 then PosInf else if b < 0 then NegInf else NaN)"
| "f64_mul NegInf (Fin b) = (if b > 0 then NegInf else if b < 0 then PosInf else NaN)"
| "f64_mul PosInf PosInf = PosInf"
| "f64_mul PosInf NegInf = NegInf"
| "f64_mul NegInf PosInf = NegInf"
| "f64_mul NegInf NegInf = PosInf"

text \<open>Division by a positive finite number.\<close>

fun f64_div_pos :: "float64 \<Rightarrow> rat \<Rightarrow> float64" where
  "f64_div_pos (Fin a) b = f64_round (a / b)"
| "f64_div_pos x b = x"

fun f64_ceil :: "float64 \<Rightarrow> float64" where
  "f64_ceil (Fin a) = Fin (of_int \<lceil>a\<rceil>)"
| "f64_ceil x = x"

text \<open>
  Conversion of a float to an integer type truncates. When the value does not fit, the language
  leaves the result to the implementation: \<open>impl\<close> is what it does.
\<close>

fun f64_to_int :: "(float64 \<Rightarrow> int) \<Rightarrow> (int \<Rightarrow> bool) \<Rightarrow> float64 \<Rightarrow> int" where
  "f64_to_int impl fits (Fin a) =
     (let t = (if a < 0 then \<lceil>a\<rceil> else \<lfloor>a\<rfloor>) in if fits t then t else impl (Fin a))"
| "f64_to_int impl fits x = impl x"

section \<open>Instants and durations\<close>

text \<open>
  \<open>time.Time\<close> is the number of nanoseconds since its zero value, \<open>time.Duration\<close> a signed
  64-bit number of nanoseconds. \<open>Sub\<close> saturates at the bounds of \<open>Duration\<close>.
\<close>

type_synonym time = int
type_synonym duration = int

definition maxDuration :: duration where "maxDuration = 2 ^ 63 - 1"
definition minDuration :: duration where "minDuration = - (2 ^ 63)"

definition Second :: duration where "Second = 1000000000"
definition Minute :: duration where "Minute = 60 * Second"
definition Hour :: duration where "Hour = 60 * Minute"

definition time_Add :: "time \<Rightarrow> duration \<Rightarrow> time" where
  "time_Add t d = t + d"

definition time_Sub :: "time \<Rightarrow> time \<Rightarrow> duration" where
  "time_Sub t u = max minDuration (min maxDuration (t - u))"

definition time_IsZero :: "time \<Rightarrow> bool" where
  "time_IsZero t \<longleftrightarrow> t = 0"

definition time_Before :: "time \<Rightarrow> time \<Rightarrow> bool" where
  "time_Before t u \<longleftrightarrow> t < u"

definition time_After :: "time \<Rightarrow> time \<Rightarrow> bool" where
  "time_After t u \<longleftrightarrow> t > u"

lemmas time_defs [go_simps] =
  time_Add_def time_IsZero_def time_Before_def time_After_def

lemmas duration_consts [go_simps] = Second_def Minute_def Hour_def

text \<open>A saturated difference exceeds a representable duration exactly when the true one does.\<close>

lemma time_Sub_gt_iff:
  "minDuration \<le> d \<Longrightarrow> d < maxDuration \<Longrightarrow> time_Sub t u > d \<longleftrightarrow> t - u > d"
  by (auto simp: time_Sub_def)

lemma time_Sub_gtD: "time_Sub t u > d \<Longrightarrow> minDuration \<le> d \<Longrightarrow> t - u > d"
  by (auto simp: time_Sub_def max_def min_def split: if_splits)

lemma time_Sub_self [simp]: "time_Sub t t = 0"
  by (simp add: time_Sub_def minDuration_def maxDuration_def)

section \<open>Buffered channels\<close>

text \<open>
  A buffered channel is its queue and its capacity. \<open>chan_trySend\<close> is the idiom
  \<open>select { case ch <- x: default: }\<close>: the value is queued when the buffer has room and dropped
  otherwise. \<open>chan_recv\<close> takes the oldest value.
\<close>

record 'a chan =
  ch_buf :: "'a list"
  ch_cap :: nat

definition chan_make :: "nat \<Rightarrow> 'a chan" where
  "chan_make n = \<lparr>ch_buf = [], ch_cap = n\<rparr>"

definition chan_trySend :: "'a chan \<Rightarrow> 'a \<Rightarrow> 'a chan" where
  "chan_trySend c x = (if length (ch_buf c) < ch_cap c then c\<lparr>ch_buf := ch_buf c @ [x]\<rparr> else c)"

definition chan_recv :: "'a chan \<Rightarrow> ('a \<times> 'a chan) option" where
  "chan_recv c = (case ch_buf c of [] \<Rightarrow> None | x # xs \<Rightarrow> Some (x, c\<lparr>ch_buf := xs\<rparr>))"

definition chan_wf :: "'a chan \<Rightarrow> bool" where
  "chan_wf c \<longleftrightarrow> length (ch_buf c) \<le> ch_cap c"

text \<open>
  The contract of a lossy sender: every layer of the pipeline hands its output over with one.
  Bounded, order preserving, nothing but the sent value is added, and a value is lost only when
  the buffer is full.
\<close>

locale lossy_sender =
  fixes send :: "'a chan \<Rightarrow> 'a \<Rightarrow> 'a chan"
  assumes send_room: "length (ch_buf c) < ch_cap c \<Longrightarrow> ch_buf (send c x) = ch_buf c @ [x]"
    and send_full: "\<not> length (ch_buf c) < ch_cap c \<Longrightarrow> send c x = c"
    and send_cap: "ch_cap (send c x) = ch_cap c"
begin

lemma send_wf: "chan_wf c \<Longrightarrow> chan_wf (send c x)"
  by (cases "length (ch_buf c) < ch_cap c")
    (auto simp: chan_wf_def send_room send_full send_cap)

lemma send_extends: "\<exists>ys. ch_buf (send c x) = ch_buf c @ ys \<and> set ys \<subseteq> {x} \<and> length ys \<le> 1"
  by (cases "length (ch_buf c) < ch_cap c") (auto simp: send_room send_full)

lemma send_filter:
  "\<not> P x \<Longrightarrow> filter P (ch_buf (send c x)) = filter P (ch_buf c)"
  by (cases "length (ch_buf c) < ch_cap c") (auto simp: send_room send_full)

lemma fold_send_wf: "chan_wf c \<Longrightarrow> chan_wf (foldl send c xs)"
  by (induction xs arbitrary: c) (auto simp: send_wf)

lemma fold_send_cap: "ch_cap (foldl send c xs) = ch_cap c"
  by (induction xs arbitrary: c) (auto simp: send_cap)

lemma fold_send_room:
  "length (ch_buf c) + length xs \<le> ch_cap c \<Longrightarrow> ch_buf (foldl send c xs) = ch_buf c @ xs"
  by (induction xs arbitrary: c) (auto simp: send_room send_cap)

end

interpretation trySend: lossy_sender chan_trySend
  by unfold_locales (auto simp: chan_trySend_def)

section \<open>Maps with iteration\<close>

text \<open>
  A Go map is an association list with distinct keys; a range loop visits it in list order. Go
  leaves the order open, and a theorem that is stated for every association list holds for
  every order.
\<close>

type_synonym ('k, 'v) gomap = "('k \<times> 'v) list"

abbreviation mget :: "('k, 'v) gomap \<Rightarrow> 'k \<Rightarrow> 'v option" where
  "mget \<equiv> map_of"

abbreviation mput :: "'k \<Rightarrow> 'v \<Rightarrow> ('k, 'v) gomap \<Rightarrow> ('k, 'v) gomap" where
  "mput \<equiv> AList.update"

abbreviation mdel :: "'k \<Rightarrow> ('k, 'v) gomap \<Rightarrow> ('k, 'v) gomap" where
  "mdel \<equiv> AList.delete"

definition map_wf :: "('k, 'v) gomap \<Rightarrow> bool" where
  "map_wf m \<longleftrightarrow> distinct (map fst m)"

lemma map_wf_Nil [simp]: "map_wf []"
  by (simp add: map_wf_def)

lemma map_wf_mput [simp]: "map_wf m \<Longrightarrow> map_wf (mput k v m)"
  by (simp add: map_wf_def distinct_update)

lemma map_wf_mdel [simp]: "map_wf m \<Longrightarrow> map_wf (mdel k m)"
  by (simp add: map_wf_def distinct_delete)

lemma map_wf_filter [simp]: "map_wf m \<Longrightarrow> map_wf (filter P m)"
  by (auto simp: map_wf_def distinct_map intro: inj_on_subset)

lemma mget_mput [simp, store_simps]: "mget (mput k v m) k' = (if k' = k then Some v else mget m k')"
  by (simp add: update_conv')

lemma mget_mdel [simp, store_simps]: "mget (mdel k m) k' = (if k' = k then None else mget m k')"
  by (simp add: delete_conv')

lemma mget_in_set: "map_wf m \<Longrightarrow> mget m k = Some v \<longleftrightarrow> (k, v) \<in> set m"
  by (simp add: map_wf_def)

lemma mget_filter [store_simps]:
  "map_wf m \<Longrightarrow> mget (filter (\<lambda>(k, v). P k v) m) k
     = (case mget m k of None \<Rightarrow> None | Some v \<Rightarrow> if P k v then Some v else None)"
  by (induction m) (force simp: map_wf_def split: option.splits dest: map_of_SomeD)+

lemma set_mput:
  "map_wf m \<Longrightarrow> (k', v') \<in> set (mput k v m) \<longleftrightarrow> (if k' = k then v' = v else (k', v') \<in> set m)"
  using mget_in_set [of m k' v'] mget_in_set [of "mput k v m" k' v'] by auto

section \<open>Decimal formatting and strings\<close>

text \<open>The verb \<open>%d\<close> of package \<open>fmt\<close>.\<close>

fun nat_dec :: "nat \<Rightarrow> string" where
  "nat_dec n = (if n < 10 then [''0123456789'' ! n] else nat_dec (n div 10) @ [''0123456789'' ! (n mod 10)])"

declare nat_dec.simps [simp del]

definition int_dec :: "int \<Rightarrow> string" where
  "int_dec i = (if i < 0 then ''-'' @ nat_dec (nat (- i)) else nat_dec (nat i))"

definition digit_val :: "char \<Rightarrow> nat" where
  "digit_val c = of_char c - 48"

definition dec_val :: "string \<Rightarrow> nat" where
  "dec_val s = foldl (\<lambda>a c. 10 * a + digit_val c) 0 s"

lemma digit_table:
  "n < 10 \<Longrightarrow> digit_val (''0123456789'' ! n) = n \<and> ''0123456789'' ! n \<noteq> CHR ''-''
     \<and> ''0123456789'' ! n \<noteq> CHR ''/''"
proof -
  assume "n < 10"
  then have "n \<in> {0, 1, 2, 3, 4, 5, 6, 7, 8, 9}" by auto
  then show ?thesis by (auto simp: digit_val_def)
qed

lemma dec_val_nat_dec: "dec_val (nat_dec n) = n"
proof (induction n rule: nat_dec.induct)
  case (1 n)
  show ?case
  proof (cases "n < 10")
    case True
    then show ?thesis by (simp add: nat_dec.simps [of n] dec_val_def digit_table)
  next
    case False
    with 1 have "dec_val (nat_dec (n div 10)) = n div 10" by simp
    with False show ?thesis
      by (simp add: nat_dec.simps [of n] dec_val_def digit_table)
  qed
qed

lemma nat_dec_inj [simp]: "nat_dec m = nat_dec n \<longleftrightarrow> m = n"
  by (metis dec_val_nat_dec)

lemma nat_dec_chars: "c \<in> set (nat_dec n) \<Longrightarrow> c \<noteq> CHR ''-'' \<and> c \<noteq> CHR ''/''"
proof (induction n rule: nat_dec.induct)
  case (1 n)
  then show ?case
    by (cases "n < 10") (auto simp: nat_dec.simps [of n] digit_table)
qed

lemma int_dec_inj [simp]: "int_dec i = int_dec j \<longleftrightarrow> i = j"
proof -
  have neq: "''-'' @ nat_dec m \<noteq> nat_dec n" for m n
    using nat_dec_chars [of "CHR ''-''" n] by (metis append_Cons list.set_intros(1))
  show ?thesis
    using neq neq [symmetric] by (auto simp: int_dec_def nat_eq_iff2)
qed

lemma int_dec_no_slash: "CHR ''/'' \<notin> set (int_dec i)"
  using nat_dec_chars by (auto simp: int_dec_def)

text \<open>
  \<open>strconv.ParseInt(s, 10, 64)\<close>, with the value it returns beside an error: zero for a syntax
  error and the nearest bound for a value out of range. \<open>strconv.Atoi\<close> is the same on 64-bit
  platforms.
\<close>

definition isDigit :: "char \<Rightarrow> bool" where
  "isDigit c \<longleftrightarrow> c \<in> set ''0123456789''"

definition ParseInt :: "string \<Rightarrow> int \<times> bool" where
  "ParseInt s =
     (let neg = (s \<noteq> [] \<and> hd s = CHR ''-'');
          digits = (if s \<noteq> [] \<and> (hd s = CHR ''-'' \<or> hd s = CHR ''+'') then tl s else s);
          n = int (dec_val digits)
      in if digits = [] \<or> \<not> list_all isDigit digits then (0, False)
         else if \<not> neg \<and> n \<ge> 2 ^ 63 then (2 ^ 63 - 1, False)
         else if neg \<and> n > 2 ^ 63 then (- (2 ^ 63), False)
         else (if neg then - n else n, True))"

text \<open>Splitting a joined string at its first separator.\<close>

lemma join_eq_iff:
  "x \<notin> set a \<Longrightarrow> x \<notin> set b \<Longrightarrow> a @ x # c = b @ x # d \<longleftrightarrow> a = b \<and> c = d"
proof (induction a arbitrary: b)
  case Nil
  then show ?case by (cases b) auto
next
  case (Cons y a)
  then show ?case by (cases b) auto
qed

section \<open>Formatting instants\<close>

text \<open>
  The calendar fields of an instant: the civil date of a number of days since 1 January of
  year 1 (proleptic Gregorian, counted in eras of 400 years that start on 1 March), and the
  time of day. A location gives the offset from UTC, in seconds, at an instant.
\<close>

type_synonym location = "time \<Rightarrow> int"

definition UTC :: location where "UTC t = 0"

definition civil :: "int \<Rightarrow> int \<times> int \<times> int" where
  "civil days =
     (let z = days + 306; era = z div 146097; doe = z mod 146097;
          yoe = (doe - doe div 1460 + doe div 36524 - doe div 146096) div 365;
          doy = doe - (365 * yoe + yoe div 4 - yoe div 100);
          mp = (5 * doy + 2) div 153;
          day = doy - (153 * mp + 2) div 5 + 1;
          month = (if mp < 10 then mp + 3 else mp - 9)
      in (yoe + era * 400 + (if month \<le> 2 then 1 else 0), month, day))"

definition pad0 :: "nat \<Rightarrow> int \<Rightarrow> string" where
  "pad0 w i = (let s = nat_dec (nat i) in replicate (w - length s) CHR ''0'' @ s)"

text \<open>The layouts \<open>20060102150405.000000\<close> and \<open>time.RFC3339\<close> of \<open>Time.Format\<close>.\<close>

definition format_compact_micro :: "location \<Rightarrow> time \<Rightarrow> string" where
  "format_compact_micro loc t =
     (let t' = t + loc t * Second; secs = t' div Second; (y, m, d) = civil (secs div 86400);
          tod = secs mod 86400
      in pad0 4 y @ pad0 2 m @ pad0 2 d @ pad0 2 (tod div 3600) @ pad0 2 (tod mod 3600 div 60)
         @ pad0 2 (tod mod 60) @ ''.'' @ pad0 6 (t' mod Second div 1000))"

definition zone_suffix :: "int \<Rightarrow> string" where
  "zone_suffix off =
     (let mins = \<bar>off\<bar> div 60 in
      if off = 0 then ''Z''
      else (if off < 0 then ''-'' else ''+'') @ pad0 2 (mins div 60) @ '':'' @ pad0 2 (mins mod 60))"

definition format_RFC3339 :: "location \<Rightarrow> time \<Rightarrow> string" where
  "format_RFC3339 loc t =
     (let secs = t div Second + loc t; (y, m, d) = civil (secs div 86400); tod = secs mod 86400
      in pad0 4 y @ ''-'' @ pad0 2 m @ ''-'' @ pad0 2 d @ ''T'' @ pad0 2 (tod div 3600) @ '':''
         @ pad0 2 (tod mod 3600 div 60) @ '':'' @ pad0 2 (tod mod 60) @ zone_suffix (loc t))"

text \<open>The Unix epoch is day 719162; 29 February 2024 is day 738944.\<close>

lemma civil_examples:
  "civil 0 = (1, 1, 1)" "civil 719162 = (1970, 1, 1)" "civil 738944 = (2024, 2, 29)"
  "civil 738945 = (2024, 3, 1)"
  by code_simp+

section \<open>Searching lists\<close>

lemma find_append: "find P (xs @ ys) = (case find P xs of None \<Rightarrow> find P ys | Some x \<Rightarrow> Some x)"
  by (induction xs) auto

section \<open>Processes that interleave\<close>

text \<open>
  A component whose goroutines interleave is a relation between its states, and what it promises at
  every moment is a predicate that each step keeps.
\<close>

locale kept_invariant =
  fixes step :: "'s \<Rightarrow> 's \<Rightarrow> bool" and inv :: "'s \<Rightarrow> bool"
  assumes step_keeps: "step s s' \<Longrightarrow> inv s \<Longrightarrow> inv s'"
begin

lemma reachable_keeps: "step\<^sup>*\<^sup>* s s' \<Longrightarrow> inv s \<Longrightarrow> inv s'"
  by (induction rule: rtranclp_induct) (auto intro: step_keeps)

lemma reachable_implies: "step\<^sup>*\<^sup>* s s' \<Longrightarrow> inv s \<Longrightarrow> (\<And>s. inv s \<Longrightarrow> P s) \<Longrightarrow> P s'"
  using reachable_keeps by blast

end

section \<open>The contract of \<open>sort.Slice\<close>\<close>

text \<open>
  The documentation of \<open>sort.Slice\<close> promises a permutation that is ordered by the given less
  function, and says that equal elements may be reordered. A sorting function is therefore an
  argument of the definitions that sort, with this predicate as the hypothesis.
\<close>

text \<open>
  A loop that runs sessions until its context is cancelled: a session that ends without an error is
  followed by the next one, one that fails by a test of the context and a delay in which the
  context may be cancelled. A session is its error and result, followed by the two tests. The value
  is \<open>None\<close> while the loop has not ended.
\<close>

fun retryLoop :: "((string option \<times> 'r) \<times> bool \<times> bool) list \<Rightarrow> 'r list \<Rightarrow> 'r list option" where
  "retryLoop [] acc = None"
| "retryLoop (((err, r), cancelled, cancelledInDelay) # rest) acc =
     (if err \<noteq> None \<and> (cancelled \<or> cancelledInDelay) then Some (acc @ [r]) else retryLoop rest (acc @ [r]))"

definition ends :: "(string option \<times> 'r) \<times> bool \<times> bool \<Rightarrow> bool" where
  "ends s \<longleftrightarrow> fst (fst s) \<noteq> None \<and> (fst (snd s) \<or> snd (snd s))"

lemma retryLoop_eq:
  "retryLoop ss acc = (case dropWhile (\<lambda>s. \<not> ends s) ss of
     [] \<Rightarrow> None
   | s # _ \<Rightarrow> Some (acc @ map (snd \<circ> fst) (takeWhile (\<lambda>s. \<not> ends s) ss @ [s])))"
proof (induction ss arbitrary: acc)
  case (Cons s ss)
  obtain err r b b' where s: "s = ((err, r), b, b')" by (metis surj_pair)
  show ?case
  proof (cases "ends s")
    case True
    then have "retryLoop (s # ss) acc = Some (acc @ [r])" by (auto simp: s ends_def)
    with True show ?thesis by (simp add: s)
  next
    case False
    then have step: "retryLoop (s # ss) acc = retryLoop ss (acc @ [r])" by (auto simp: s ends_def)
    show ?thesis unfolding step Cons using False by (cases "dropWhile (\<lambda>s. \<not> ends s) ss") (simp_all add: s del: dropWhile_eq_Nil_conv)
  qed
qed simp

definition slice_sorter :: "('a \<Rightarrow> int) \<Rightarrow> ('a list \<Rightarrow> 'a list) \<Rightarrow> bool" where
  "slice_sorter key srt \<longleftrightarrow> (\<forall>xs. mset (srt xs) = mset xs \<and> sorted (map key (srt xs)))"

lemma slice_sorterD:
  assumes "slice_sorter key srt"
  shows "mset (srt xs) = mset xs" and "sorted (map key (srt xs))"
    and "set (srt xs) = set xs" and "length (srt xs) = length xs"
proof -
  from assms show m: "mset (srt xs) = mset xs" and "sorted (map key (srt xs))"
    by (auto simp: slice_sorter_def)
  from m show "set (srt xs) = set xs" by (metis set_mset_mset)
  from m show "length (srt xs) = length xs" by (metis size_mset)
qed

lemma slice_sorter_sort_key: "slice_sorter key (sort_key key)"
  by (simp add: slice_sorter_def)

end
