(* ===== verification/Types.thy ===== *)
theory Types
  imports Prelude
begin

text \<open>
  The data that flows through the pipeline, from \<open>internal/types/types.go\<close>. A Go struct is a
  record whose fields carry a two- or three-letter tag of the struct in front of the source's
  name (\<open>rr_Kind\<close> is \<open>ResourceReference.Kind\<close>). The string-based enumerations of the source
  stay strings, because values outside the declared constants reach the code from custom
  resources. \<open>interface{}\<close> values are the datatype \<open>gval\<close>.
\<close>

section \<open>Sources, severities, roles\<close>

type_synonym DetectionSource = string
type_synonym Severity = string
type_synonym InstanceRole = string

definition DetectionSourceKubernetes :: DetectionSource where
  "DetectionSourceKubernetes = ''kubernetes''"

definition DetectionSourceOTel :: DetectionSource where
  "DetectionSourceOTel = ''otel''"

definition SeverityLow :: Severity where "SeverityLow = ''low''"
definition SeverityMedium :: Severity where "SeverityMedium = ''medium''"
definition SeverityHigh :: Severity where "SeverityHigh = ''high''"
definition SeverityCritical :: Severity where "SeverityCritical = ''critical''"

definition RoleLeader :: InstanceRole where "RoleLeader = ''leader''"
definition RoleWorker :: InstanceRole where "RoleWorker = ''worker''"

lemmas severity_defs [go_simps] =
  SeverityLow_def SeverityMedium_def SeverityHigh_def SeverityCritical_def
lemmas source_defs [go_simps] = DetectionSourceKubernetes_def DetectionSourceOTel_def
lemmas role_defs [go_simps] = RoleLeader_def RoleWorker_def

section \<open>Values of type \<open>interface{}\<close>\<close>

datatype gval =
    GNil
  | GBool bool
  | GInt int
  | GFloat float64
  | GString string
  | GList "gval list"
  | GMap "(string \<times> gval) list"

type_synonym params = "(string, gval) gomap"
type_synonym labels = "(string, string) gomap"

section \<open>Resource references\<close>

record ResourceReference =
  rr_APIVersion :: string
  rr_Kind :: string
  rr_Namespace :: string
  rr_Name :: string
  rr_UID :: string

definition rr_String :: "ResourceReference \<Rightarrow> string" where
  "rr_String r = (if rr_Namespace r \<noteq> '''' then rr_Namespace r @ ''/'' @ rr_Name r else rr_Name r)"

definition rr_Key :: "ResourceReference \<Rightarrow> string" where
  "rr_Key r = rr_Kind r @ ''/'' @ rr_Namespace r @ ''/'' @ rr_Name r"

definition StateKey :: "string \<Rightarrow> ResourceReference \<Rightarrow> string" where
  "StateKey scenarioID resource = scenarioID @ ''/'' @ rr_Key resource"

section \<open>Detection input and output\<close>

record DetectionInput =
  di_ID :: string
  di_Source :: DetectionSource
  di_Resource :: ResourceReference
  di_Timestamp :: time
  di_Data :: params
  di_Labels :: labels

type_synonym ActionType = string

definition ActionTypeScaleUp :: ActionType where "ActionTypeScaleUp = ''scaleUp''"
definition ActionTypeScaleDown :: ActionType where "ActionTypeScaleDown = ''scaleDown''"
definition ActionTypeRestartPod :: ActionType where "ActionTypeRestartPod = ''restartPod''"
definition ActionTypeRollbackToPrevious :: ActionType where
  "ActionTypeRollbackToPrevious = ''rollback''"
definition ActionTypeAdjustCPU :: ActionType where "ActionTypeAdjustCPU = ''adjustCPU''"
definition ActionTypeAdjustMemory :: ActionType where "ActionTypeAdjustMemory = ''adjustMemory''"
definition ActionTypeUpdateConfig :: ActionType where "ActionTypeUpdateConfig = ''updateConfig''"
definition ActionTypeRunJob :: ActionType where "ActionTypeRunJob = ''runJob''"
definition ActionTypeNotify :: ActionType where "ActionTypeNotify = ''notify''"

lemmas action_type_defs [go_simps] =
  ActionTypeScaleUp_def ActionTypeScaleDown_def ActionTypeRestartPod_def
  ActionTypeRollbackToPrevious_def ActionTypeAdjustCPU_def ActionTypeAdjustMemory_def
  ActionTypeUpdateConfig_def ActionTypeRunJob_def ActionTypeNotify_def

record ActionCondition =
  cond_Type :: string
  cond_Expression :: string

record ActionConfig =
  ac_Type :: ActionType
  ac_Order :: int
  ac_Params :: params
  ac_Conditions :: "ActionCondition list"

record DetectionResult =
  dr_ID :: string
  dr_ScenarioID :: string
  dr_ScenarioName :: string
  dr_Resource :: ResourceReference
  dr_Severity :: Severity
  dr_FirstDetected :: time
  dr_LastDetected :: time
  dr_DetectionCount :: int
  dr_ThresholdMet :: bool
  dr_Message :: string
  dr_Context :: params
  dr_RecommendedActions :: "ActionConfig list"

section \<open>Action results\<close>

type_synonym ActionStatus = string

definition ActionStatusPending :: ActionStatus where "ActionStatusPending = ''pending''"
definition ActionStatusRunning :: ActionStatus where "ActionStatusRunning = ''running''"
definition ActionStatusSucceeded :: ActionStatus where "ActionStatusSucceeded = ''succeeded''"
definition ActionStatusFailed :: ActionStatus where "ActionStatusFailed = ''failed''"
definition ActionStatusSkipped :: ActionStatus where "ActionStatusSkipped = ''skipped''"
definition ActionStatusDryRun :: ActionStatus where "ActionStatusDryRun = ''dryRun''"

lemmas action_status_defs [go_simps] =
  ActionStatusPending_def ActionStatusRunning_def ActionStatusSucceeded_def
  ActionStatusFailed_def ActionStatusSkipped_def ActionStatusDryRun_def

lemma action_status_distinct [simp]:
  "ActionStatusSucceeded \<noteq> ActionStatusFailed" "ActionStatusFailed \<noteq> ActionStatusSucceeded"
  "ActionStatusDryRun \<noteq> ActionStatusFailed" "ActionStatusFailed \<noteq> ActionStatusDryRun"
  "ActionStatusSkipped \<noteq> ActionStatusFailed" "ActionStatusFailed \<noteq> ActionStatusSkipped"
  "ActionStatusSkipped \<noteq> ActionStatusSucceeded" "ActionStatusSucceeded \<noteq> ActionStatusSkipped"
  "ActionStatusDryRun \<noteq> ActionStatusSucceeded" "ActionStatusSucceeded \<noteq> ActionStatusDryRun"
  "ActionStatusDryRun \<noteq> ActionStatusSkipped" "ActionStatusSkipped \<noteq> ActionStatusDryRun"
  by (simp_all add: action_status_defs)

record ResourceChange =
  rc_Field :: string
  rc_OldValue :: string
  rc_NewValue :: string

record ActionResult =
  ar_ID :: string
  ar_DetectionResultID :: string
  ar_ScenarioID :: string
  ar_Resource :: ResourceReference
  ar_Action :: ActionConfig
  ar_Status :: ActionStatus
  ar_StartTime :: time
  ar_EndTime :: time
  ar_Message :: string
  ar_Error :: string
  ar_Changes :: "ResourceChange list"

text \<open>The zero values of the structs, which composite literals fill in for absent fields.\<close>

definition zeroAction :: ActionConfig where
  "zeroAction = \<lparr>ac_Type = '''', ac_Order = 0, ac_Params = [], ac_Conditions = []\<rparr>"

definition zeroResource :: ResourceReference where
  "zeroResource = \<lparr>rr_APIVersion = '''', rr_Kind = '''', rr_Namespace = '''', rr_Name = '''',
     rr_UID = ''''\<rparr>"

definition zeroActionResult :: ActionResult where
  "zeroActionResult = \<lparr>ar_ID = '''', ar_DetectionResultID = '''', ar_ScenarioID = '''',
     ar_Resource = zeroResource, ar_Action = zeroAction, ar_Status = '''', ar_StartTime = 0,
     ar_EndTime = 0, ar_Message = '''', ar_Error = '''', ar_Changes = []\<rparr>"

lemmas zero_defs [go_simps] = zeroAction_def zeroResource_def zeroActionResult_def

section \<open>State tracking\<close>

record DetectionState =
  ds_ScenarioID :: string
  ds_Resource :: ResourceReference
  ds_FirstDetected :: time
  ds_LastDetected :: time
  ds_DetectionCount :: int
  ds_ThresholdMet :: bool
  ds_WindowStart :: time

record RemediationState =
  rs_ScenarioID :: string
  rs_Resource :: ResourceReference
  rs_LastRemediation :: time
  rs_RemediationCount :: int
  rs_CooldownUntil :: time
  rs_Escalated :: bool
  rs_LastActionStatus :: ActionStatus

section \<open>Owners\<close>

record OwnerInfo =
  oi_APIVersion :: string
  oi_Kind :: string
  oi_Name :: string
  oi_UID :: string

text \<open>\<open>metav1.OwnerReference\<close> has the same four fields that the operator reads and writes.\<close>

record OwnerReference =
  or_APIVersion :: string
  or_Kind :: string
  or_Name :: string
  or_UID :: string

definition ToOwnerReference :: "OwnerInfo \<Rightarrow> OwnerReference" where
  "ToOwnerReference o' = \<lparr>or_APIVersion = oi_APIVersion o', or_Kind = oi_Kind o',
     or_Name = oi_Name o', or_UID = oi_UID o'\<rparr>"

section \<open>Identity of resources and of state keys\<close>

definition no_slash :: "string \<Rightarrow> bool" where
  "no_slash s \<longleftrightarrow> CHR ''/'' \<notin> set s"

definition same_object :: "ResourceReference \<Rightarrow> ResourceReference \<Rightarrow> bool" where
  "same_object r r' \<longleftrightarrow> rr_Kind r = rr_Kind r' \<and> rr_Namespace r = rr_Namespace r' \<and> rr_Name r = rr_Name r'"

lemma rr_Key_eq_iff:
  assumes "no_slash (rr_Kind r)" "no_slash (rr_Kind r')"
    and "no_slash (rr_Namespace r)" "no_slash (rr_Namespace r')"
  shows "rr_Key r = rr_Key r' \<longleftrightarrow> same_object r r'"
  using assms by (auto simp: rr_Key_def no_slash_def join_eq_iff same_object_def)

lemma StateKey_eq_iff:
  assumes "no_slash s" "no_slash s'"
  shows "StateKey s r = StateKey s' r' \<longleftrightarrow> s = s' \<and> rr_Key r = rr_Key r'"
  using assms by (auto simp: StateKey_def no_slash_def join_eq_iff)

lemma same_object_Key: "same_object r r' \<Longrightarrow> rr_Key r = rr_Key r'"
  by (simp add: same_object_def rr_Key_def)

end
