(* ===== verification/StateStore.thy ===== *)
theory StateStore
  imports Types
begin

text \<open>
  The interface \<open>StateStore\<close> that the detection engine and the remediation controller each keep
  an in-memory implementation of, and the loop both use to expire entries: a range over the map
  that deletes while it iterates. The locale \<open>state_store\<close> states what the two layers rely on;
  \<open>Detection\<close> and \<open>Remediation\<close> interpret it on their stores.
\<close>

section \<open>Deleting while ranging over a map\<close>

text \<open>
  The first argument list is what is left of the iteration, the map is the one being changed
  and the counter is \<open>cleaned\<close>.
\<close>

fun rangeDelete ::
  "('k \<Rightarrow> 'v \<Rightarrow> bool) \<Rightarrow> ('k \<times> 'v) list \<Rightarrow> ('k, 'v) gomap \<Rightarrow> int \<Rightarrow> ('k, 'v) gomap \<times> int" where
  "rangeDelete p [] m cleaned = (m, cleaned)"
| "rangeDelete p ((k, v) # rest) m cleaned =
     (if p k v then rangeDelete p rest (mdel k m) (cleaned + 1) else rangeDelete p rest m cleaned)"

lemma mdel_filter: "mdel k m = filter (\<lambda>(k', v). k' \<noteq> k) m"
  by (auto simp: AList.delete_eq intro: filter_cong)

lemma rangeDelete_eq:
  "rangeDelete p xs m n =
     (filter (\<lambda>(k, v). \<not> (\<exists>v'. (k, v') \<in> set xs \<and> p k v')) m, n + int (length (filter (\<lambda>(k, v). p k v) xs)))"
proof (induction p xs m n rule: rangeDelete.induct)
  case (1 p m cleaned)
  have "filter (\<lambda>(k, v). True) m = m" by (induction m) auto
  then show ?case by (simp add: case_prod_unfold)
next
  case (2 p k v rest m cleaned)
  show ?case
  proof (cases "p k v")
    case True
    then show ?thesis
      using 2(1) by (auto simp: mdel_filter intro: filter_cong)
  next
    case False
    then show ?thesis
      using 2(2) by (auto intro: filter_cong)
  qed
qed

text \<open>The loop is the filter that keeps the entries it does not delete, and counts the others.\<close>

lemma rangeDelete_filter:
  assumes "map_wf m"
  shows "rangeDelete p m m 0 = (filter (\<lambda>(k, v). \<not> p k v) m, int (length (filter (\<lambda>(k, v). p k v) m)))"
proof -
  have "(\<exists>v'. (k, v') \<in> set m \<and> p k v') \<longleftrightarrow> p k v" if "(k, v) \<in> set m" for k v
    using that assms mget_in_set by (metis option.inject)
  then show ?thesis
    unfolding rangeDelete_eq by (auto intro!: filter_cong)
qed

lemma mget_rangeDelete:
  assumes "map_wf m"
  shows "mget (fst (rangeDelete p m m 0)) k
    = (case mget m k of None \<Rightarrow> None | Some v \<Rightarrow> if p k v then None else Some v)"
  using assms by (auto simp: rangeDelete_filter mget_filter split: option.splits)

lemma map_wf_rangeDelete [simp]: "map_wf m \<Longrightarrow> map_wf (fst (rangeDelete p m m 0))"
  by (simp add: rangeDelete_filter)

section \<open>The interface\<close>

text \<open>
  \<open>clk\<close> is what \<open>Cleanup\<close> reads from the clock, \<open>stale\<close> the condition under which an entry is
  removed.
\<close>

locale state_store =
  fixes getState :: "'s \<Rightarrow> string \<Rightarrow> 'v option"
    and setState :: "'s \<Rightarrow> string \<Rightarrow> 'v \<Rightarrow> 's"
    and deleteState :: "'s \<Rightarrow> string \<Rightarrow> 's"
    and cleanup :: "'clk \<Rightarrow> 's \<Rightarrow> 's \<times> int"
    and stale :: "'s \<Rightarrow> 'clk \<Rightarrow> string \<Rightarrow> 'v \<Rightarrow> bool"
    and inv :: "'s \<Rightarrow> bool"
  assumes get_set: "inv s \<Longrightarrow> getState (setState s k v) k' = (if k' = k then Some v else getState s k')"
    and get_delete: "inv s \<Longrightarrow> getState (deleteState s k) k' = (if k' = k then None else getState s k')"
    and get_cleanup: "inv s \<Longrightarrow> getState (fst (cleanup c s)) k
      = (case getState s k of None \<Rightarrow> None | Some v \<Rightarrow> if stale s c k v then None else Some v)"
    and inv_set: "inv s \<Longrightarrow> inv (setState s k v)"
    and inv_delete: "inv s \<Longrightarrow> inv (deleteState s k)"
    and inv_cleanup: "inv s \<Longrightarrow> inv (fst (cleanup c s))"
begin

text \<open>A read-modify-write of one key leaves the other keys alone.\<close>

lemma rmw_other:
  "inv s \<Longrightarrow> k' \<noteq> k \<Longrightarrow> getState (setState s k (f (getState s k))) k' = getState s k'"
  by (simp add: get_set)

text \<open>A predicate on entries survives every operation whose new entry satisfies it.\<close>

lemma all_set:
  "inv s \<Longrightarrow> (\<And>k v. getState s k = Some v \<Longrightarrow> P k v) \<Longrightarrow> P k v
    \<Longrightarrow> getState (setState s k v) k' = Some v' \<Longrightarrow> P k' v'"
  by (simp add: get_set split: if_splits)

lemma all_delete:
  "inv s \<Longrightarrow> (\<And>k v. getState s k = Some v \<Longrightarrow> P k v)
    \<Longrightarrow> getState (deleteState s k) k' = Some v' \<Longrightarrow> P k' v'"
  by (simp add: get_delete split: if_splits)

lemma all_cleanup:
  "inv s \<Longrightarrow> (\<And>k v. getState s k = Some v \<Longrightarrow> P k v)
    \<Longrightarrow> getState (fst (cleanup c s)) k' = Some v' \<Longrightarrow> P k' v'"
  by (simp add: get_cleanup split: option.splits if_splits)

text \<open>Cleanup never invents an entry and never changes one it keeps.\<close>

lemma cleanup_keeps:
  "inv s \<Longrightarrow> getState (fst (cleanup c s)) k = Some v \<longleftrightarrow> getState s k = Some v \<and> \<not> stale s c k v"
  by (auto simp: get_cleanup split: option.splits)

lemma cleanup_drops:
  "inv s \<Longrightarrow> getState (fst (cleanup c s)) k = None \<longleftrightarrow>
     (\<forall>v. getState s k = Some v \<longrightarrow> stale s c k v)"
  by (auto simp: get_cleanup split: option.splits)

text \<open>After a deletion the key is as if it had never been set.\<close>

lemma delete_after_set: "inv s \<Longrightarrow> getState (deleteState (setState s k v) k) k' = getState (deleteState s k) k'"
  by (simp add: get_delete get_set inv_set)

end

section \<open>States behind pointers\<close>

text \<open>
  Both stores map keys to pointers, and their clients change the objects outside of the lock. The
  map is one to pointers below \<open>n\<close>, the first that is not allocated. A client holds the pointer of a
  key when no other key has it and the key has it or none.
\<close>

definition pointers_ok :: "(string, nat) gomap \<Rightarrow> nat \<Rightarrow> bool" where
  "pointers_ok m n \<longleftrightarrow> map_wf m \<and> (\<forall>k p. mget m k = Some p \<longrightarrow> p < n)
     \<and> (\<forall>k k' p. mget m k = Some p \<and> mget m k' = Some p \<longrightarrow> k = k')"

definition holds :: "(string, nat) gomap \<Rightarrow> nat \<Rightarrow> string \<Rightarrow> nat \<Rightarrow> bool" where
  "holds m n key p \<longleftrightarrow> p < n \<and> (\<forall>k. mget m k = Some p \<longrightarrow> k = key) \<and> mget m key \<in> {None, Some p}"

lemma pointers_ok_empty [simp]: "pointers_ok [] n"
  by (simp add: pointers_ok_def)

lemma pointers_ok_Suc: "pointers_ok m n \<Longrightarrow> pointers_ok m (Suc n)"
  by (auto simp: pointers_ok_def less_Suc_eq)

lemma holds_found: "pointers_ok m n \<Longrightarrow> mget m k = Some p \<Longrightarrow> holds m n k p"
  by (auto simp: pointers_ok_def holds_def)

lemma holds_new: "pointers_ok m n \<Longrightarrow> mget m k = None \<Longrightarrow> holds m (Suc n) k n"
  by (fastforce simp: pointers_ok_def holds_def)

lemma pointers_ok_store: "pointers_ok m n \<Longrightarrow> holds m n k p \<Longrightarrow> pointers_ok (mput k p m) n"
  by (auto simp: pointers_ok_def holds_def split: if_splits)

text \<open>A cleanup, also between two uses of the store by a client, forgets keys only.\<close>

lemma swept_get:
  assumes "map_wf m"
  shows "mget (fst (rangeDelete P m m 0)) k = Some p \<Longrightarrow> mget m k = Some p"
    and "mget m k = None \<Longrightarrow> mget (fst (rangeDelete P m m 0)) k = None"
    and "mget m k = Some p \<Longrightarrow> mget (fst (rangeDelete P m m 0)) k \<in> {None, Some p}"
  using assms by (auto simp: mget_rangeDelete split: option.splits if_splits)

lemma pointers_ok_sweep:
  assumes "pointers_ok m n"
  shows "pointers_ok (fst (rangeDelete P m m 0)) n"
proof -
  have wf: "map_wf m" using assms by (simp add: pointers_ok_def)
  note get = swept_get(1) [OF wf, of P]
  show ?thesis unfolding pointers_ok_def
  proof (intro conjI allI impI)
    show "map_wf (fst (rangeDelete P m m 0))" using wf by simp
  next
    fix k p
    assume "mget (fst (rangeDelete P m m 0)) k = Some p"
    then show "p < n" using get [of k p] assms by (auto simp: pointers_ok_def)
  next
    fix k k' p
    assume "mget (fst (rangeDelete P m m 0)) k = Some p \<and> mget (fst (rangeDelete P m m 0)) k' = Some p"
    then show "k = k'" using get [of k p] get [of k' p] assms by (auto simp: pointers_ok_def)
  qed
qed

lemma holds_sweep:
  assumes "map_wf m" "holds m n key p"
  shows "holds (fst (rangeDelete P m m 0)) n key p"
proof -
  from assms(2) have h: "p < n" "\<And>k. mget m k = Some p \<Longrightarrow> k = key" "mget m key = None \<or> mget m key = Some p"
    by (auto simp: holds_def)
  have "k = key" if "mget (fst (rangeDelete P m m 0)) k = Some p" for k
    using h(2) [of k] swept_get(1) [OF assms(1) that] by simp
  moreover have "mget (fst (rangeDelete P m m 0)) key \<in> {None, Some p}"
    using h(3) swept_get(2) [OF assms(1), of key P] swept_get(3) [OF assms(1), of key p P] by auto
  ultimately show ?thesis using h(1) by (simp add: holds_def)
qed

text \<open>The store with the states themselves, as \<open>Detection\<close> and \<open>Remediation\<close> see it.\<close>

lemma map_mput: "map (\<lambda>(k, q). (k, f q)) (mput key p xs) = mput key (f p) (map (\<lambda>(k, q). (k, f q)) xs)"
  by (induction xs) auto

lemma mput_overwrites:
  "map_wf xs \<Longrightarrow> \<forall>(k, q) \<in> set xs. q = p \<longrightarrow> k = key \<Longrightarrow>
     mput key v (map (\<lambda>(k, q). (k, (f(p := v)) q)) xs) = mput key v (map (\<lambda>(k, q). (k, f q)) xs)"
proof (induction xs)
  case (Cons x xs)
  obtain k q where x: "x = (k, q)" by force
  have "map (\<lambda>(k, q). (k, (f(p := v)) q)) xs = map (\<lambda>(k, q). (k, f q)) xs" if "k = key"
    using that Cons.prems x by (auto simp: map_wf_def image_iff)
  with Cons x show ?case by (auto simp: map_wf_def)
qed simp

lemma get_deref: "mget (map (\<lambda>(k, p). (k, f p)) xs) k = map_option f (mget xs k)"
  by (induction xs) auto

lemma mdel_deref: "mdel k (map (\<lambda>(k, p). (k, f p)) xs) = map (\<lambda>(k, p). (k, f p)) (mdel k xs)"
  by (induction xs) auto

lemma rangeDelete_deref:
  "fst (rangeDelete P (map (\<lambda>(k, p). (k, f p)) xs) (map (\<lambda>(k, p). (k, f p)) m) n)
     = map (\<lambda>(k, p). (k, f p)) (fst (rangeDelete (\<lambda>k p. P k (f p)) xs m n))"
  by (induction xs arbitrary: m n) (auto simp: mdel_deref)

text \<open>Changing the object of a key, or a new one, and storing the pointer is an update of the store of states.\<close>

lemma pointer_own:
  assumes "pointers_ok m n" "mget m k = Some (case mget m key of None \<Rightarrow> n | Some p \<Rightarrow> p)"
  shows "k = key"
  using assms by (fastforce simp: pointers_ok_def split: option.splits)

lemma deref_update:
  assumes "pointers_ok m n" "p = (case mget m key of None \<Rightarrow> n | Some p \<Rightarrow> p)"
  shows "map (\<lambda>(k, q). (k, (f(p := v)) q)) (mput key p m) = mput key v (map (\<lambda>(k, q). (k, f q)) m)"
proof -
  have wf: "map_wf m" using assms(1) by (simp add: pointers_ok_def)
  have "\<forall>(k, q) \<in> set m. q = p \<longrightarrow> k = key"
    using pointer_own [OF assms(1)] mget_in_set [OF wf] assms(2) by auto
  from mput_overwrites [OF wf this, of v f] show ?thesis unfolding map_mput by simp
qed

end
