(* ===== verification/CEL.thy ===== *)
theory CEL
  imports Types
begin

text \<open>
  The CEL evaluator of \<open>internal/detection/cel_evaluator.go\<close>: compilation with a cache of
  programs, evaluation and the conversion of the result. The library \<open>cel-go\<close> is the record
  \<open>celenv\<close> of the functions the evaluator calls: \<open>env.Compile\<close>, \<open>ast.OutputType\<close>,
  \<open>env.Program\<close> and \<open>prog.Eval\<close>. Types are represented by their printed names.
\<close>

section \<open>The library interface\<close>

record refval =
  rv_Type :: string
  rv_Value :: gval

record ('a, 'p) celenv =
  env_Compile :: "string \<Rightarrow> string + 'a"
  env_OutputType :: "'a \<Rightarrow> string"
  env_Program :: "'a \<Rightarrow> string + 'p"
  env_Eval :: "'p \<Rightarrow> params \<Rightarrow> string + refval"

definition BoolType :: string where "BoolType = ''bool''"

datatype CELError =
    EnvironmentError string
  | CompilationError string
  | OutputNotBool string
  | ProgramCreationError string
  | EvaluationError string
  | ReturnedType string
  | ReturnedNonBool gval

section \<open>The evaluator\<close>

record ('a, 'p) CELEvaluator =
  cel_env :: "('a, 'p) celenv"
  cel_cache :: "(string, 'p) gomap"

text \<open>\<open>newEnv\<close> is \<open>cel.NewEnv\<close> applied to the declared variables and their types.\<close>

definition NewCELEvaluator ::
  "((string \<times> string) list \<Rightarrow> string + ('a, 'p) celenv) \<Rightarrow> CELError + ('a, 'p) CELEvaluator" where
  "NewCELEvaluator newEnv =
     (case newEnv [(''data'', ''dyn''), (''resource'', ''dyn''), (''labels'', ''dyn'')] of
        Inl err \<Rightarrow> Inl (EnvironmentError err)
      | Inr env \<Rightarrow> Inr \<lparr>cel_env = env, cel_cache = []\<rparr>)"

definition Compile ::
  "('a, 'p) CELEvaluator \<Rightarrow> string \<Rightarrow> (CELError + 'p) \<times> ('a, 'p) CELEvaluator" where
  "Compile e expression =
     (case mget (cel_cache e) expression of
        Some prog \<Rightarrow> (Inr prog, e)
      | None \<Rightarrow>
          (case env_Compile (cel_env e) expression of
             Inl issues \<Rightarrow> (Inl (CompilationError issues), e)
           | Inr ast \<Rightarrow>
               if env_OutputType (cel_env e) ast \<noteq> BoolType
               then (Inl (OutputNotBool (env_OutputType (cel_env e) ast)), e)
               else (case env_Program (cel_env e) ast of
                       Inl err \<Rightarrow> (Inl (ProgramCreationError err), e)
                     | Inr prog \<Rightarrow>
                         (Inr prog, e\<lparr>cel_cache := mput expression prog (cel_cache e)\<rparr>))))"

definition boolFromRef :: "refval \<Rightarrow> CELError + bool" where
  "boolFromRef val =
     (if rv_Type val \<noteq> BoolType then Inl (ReturnedType (rv_Type val))
      else case rv_Value val of GBool b \<Rightarrow> Inr b | v \<Rightarrow> Inl (ReturnedNonBool v))"

definition EvalProgram ::
  "('a, 'p) celenv \<Rightarrow> 'p \<Rightarrow> params \<Rightarrow> params \<Rightarrow> params \<Rightarrow> CELError + bool" where
  "EvalProgram env prog data resource labels =
     (let activation = [(''data'', GMap data), (''resource'', GMap resource), (''labels'', GMap labels)] in
      case env_Eval env prog activation of
        Inl err \<Rightarrow> Inl (EvaluationError err)
      | Inr out \<Rightarrow> boolFromRef out)"

definition Evaluate ::
  "('a, 'p) CELEvaluator \<Rightarrow> string \<Rightarrow> params \<Rightarrow> params \<Rightarrow> params
     \<Rightarrow> (CELError + bool) \<times> ('a, 'p) CELEvaluator" where
  "Evaluate e expression data resource labels =
     (case Compile e expression of
        (Inl err, e') \<Rightarrow> (Inl err, e')
      | (Inr prog, e') \<Rightarrow> (EvalProgram (cel_env e') prog data resource labels, e'))"

section \<open>The cache is transparent\<close>

text \<open>Compilation without a cache.\<close>

definition compileRef :: "('a, 'p) celenv \<Rightarrow> string \<Rightarrow> CELError + 'p" where
  "compileRef env expression = fst (Compile \<lparr>cel_env = env, cel_cache = []\<rparr> expression)"

definition evaluateRef ::
  "('a, 'p) celenv \<Rightarrow> string \<Rightarrow> params \<Rightarrow> params \<Rightarrow> params \<Rightarrow> CELError + bool" where
  "evaluateRef env expression data resource labels =
     (case compileRef env expression of
        Inl err \<Rightarrow> Inl err | Inr prog \<Rightarrow> EvalProgram env prog data resource labels)"

definition cel_coherent :: "('a, 'p) CELEvaluator \<Rightarrow> bool" where
  "cel_coherent e \<longleftrightarrow> (\<forall>x p. mget (cel_cache e) x = Some p \<longrightarrow> compileRef (cel_env e) x = Inr p)"

lemma Compile_env [simp]: "cel_env (snd (Compile e x)) = cel_env e"
  by (simp add: Compile_def split: option.splits sum.splits)

lemma Compile_fst: "cel_coherent e \<Longrightarrow> fst (Compile e x) = compileRef (cel_env e) x"
  by (auto simp: Compile_def compileRef_def cel_coherent_def split: option.splits sum.splits)

lemma Compile_cache:
  "cel_cache (snd (Compile e x)) =
     (case fst (Compile e x) of Inl _ \<Rightarrow> cel_cache e
      | Inr p \<Rightarrow> if mget (cel_cache e) x = None then mput x p (cel_cache e) else cel_cache e)"
  by (auto simp: Compile_def split: option.splits sum.splits)

lemma Compile_coherent [simp]: "cel_coherent e \<Longrightarrow> cel_coherent (snd (Compile e x))"
  unfolding cel_coherent_def
  by (auto simp: Compile_cache Compile_fst cel_coherent_def split: sum.splits)

text \<open>A program that compiled once is found in the cache from then on.\<close>

lemma Compile_hit:
  "fst (Compile e x) = Inr p \<Longrightarrow> mget (cel_cache (snd (Compile e x))) x = Some p"
  by (auto simp: Compile_def split: option.splits sum.splits if_splits)

lemma Evaluate_snd [simp]: "snd (Evaluate e x d r l) = snd (Compile e x)"
  by (simp add: Evaluate_def split: prod.splits sum.splits)

lemma Evaluate_fst:
  assumes "cel_coherent e"
  shows "fst (Evaluate e x d r l) = evaluateRef (cel_env e) x d r l"
proof -
  have "fst (Evaluate e x d r l) =
     (case fst (Compile e x) of Inl err \<Rightarrow> Inl err | Inr p \<Rightarrow> EvalProgram (cel_env e) p d r l)"
    using Compile_env [of e x] by (cases "Compile e x") (auto simp: Evaluate_def split: sum.splits)
  then show ?thesis
    by (simp add: evaluateRef_def Compile_fst [OF assms])
qed

lemma NewCELEvaluator_coherent: "NewCELEvaluator newEnv = Inr e \<Longrightarrow> cel_coherent e \<and> cel_cache e = []"
  by (auto simp: NewCELEvaluator_def cel_coherent_def split: sum.splits)

lemmas cel_simps = Evaluate_fst Evaluate_snd Compile_env Compile_fst

section \<open>Transparency over a whole run\<close>

definition evaluateAll ::
  "('a, 'p) CELEvaluator \<Rightarrow> (string \<times> params \<times> params \<times> params) list \<Rightarrow> ('a, 'p) CELEvaluator" where
  "evaluateAll e calls = foldl (\<lambda>e (x, d, r, l). snd (Evaluate e x d r l)) e calls"

lemma evaluateAll_coherent: "cel_coherent e \<Longrightarrow> cel_coherent (evaluateAll e calls)"
  unfolding evaluateAll_def by (induction calls arbitrary: e) auto

lemma evaluateAll_env [simp]: "cel_env (evaluateAll e calls) = cel_env e"
  unfolding evaluateAll_def by (induction calls arbitrary: e) auto

text \<open>
  A concrete environment: the expressions are the literals \<open>true\<close> and \<open>false\<close>, a number and
  garbage.
\<close>

definition literal_env :: "(string, string) celenv" where
  "literal_env = \<lparr>
     env_Compile = (\<lambda>x. if x \<in> {''true'', ''false'', ''1''} then Inr x else Inl ''syntax error''),
     env_OutputType = (\<lambda>a. if a = ''1'' then ''int'' else ''bool''),
     env_Program = Inr,
     env_Eval = (\<lambda>p act. Inr \<lparr>rv_Type = ''bool'', rv_Value = GBool (p = ''true'')\<rparr>)\<rparr>"

text \<open>
  C23. After any sequence of evaluations on a new evaluator, evaluating an expression gives what
  compiling it afresh and running it gives, error or value: the program cache is invisible.
\<close>

theorem cache_transparent:
  assumes "NewCELEvaluator newEnv = Inr ev"
  shows "fst (Evaluate (evaluateAll ev calls) x d r l) = evaluateRef (cel_env ev) x d r l"
  using NewCELEvaluator_coherent [OF assms] by (simp add: Evaluate_fst evaluateAll_coherent)

theorem cache_transparent_witness:
  "NewCELEvaluator (\<lambda>_. Inr literal_env) = Inr \<lparr>cel_env = literal_env, cel_cache = []\<rparr>
   \<and> fst (Evaluate (evaluateAll \<lparr>cel_env = literal_env, cel_cache = []\<rparr> [(''true'', [], [], []), (''1'', [], [], [])])
            ''true'' [] [] []) = Inr True"
proof -
  have new: "NewCELEvaluator (\<lambda>_. Inr literal_env) = Inr \<lparr>cel_env = literal_env, cel_cache = []\<rparr>"
    by (simp add: NewCELEvaluator_def)
  have "evaluateRef literal_env ''true'' [] [] [] = Inr True"
    by (simp add: evaluateRef_def compileRef_def Compile_def EvalProgram_def literal_env_def
        boolFromRef_def BoolType_def)
  with new cache_transparent [OF new] show ?thesis by simp
qed

end
