(* ===== verification/Config.thy ===== *)
theory Config
  imports Prelude
begin

text \<open>
  The operator's configuration, from \<open>internal/config/config.go\<close>: the configuration structs as
  records, \<open>Default\<close>, \<open>Load\<close>, \<open>ApplyFlagOverrides\<close> and \<open>Validate\<close>. Reading the file and decoding
  YAML are arguments of \<open>Load\<close>. The errors of \<open>Validate\<close> are the constructors of \<open>ConfigError\<close>,
  one for each message, with the values the message prints.
\<close>

section \<open>The configuration structs\<close>

record LeaderElectionConfig =
  le_Enabled :: bool
  le_LeaseName :: string
  le_LeaseNamespace :: string
  le_LeaseDuration :: duration
  le_RenewDeadline :: duration
  le_RetryPeriod :: duration

record OperatorConfig =
  oc_Mode :: string
  oc_Namespace :: string
  oc_LeaderElection :: LeaderElectionConfig

record KubernetesConfig =
  kc_Enabled :: bool
  kc_ResyncPeriod :: duration
  kc_Namespaces :: "string list"
  kc_ExcludedNamespaces :: "string list"
  kc_LabelSelector :: string

record OTelEndpointConfig =
  oe_Enabled :: bool
  oe_Endpoint :: string

record OTelReceiverConfig =
  or_Enabled :: bool
  or_GRPC :: OTelEndpointConfig
  or_HTTP :: OTelEndpointConfig

record OTelConfig =
  ot_Receiver :: OTelReceiverConfig

record PipelineConfig =
  pc_DetectionInputBufferSize :: int
  pc_DetectionResultBufferSize :: int
  pc_ActionResultBufferSize :: int

record DetectionConfig =
  dc_EvaluationInterval :: duration
  dc_MaxConcurrentEvaluations :: int
  dc_StateCleanupInterval :: duration
  dc_StateExpiration :: duration

record RemediationConfig =
  rm_DryRun :: bool
  rm_DefaultCooldown :: duration
  rm_DefaultMaxRetries :: int
  rm_ActionTimeout :: duration

record CacheSettingsConfig =
  cs_MaxSize :: int
  cs_MaxAge :: duration
  cs_MaxEntries :: int
  cs_EvictionPolicy :: string

record CacheConfig =
  cc_Metrics :: CacheSettingsConfig
  cc_Logs :: CacheSettingsConfig
  cc_Traces :: CacheSettingsConfig

record MetricsConfig =
  mc_Address :: string

record HealthConfig =
  hc_Address :: string

record ResourcesConfig =
  rsc_AdaptiveMode :: bool
  rsc_MemoryWarningThreshold :: float64
  rsc_MemoryCriticalThreshold :: float64
  rsc_MemoryEmergencyThreshold :: float64

record TaskQueueConfig =
  tq_ActiveDeadline :: duration
  tq_RetentionPeriod :: duration
  tq_TrailingRetention :: duration
  tq_CleanupInterval :: duration

record Config =
  cfg_Operator :: OperatorConfig
  cfg_Kubernetes :: KubernetesConfig
  cfg_OTel :: OTelConfig
  cfg_Pipeline :: PipelineConfig
  cfg_Detection :: DetectionConfig
  cfg_Remediation :: RemediationConfig
  cfg_Cache :: CacheConfig
  cfg_Metrics :: MetricsConfig
  cfg_Health :: HealthConfig
  cfg_Resources :: ResourcesConfig
  cfg_TaskQueue :: TaskQueueConfig

section \<open>Defaults\<close>

text \<open>The literals 0.70, 0.80 and 0.90 are the nearest doubles.\<close>

definition f64_0_70 :: float64 where "f64_0_70 = Fin (3152519739159347 / 4503599627370496)"
definition f64_0_80 :: float64 where "f64_0_80 = Fin (3602879701896397 / 4503599627370496)"
definition f64_0_90 :: float64 where "f64_0_90 = Fin (8106479329266893 / 9007199254740992)"

definition Default :: Config where
  "Default = \<lparr>
     cfg_Operator = \<lparr>oc_Mode = ''offline'', oc_Namespace = ''selfhealing-system'',
       oc_LeaderElection = \<lparr>le_Enabled = True, le_LeaseName = ''selfhealing-operator'',
         le_LeaseNamespace = ''selfhealing-system'', le_LeaseDuration = 60 * Second,
         le_RenewDeadline = 15 * Second, le_RetryPeriod = 5 * Second\<rparr>\<rparr>,
     cfg_Kubernetes = \<lparr>kc_Enabled = True, kc_ResyncPeriod = 5 * Minute, kc_Namespaces = [],
       kc_ExcludedNamespaces =
         [''kube-system'', ''kube-public'', ''kube-node-lease'', ''selfhealing-system''],
       kc_LabelSelector = ''''\<rparr>,
     cfg_OTel = \<lparr>ot_Receiver = \<lparr>or_Enabled = True,
       or_GRPC = \<lparr>oe_Enabled = True, oe_Endpoint = ''0.0.0.0:4317''\<rparr>,
       or_HTTP = \<lparr>oe_Enabled = True, oe_Endpoint = ''0.0.0.0:4318''\<rparr>\<rparr>\<rparr>,
     cfg_Pipeline = \<lparr>pc_DetectionInputBufferSize = 500, pc_DetectionResultBufferSize = 100,
       pc_ActionResultBufferSize = 50\<rparr>,
     cfg_Detection = \<lparr>dc_EvaluationInterval = 10 * Second, dc_MaxConcurrentEvaluations = 10,
       dc_StateCleanupInterval = 1 * Minute, dc_StateExpiration = 10 * Minute\<rparr>,
     cfg_Remediation = \<lparr>rm_DryRun = False, rm_DefaultCooldown = 15 * Minute,
       rm_DefaultMaxRetries = 3, rm_ActionTimeout = 30 * Second\<rparr>,
     cfg_Cache = \<lparr>
       cc_Metrics = \<lparr>cs_MaxSize = 50 * 1024 * 1024, cs_MaxAge = 5 * Minute,
         cs_MaxEntries = 100000, cs_EvictionPolicy = ''LRU''\<rparr>,
       cc_Logs = \<lparr>cs_MaxSize = 20 * 1024 * 1024, cs_MaxAge = 5 * Minute,
         cs_MaxEntries = 10000, cs_EvictionPolicy = ''FIFO''\<rparr>,
       cc_Traces = \<lparr>cs_MaxSize = 30 * 1024 * 1024, cs_MaxAge = 5 * Minute,
         cs_MaxEntries = 5000, cs_EvictionPolicy = ''LRU''\<rparr>\<rparr>,
     cfg_Metrics = \<lparr>mc_Address = '':8080''\<rparr>,
     cfg_Health = \<lparr>hc_Address = '':8081''\<rparr>,
     cfg_Resources = \<lparr>rsc_AdaptiveMode = True, rsc_MemoryWarningThreshold = f64_0_70,
       rsc_MemoryCriticalThreshold = f64_0_80, rsc_MemoryEmergencyThreshold = f64_0_90\<rparr>,
     cfg_TaskQueue = \<lparr>tq_ActiveDeadline = 5 * Minute, tq_RetentionPeriod = 1 * Hour,
       tq_TrailingRetention = 0, tq_CleanupInterval = 30 * Second\<rparr>\<rparr>"

section \<open>Loading and flag overrides\<close>

text \<open>
  \<open>readFile\<close> is \<open>os.ReadFile\<close> and \<open>unmarshal data cfg\<close> is \<open>yaml.Unmarshal(data, cfg)\<close>, which
  updates the configuration it is given or fails.
\<close>

definition Load ::
  "(string \<Rightarrow> 'e + 'b) \<Rightarrow> ('b \<Rightarrow> Config \<Rightarrow> 'e + Config) \<Rightarrow> string \<Rightarrow> 'e + Config" where
  "Load readFile unmarshal path =
     (let cfg = Default in
      if path = '''' then Inr cfg
      else case readFile path of
        Inl err \<Rightarrow> Inl err
      | Inr data \<Rightarrow> (case unmarshal data cfg of Inl err \<Rightarrow> Inl err | Inr cfg' \<Rightarrow> Inr cfg'))"

record FlagOverrides =
  fo_ConfigPath :: string
  fo_LogLevel :: string
  fo_ShutdownTimeout :: duration
  fo_DryRun :: bool
  fo_LeaderElectionEnabled :: bool
  fo_MetricsAddress :: string
  fo_HealthAddress :: string

definition set_DryRun :: "Config \<Rightarrow> Config" where
  "set_DryRun c = c\<lparr>cfg_Remediation := (cfg_Remediation c)\<lparr>rm_DryRun := True\<rparr>\<rparr>"

definition set_LeaderElection :: "Config \<Rightarrow> Config" where
  "set_LeaderElection c = c\<lparr>cfg_Operator := (cfg_Operator c)
     \<lparr>oc_LeaderElection := (oc_LeaderElection (cfg_Operator c))\<lparr>le_Enabled := True\<rparr>\<rparr>\<rparr>"

definition ApplyFlagOverrides :: "Config \<Rightarrow> FlagOverrides \<Rightarrow> Config" where
  "ApplyFlagOverrides cfg opts =
     (let c1 = (if fo_DryRun opts then set_DryRun cfg else cfg);
          c2 = (if fo_LeaderElectionEnabled opts then set_LeaderElection c1 else c1);
          c3 = (if fo_MetricsAddress opts \<noteq> ''''
                then c2\<lparr>cfg_Metrics := (cfg_Metrics c2)\<lparr>mc_Address := fo_MetricsAddress opts\<rparr>\<rparr> else c2)
      in if fo_HealthAddress opts \<noteq> ''''
         then c3\<lparr>cfg_Health := (cfg_Health c3)\<lparr>hc_Address := fo_HealthAddress opts\<rparr>\<rparr> else c3)"

section \<open>Validation\<close>

datatype ConfigError =
    ErrNoMonitorsEnabled
  | DetectionInputBufferNotPositive int
  | DetectionResultBufferNotPositive int
  | ActionResultBufferNotPositive int
  | StateCleanupIntervalNotPositive duration
  | StateExpirationNotPositive duration
  | DefaultCooldownTooShort duration
  | DefaultMaxRetriesNotPositive int
  | MemoryWarningOutOfRange float64
  | MemoryCriticalOutOfRange float64
  | MemoryEmergencyOutOfRange float64
  | WarningNotBelowCritical float64 float64
  | CriticalNotBelowEmergency float64 float64
  | LeaseDurationNotPositive duration
  | RenewDeadlineNotPositive duration
  | RetryPeriodNotPositive duration
  | RenewDeadlineNotBelowLease duration duration
  | RetryPeriodNotBelowRenew duration duration

definition out_of_unit :: "float64 \<Rightarrow> bool" where
  "out_of_unit x \<longleftrightarrow> f64_le x (Fin 0) \<or> f64_ge x (Fin 1)"

definition Validate :: "Config \<Rightarrow> ConfigError option" where
  "Validate c =
     (let p = cfg_Pipeline c; d = cfg_Detection c; m = cfg_Remediation c; r = cfg_Resources c;
          le = oc_LeaderElection (cfg_Operator c) in
      if \<not> kc_Enabled (cfg_Kubernetes c) \<and> \<not> or_Enabled (ot_Receiver (cfg_OTel c))
        then Some ErrNoMonitorsEnabled
      else if pc_DetectionInputBufferSize p \<le> 0
        then Some (DetectionInputBufferNotPositive (pc_DetectionInputBufferSize p))
      else if pc_DetectionResultBufferSize p \<le> 0
        then Some (DetectionResultBufferNotPositive (pc_DetectionResultBufferSize p))
      else if pc_ActionResultBufferSize p \<le> 0
        then Some (ActionResultBufferNotPositive (pc_ActionResultBufferSize p))
      else if dc_StateCleanupInterval d \<le> 0
        then Some (StateCleanupIntervalNotPositive (dc_StateCleanupInterval d))
      else if dc_StateExpiration d \<le> 0
        then Some (StateExpirationNotPositive (dc_StateExpiration d))
      else if rm_DefaultCooldown m < Minute
        then Some (DefaultCooldownTooShort (rm_DefaultCooldown m))
      else if rm_DefaultMaxRetries m \<le> 0
        then Some (DefaultMaxRetriesNotPositive (rm_DefaultMaxRetries m))
      else if out_of_unit (rsc_MemoryWarningThreshold r)
        then Some (MemoryWarningOutOfRange (rsc_MemoryWarningThreshold r))
      else if out_of_unit (rsc_MemoryCriticalThreshold r)
        then Some (MemoryCriticalOutOfRange (rsc_MemoryCriticalThreshold r))
      else if out_of_unit (rsc_MemoryEmergencyThreshold r)
        then Some (MemoryEmergencyOutOfRange (rsc_MemoryEmergencyThreshold r))
      else if f64_ge (rsc_MemoryWarningThreshold r) (rsc_MemoryCriticalThreshold r)
        then Some (WarningNotBelowCritical (rsc_MemoryWarningThreshold r) (rsc_MemoryCriticalThreshold r))
      else if f64_ge (rsc_MemoryCriticalThreshold r) (rsc_MemoryEmergencyThreshold r)
        then Some (CriticalNotBelowEmergency (rsc_MemoryCriticalThreshold r) (rsc_MemoryEmergencyThreshold r))
      else if le_Enabled le then
        (if le_LeaseDuration le \<le> 0 then Some (LeaseDurationNotPositive (le_LeaseDuration le))
         else if le_RenewDeadline le \<le> 0 then Some (RenewDeadlineNotPositive (le_RenewDeadline le))
         else if le_RetryPeriod le \<le> 0 then Some (RetryPeriodNotPositive (le_RetryPeriod le))
         else if le_RenewDeadline le \<ge> le_LeaseDuration le
           then Some (RenewDeadlineNotBelowLease (le_RenewDeadline le) (le_LeaseDuration le))
         else if le_RetryPeriod le \<ge> le_RenewDeadline le
           then Some (RetryPeriodNotBelowRenew (le_RetryPeriod le) (le_RenewDeadline le))
         else None)
      else None)"

section \<open>Properties\<close>

text \<open>What a configuration that passed validation guarantees to the components that use it.\<close>

definition runtime_ok :: "Config \<Rightarrow> bool" where
  "runtime_ok c \<longleftrightarrow>
     0 < pc_DetectionInputBufferSize (cfg_Pipeline c)
     \<and> 0 < pc_DetectionResultBufferSize (cfg_Pipeline c)
     \<and> 0 < pc_ActionResultBufferSize (cfg_Pipeline c)
     \<and> 0 < dc_StateCleanupInterval (cfg_Detection c)
     \<and> 0 < dc_StateExpiration (cfg_Detection c)
     \<and> Minute \<le> rm_DefaultCooldown (cfg_Remediation c)
     \<and> 0 < rm_DefaultMaxRetries (cfg_Remediation c)"

lemma Validate_runtime_ok: "Validate c = None \<Longrightarrow> runtime_ok c"
  by (auto simp: Validate_def runtime_ok_def Let_def split: if_splits)

lemma out_of_unit_iff:
  "\<not> out_of_unit x \<longleftrightarrow> x = NaN \<or> (\<exists>q. x = Fin q \<and> 0 < q \<and> q < 1)"
  by (cases x) (auto simp: out_of_unit_def f64_ge_def)

lemma Validate_thresholds:
  assumes "Validate c = None" and "r = cfg_Resources c"
  shows "\<not> out_of_unit (rsc_MemoryWarningThreshold r)" "\<not> out_of_unit (rsc_MemoryCriticalThreshold r)"
    "\<not> out_of_unit (rsc_MemoryEmergencyThreshold r)"
    "\<not> f64_ge (rsc_MemoryWarningThreshold r) (rsc_MemoryCriticalThreshold r)"
    "\<not> f64_ge (rsc_MemoryCriticalThreshold r) (rsc_MemoryEmergencyThreshold r)"
  using assms by (auto simp: Validate_def Let_def split: if_splits)

lemma Validate_lease:
  assumes "Validate c = None" and "le = oc_LeaderElection (cfg_Operator c)" and "le_Enabled le"
  shows "0 < le_RetryPeriod le \<and> le_RetryPeriod le < le_RenewDeadline le
    \<and> le_RenewDeadline le < le_LeaseDuration le"
  using assms by (auto simp: Validate_def Let_def split: if_splits)

lemma ApplyFlagOverrides_frame [simp]:
  "cfg_Kubernetes (ApplyFlagOverrides c f) = cfg_Kubernetes c"
  "cfg_OTel (ApplyFlagOverrides c f) = cfg_OTel c"
  "cfg_Pipeline (ApplyFlagOverrides c f) = cfg_Pipeline c"
  "cfg_Detection (ApplyFlagOverrides c f) = cfg_Detection c"
  "cfg_Resources (ApplyFlagOverrides c f) = cfg_Resources c"
  "cfg_Cache (ApplyFlagOverrides c f) = cfg_Cache c"
  "cfg_TaskQueue (ApplyFlagOverrides c f) = cfg_TaskQueue c"
  by (simp_all add: ApplyFlagOverrides_def Let_def set_DryRun_def set_LeaderElection_def)

lemma ApplyFlagOverrides_fields:
  "rm_DryRun (cfg_Remediation (ApplyFlagOverrides c f))
     \<longleftrightarrow> rm_DryRun (cfg_Remediation c) \<or> fo_DryRun f"
  "rm_DefaultCooldown (cfg_Remediation (ApplyFlagOverrides c f)) = rm_DefaultCooldown (cfg_Remediation c)"
  "rm_DefaultMaxRetries (cfg_Remediation (ApplyFlagOverrides c f)) = rm_DefaultMaxRetries (cfg_Remediation c)"
  "oc_LeaderElection (cfg_Operator (ApplyFlagOverrides c f))
     = (if fo_LeaderElectionEnabled f then (oc_LeaderElection (cfg_Operator c))\<lparr>le_Enabled := True\<rparr>
        else oc_LeaderElection (cfg_Operator c))"
  "mc_Address (cfg_Metrics (ApplyFlagOverrides c f))
     = (if fo_MetricsAddress f \<noteq> '''' then fo_MetricsAddress f else mc_Address (cfg_Metrics c))"
  "hc_Address (cfg_Health (ApplyFlagOverrides c f))
     = (if fo_HealthAddress f \<noteq> '''' then fo_HealthAddress f else hc_Address (cfg_Health c))"
  by (simp_all add: ApplyFlagOverrides_def Let_def set_DryRun_def set_LeaderElection_def)

lemma Default_valid: "Validate Default = None"
  by (simp add: Validate_def Let_def Default_def out_of_unit_def f64_ge_def
      f64_0_70_def f64_0_80_def f64_0_90_def duration_consts)

text \<open>Flags never invalidate a configuration whose lease timing is sound.\<close>

lemma Validate_flags:
  assumes "Validate c = None" and "le_Enabled (oc_LeaderElection (cfg_Operator c))"
  shows "Validate (ApplyFlagOverrides c f) = None"
  using assms by (auto simp: Validate_def Let_def ApplyFlagOverrides_fields split: if_splits)

end
