(* ===== verification/Detection.thy ===== *)
theory Detection
  imports StateStore CEL Config
begin

text \<open>
  The detection engine of \<open>internal/detection/engine.go\<close>: loading and registering scenarios,
  evaluating an input against every enabled scenario, the threshold state machine of
  \<open>handleMatch\<close>, the in-memory state store and the life cycle. A reading of the clock is an
  argument of the operation that makes it. The main loop, the cleanup goroutine and the reload
  callback interleave as a list of events, each of which runs one operation.
\<close>

section \<open>Scenarios and the engine state\<close>

record ResourceFilter =
  rf_Kind :: string
  rf_APIVersion :: string

record ThresholdConfig =
  th_Count :: int
  th_Window :: duration

record LoadedScenario =
  ls_ID :: string
  ls_Name :: string
  ls_Enabled :: bool
  ls_Severity :: Severity
  ls_Source :: string
  ls_Expression :: string
  ls_Resource :: "ResourceFilter option"
  ls_Threshold :: "ThresholdConfig option"
  ls_Actions :: "ActionConfig list"

record inMemoryStateStore =
  st_states :: "(string, DetectionState) gomap"
  st_stateExpiration :: duration

text \<open>
  \<open>en_scenarioLoader\<close> reads the custom resources of a cluster of type \<open>'w\<close>; \<open>en_stopped\<close> says
  that \<open>stopCh\<close> is closed, which \<open>stopOnce\<close> does at most once.
\<close>

record ('a, 'p, 'w) engineImpl =
  en_config :: Config
  en_outputCh :: "DetectionResult chan"
  en_scenarios :: "(string, LoadedScenario) gomap"
  en_scenarioLoader :: "('w \<Rightarrow> string + LoadedScenario list) option"
  en_celEvaluator :: "('a, 'p) CELEvaluator option"
  en_stateStore :: inMemoryStateStore
  en_ready :: bool
  en_stopped :: bool

datatype EngineError =
    EvaluatorNotInitialized
  | CELFailed CELError
  | InvalidExpression string CELError
  | EvaluatorCreation CELError

section \<open>The in-memory state store\<close>

definition newInMemoryStateStore :: "duration \<Rightarrow> inMemoryStateStore" where
  "newInMemoryStateStore stateExpiration = \<lparr>st_states = [], st_stateExpiration = stateExpiration\<rparr>"

definition GetState :: "inMemoryStateStore \<Rightarrow> string \<Rightarrow> DetectionState option" where
  "GetState s key = mget (st_states s) key"

definition SetState :: "inMemoryStateStore \<Rightarrow> string \<Rightarrow> DetectionState \<Rightarrow> inMemoryStateStore" where
  "SetState s key state = s\<lparr>st_states := mput key state (st_states s)\<rparr>"

definition DeleteState :: "inMemoryStateStore \<Rightarrow> string \<Rightarrow> inMemoryStateStore" where
  "DeleteState s key = s\<lparr>st_states := mdel key (st_states s)\<rparr>"

definition expired :: "inMemoryStateStore \<Rightarrow> time \<Rightarrow> string \<Rightarrow> DetectionState \<Rightarrow> bool" where
  "expired s now key state \<longleftrightarrow>
     time_Before (ds_LastDetected state) (time_Add now (- st_stateExpiration s))"

definition Cleanup :: "time \<Rightarrow> inMemoryStateStore \<Rightarrow> inMemoryStateStore \<times> int" where
  "Cleanup now s =
     (let (m, cleaned) = rangeDelete (expired s now) (st_states s) (st_states s) 0
      in (s\<lparr>st_states := m\<rparr>, cleaned))"

section \<open>Construction, registration and loading\<close>

definition newEngineImpl ::
  "((string \<times> string) list \<Rightarrow> string + ('a, 'p) celenv) \<Rightarrow> Config \<Rightarrow> DetectionResult chan
     \<Rightarrow> ('w \<Rightarrow> string + LoadedScenario list) option \<Rightarrow> EngineError + ('a, 'p, 'w) engineImpl" where
  "newEngineImpl newEnv cfg outputCh loader =
     (case NewCELEvaluator newEnv of
        Inl err \<Rightarrow> Inl (EvaluatorCreation err)
      | Inr celEval \<Rightarrow> Inr \<lparr>en_config = cfg, en_outputCh = outputCh, en_scenarios = [],
          en_scenarioLoader = loader, en_celEvaluator = Some celEval,
          en_stateStore = newInMemoryStateStore (dc_StateExpiration (cfg_Detection cfg)),
          en_ready = False, en_stopped = False\<rparr>)"

text \<open>
  Registration validates the expression first. Without an evaluator the method call would
  dereference nil; \<open>newEngineImpl\<close> always provides one, and this branch is never taken from
  the states it builds.
\<close>

definition RegisterScenario ::
  "('a, 'p, 'w) engineImpl \<Rightarrow> LoadedScenario \<Rightarrow> EngineError option \<times> ('a, 'p, 'w) engineImpl" where
  "RegisterScenario e scenario =
     (if ls_Expression scenario \<noteq> '''' then
        (case en_celEvaluator e of
           None \<Rightarrow> (Some EvaluatorNotInitialized, e)
         | Some ev \<Rightarrow>
             (case Compile ev (ls_Expression scenario) of
                (Inl err, ev') \<Rightarrow>
                  (Some (InvalidExpression (ls_Name scenario) err), e\<lparr>en_celEvaluator := Some ev'\<rparr>)
              | (Inr _, ev') \<Rightarrow>
                  (None, e\<lparr>en_celEvaluator := Some ev',
                           en_scenarios := mput (ls_ID scenario) scenario (en_scenarios e)\<rparr>)))
      else (None, e\<lparr>en_scenarios := mput (ls_ID scenario) scenario (en_scenarios e)\<rparr>))"

fun registerAll ::
  "('a, 'p, 'w) engineImpl \<Rightarrow> LoadedScenario list \<Rightarrow> int \<Rightarrow> ('a, 'p, 'w) engineImpl \<times> int" where
  "registerAll e [] n = (e, n)"
| "registerAll e (s # rest) n =
     (case RegisterScenario e s of
        (Some regErr, e') \<Rightarrow> registerAll e' rest n
      | (None, e') \<Rightarrow> registerAll e' rest (n + 1))"

text \<open>The result is the error of \<open>loadScenarios\<close>, which is always nil, and the new engine.\<close>

definition loadScenarios ::
  "'w \<Rightarrow> ('a, 'p, 'w) engineImpl \<Rightarrow> bool \<Rightarrow> EngineError option \<times> ('a, 'p, 'w) engineImpl" where
  "loadScenarios w e clearFirst =
     (let e1 = (if clearFirst then e\<lparr>en_scenarios := []\<rparr> else e) in
      case en_scenarioLoader e1 of
        None \<Rightarrow> (None, e1)
      | Some load \<Rightarrow>
          (case load w of
             Inl err \<Rightarrow> (None, e1)
           | Inr crdScenarios \<Rightarrow> (None, fst (registerAll e1 crdScenarios 0))))"

definition LoadScenarios ::
  "'w \<Rightarrow> ('a, 'p, 'w) engineImpl \<Rightarrow> EngineError option \<times> ('a, 'p, 'w) engineImpl" where
  "LoadScenarios w e = loadScenarios w e False"

definition ReloadScenarios ::
  "'w \<Rightarrow> ('a, 'p, 'w) engineImpl \<Rightarrow> EngineError option \<times> ('a, 'p, 'w) engineImpl" where
  "ReloadScenarios w e = loadScenarios w e True"

definition GetLoadedScenarios :: "('a, 'p, 'w) engineImpl \<Rightarrow> nat" where
  "GetLoadedScenarios e = length (en_scenarios e)"

section \<open>Evaluation\<close>

definition resourceMap :: "ResourceReference \<Rightarrow> params" where
  "resourceMap r = [(''apiVersion'', GString (rr_APIVersion r)), (''kind'', GString (rr_Kind r)),
     (''namespace'', GString (rr_Namespace r)), (''name'', GString (rr_Name r)),
     (''uid'', GString (rr_UID r))]"

definition labelsMap :: "labels \<Rightarrow> params" where
  "labelsMap ls = map (\<lambda>(k, v). (k, GString v)) ls"

definition evaluateScenario ::
  "('a, 'p, 'w) engineImpl \<Rightarrow> LoadedScenario \<Rightarrow> DetectionInput
     \<Rightarrow> (EngineError + bool) \<times> ('a, 'p, 'w) engineImpl" where
  "evaluateScenario e scenario input =
     (if ls_Source scenario \<noteq> '''' \<and> ls_Source scenario \<noteq> di_Source input then (Inr False, e)
      else if (case ls_Resource scenario of None \<Rightarrow> False
               | Some f \<Rightarrow> rf_Kind f \<noteq> '''' \<and> rf_Kind f \<noteq> rr_Kind (di_Resource input)) then (Inr False, e)
      else if (case ls_Resource scenario of None \<Rightarrow> False
               | Some f \<Rightarrow> rf_APIVersion f \<noteq> '''' \<and> rf_APIVersion f \<noteq> rr_APIVersion (di_Resource input))
        then (Inr False, e)
      else if ls_Expression scenario = '''' then (Inr False, e)
      else case en_celEvaluator e of
        None \<Rightarrow> (Inl EvaluatorNotInitialized, e)
      | Some ev \<Rightarrow>
          (case Evaluate ev (ls_Expression scenario) (di_Data input) (resourceMap (di_Resource input))
                  (labelsMap (di_Labels input)) of
             (Inl err, ev') \<Rightarrow> (Inl (CELFailed err), e\<lparr>en_celEvaluator := Some ev'\<rparr>)
           | (Inr b, ev') \<Rightarrow> (Inr b, e\<lparr>en_celEvaluator := Some ev'\<rparr>)))"

section \<open>Thresholds\<close>

definition generateID :: "location \<Rightarrow> time \<Rightarrow> string" where
  "generateID loc now = format_compact_micro loc now"

definition sendResult ::
  "('a, 'p, 'w) engineImpl \<Rightarrow> DetectionResult \<Rightarrow> ('a, 'p, 'w) engineImpl" where
  "sendResult e result = e\<lparr>en_outputCh := chan_trySend (en_outputCh e) result\<rparr>"

text \<open>
  \<open>checkThreshold\<close> is the second half of \<open>handleMatch\<close>, from the decision whether the threshold
  is met to the final \<open>SetState\<close>. \<open>idNow\<close> is the reading of the clock in \<open>generateID\<close>, used only
  when a result is emitted.
\<close>

definition thresholdReached :: "LoadedScenario \<Rightarrow> DetectionState \<Rightarrow> bool" where
  "thresholdReached scenario state =
     (case ls_Threshold scenario of None \<Rightarrow> True | Some t \<Rightarrow> ds_DetectionCount state \<ge> th_Count t)"

definition mkResult ::
  "location \<Rightarrow> time \<Rightarrow> LoadedScenario \<Rightarrow> DetectionInput \<Rightarrow> DetectionState \<Rightarrow> DetectionResult" where
  "mkResult loc idNow scenario input state =
     \<lparr>dr_ID = generateID loc idNow, dr_ScenarioID = ls_ID scenario,
      dr_ScenarioName = ls_Name scenario, dr_Resource = di_Resource input,
      dr_Severity = ls_Severity scenario, dr_FirstDetected = ds_FirstDetected state,
      dr_LastDetected = ds_LastDetected state, dr_DetectionCount = ds_DetectionCount state,
      dr_ThresholdMet = True,
      dr_Message = ''Scenario '' @ [CHR 0x27] @ ls_Name scenario @ [CHR 0x27]
        @ '' triggered: '' @ int_dec (ds_DetectionCount state) @ '' occurrence(s)'',
      dr_Context = [], dr_RecommendedActions = ls_Actions scenario\<rparr>"

definition checkThreshold ::
  "location \<Rightarrow> time \<Rightarrow> ('a, 'p, 'w) engineImpl \<Rightarrow> LoadedScenario \<Rightarrow> DetectionInput
     \<Rightarrow> string \<Rightarrow> DetectionState \<Rightarrow> ('a, 'p, 'w) engineImpl" where
  "checkThreshold loc idNow e scenario input stateKey state =
     (if thresholdReached scenario state then
        (let state' = state\<lparr>ds_ThresholdMet := True\<rparr>;
             e' = sendResult e (mkResult loc idNow scenario input state')
         in e'\<lparr>en_stateStore := SetState (en_stateStore e') stateKey state'\<rparr>)
      else e\<lparr>en_stateStore := SetState (en_stateStore e) stateKey state\<rparr>)"

definition windowExpired :: "LoadedScenario \<Rightarrow> time \<Rightarrow> DetectionState \<Rightarrow> bool" where
  "windowExpired scenario now state =
     (case ls_Threshold scenario of None \<Rightarrow> False
      | Some t \<Rightarrow> time_Sub now (ds_WindowStart state) > th_Window t)"

definition handleMatch ::
  "location \<Rightarrow> time \<Rightarrow> ('a, 'p, 'w) engineImpl \<Rightarrow> LoadedScenario \<Rightarrow> DetectionInput
     \<Rightarrow> ('a, 'p, 'w) engineImpl" where
  "handleMatch loc idNow e scenario input =
     (let stateKey = StateKey (ls_ID scenario) (di_Resource input);
          now = di_Timestamp input
      in case GetState (en_stateStore e) stateKey of
           None \<Rightarrow> checkThreshold loc idNow e scenario input stateKey
             \<lparr>ds_ScenarioID = ls_ID scenario, ds_Resource = di_Resource input,
              ds_FirstDetected = now, ds_LastDetected = now, ds_DetectionCount = 1,
              ds_ThresholdMet = False, ds_WindowStart = now\<rparr>
         | Some state \<Rightarrow>
             if ds_ThresholdMet state
             then e\<lparr>en_stateStore := SetState (en_stateStore e) stateKey (state\<lparr>ds_LastDetected := now\<rparr>)\<rparr>
             else
               (let state1 = (if windowExpired scenario now state
                              then state\<lparr>ds_DetectionCount := 1, ds_WindowStart := now,
                                         ds_FirstDetected := now\<rparr>
                              else state\<lparr>ds_DetectionCount := ds_DetectionCount state + 1\<rparr>)
                in checkThreshold loc idNow e scenario input stateKey (state1\<lparr>ds_LastDetected := now\<rparr>)))"

text \<open>
  The loop over the snapshot of the enabled scenarios; the \<open>i\<close>-th iteration reads the clock at
  \<open>clk i\<close>. An evaluation error is logged and the loop goes on.
\<close>

fun processScenarios ::
  "location \<Rightarrow> (nat \<Rightarrow> time) \<Rightarrow> DetectionInput \<Rightarrow> nat \<Rightarrow> LoadedScenario list
     \<Rightarrow> ('a, 'p, 'w) engineImpl \<Rightarrow> ('a, 'p, 'w) engineImpl" where
  "processScenarios loc clk input i [] e = e"
| "processScenarios loc clk input i (scenario # rest) e =
     (case evaluateScenario e scenario input of
        (Inl err, e') \<Rightarrow> processScenarios loc clk input (Suc i) rest e'
      | (Inr matched, e') \<Rightarrow>
          processScenarios loc clk input (Suc i) rest
            (if matched then handleMatch loc (clk i) e' scenario input else e'))"

definition processInput ::
  "location \<Rightarrow> (nat \<Rightarrow> time) \<Rightarrow> ('a, 'p, 'w) engineImpl \<Rightarrow> DetectionInput \<Rightarrow> ('a, 'p, 'w) engineImpl" where
  "processInput loc clk e input =
     processScenarios loc clk input 0 (filter ls_Enabled (map snd (en_scenarios e))) e"

section \<open>Life cycle\<close>

definition setReady :: "('a, 'p, 'w) engineImpl \<Rightarrow> bool \<Rightarrow> ('a, 'p, 'w) engineImpl" where
  "setReady e ready = e\<lparr>en_ready := ready\<rparr>"

definition Ready :: "('a, 'p, 'w) engineImpl \<Rightarrow> bool" where
  "Ready e = en_ready e"

definition Stop :: "('a, 'p, 'w) engineImpl \<Rightarrow> ('a, 'p, 'w) engineImpl" where
  "Stop e = (if en_stopped e then e else (setReady e False)\<lparr>en_stopped := True\<rparr>)"

text \<open>The part of \<open>Run\<close> before its loop.\<close>

definition startRun :: "'w \<Rightarrow> ('a, 'p, 'w) engineImpl \<Rightarrow> ('a, 'p, 'w) engineImpl" where
  "startRun w e = setReady (snd (LoadScenarios w e)) True"

definition cleanupTick :: "time \<Rightarrow> ('a, 'p, 'w) engineImpl \<Rightarrow> ('a, 'p, 'w) engineImpl" where
  "cleanupTick now e = e\<lparr>en_stateStore := fst (Cleanup now (en_stateStore e))\<rparr>"

text \<open>
  What can happen to a running engine: an input is received by the loop of \<open>Run\<close>, the ticker
  of \<open>cleanupLoop\<close> fires, scenarios are reloaded, or the remediation controller takes a
  result from the output channel. The second component of the state is what was taken.
\<close>

datatype 'w engineEvent =
    Input DetectionInput "nat \<Rightarrow> time"
  | CleanupTick time
  | Reload 'w
  | Take

fun engineStep ::
  "location \<Rightarrow> ('a, 'p, 'w) engineImpl \<times> DetectionResult list \<Rightarrow> 'w engineEvent
     \<Rightarrow> ('a, 'p, 'w) engineImpl \<times> DetectionResult list" where
  "engineStep loc (e, taken) (Input input clk) = (processInput loc clk e input, taken)"
| "engineStep loc (e, taken) (CleanupTick now) = (cleanupTick now e, taken)"
| "engineStep loc (e, taken) (Reload w) = (snd (ReloadScenarios w e), taken)"
| "engineStep loc (e, taken) Take =
     (case chan_recv (en_outputCh e) of
        None \<Rightarrow> (e, taken)
      | Some (r, ch) \<Rightarrow> (e\<lparr>en_outputCh := ch\<rparr>, taken @ [r]))"

definition engineRun ::
  "location \<Rightarrow> ('a, 'p, 'w) engineImpl \<times> DetectionResult list \<Rightarrow> 'w engineEvent list
     \<Rightarrow> ('a, 'p, 'w) engineImpl \<times> DetectionResult list" where
  "engineRun loc s evs = foldl (engineStep loc) s evs"

section \<open>The store implements its interface\<close>

definition store_wf :: "inMemoryStateStore \<Rightarrow> bool" where
  "store_wf s \<longleftrightarrow> map_wf (st_states s)"

lemma Cleanup_states: "st_states (fst (Cleanup now s)) = fst (rangeDelete (expired s now) (st_states s) (st_states s) 0)"
  by (simp add: Cleanup_def split: prod.splits)

interpretation dstore: state_store GetState SetState DeleteState Cleanup expired store_wf
  by unfold_locales
    (auto simp: GetState_def SetState_def DeleteState_def Cleanup_states mget_rangeDelete store_wf_def)

lemma Cleanup_count:
  "store_wf s \<Longrightarrow> snd (Cleanup now s) = int (length (filter (\<lambda>(k, st). expired s now k st) (st_states s)))"
  by (simp add: Cleanup_def store_wf_def rangeDelete_filter)

interpretation engine_out: lossy_sender
  "\<lambda>c r. en_outputCh (sendResult (e\<lparr>en_outputCh := c\<rparr>) r)" for e :: "('a, 'p, 'w) engineImpl"
  by unfold_locales (auto simp: sendResult_def chan_trySend_def)

section \<open>What a match does to the state of its key\<close>

text \<open>The new state of a key and whether the match emits a result, as functions of the old state.\<close>

definition countedState :: "LoadedScenario \<Rightarrow> DetectionInput \<Rightarrow> DetectionState option \<Rightarrow> DetectionState" where
  "countedState sc input old =
     (let now = di_Timestamp input in
      case old of
        None \<Rightarrow> \<lparr>ds_ScenarioID = ls_ID sc, ds_Resource = di_Resource input, ds_FirstDetected = now,
                 ds_LastDetected = now, ds_DetectionCount = 1, ds_ThresholdMet = False, ds_WindowStart = now\<rparr>
      | Some st \<Rightarrow>
          (if ds_ThresholdMet st then st
           else if windowExpired sc now st
             then st\<lparr>ds_DetectionCount := 1, ds_WindowStart := now, ds_FirstDetected := now\<rparr>
           else st\<lparr>ds_DetectionCount := ds_DetectionCount st + 1\<rparr>)\<lparr>ds_LastDetected := now\<rparr>)"

definition isMet :: "DetectionState option \<Rightarrow> bool" where
  "isMet old \<longleftrightarrow> (\<exists>st. old = Some st \<and> ds_ThresholdMet st)"

definition emits :: "LoadedScenario \<Rightarrow> DetectionInput \<Rightarrow> DetectionState option \<Rightarrow> bool" where
  "emits sc input old \<longleftrightarrow> \<not> isMet old \<and> thresholdReached sc (countedState sc input old)"

definition nextState :: "LoadedScenario \<Rightarrow> DetectionInput \<Rightarrow> DetectionState option \<Rightarrow> DetectionState" where
  "nextState sc input old =
     (countedState sc input old)\<lparr>ds_ThresholdMet := isMet old \<or> emits sc input old\<rparr>"

abbreviation matchKey :: "LoadedScenario \<Rightarrow> DetectionInput \<Rightarrow> string" where
  "matchKey sc input \<equiv> StateKey (ls_ID sc) (di_Resource input)"

lemma isMet_simps [simp]: "\<not> isMet None" "isMet (Some st) \<longleftrightarrow> ds_ThresholdMet st"
  by (simp_all add: isMet_def)

lemma handleMatch_eq:
  "handleMatch loc idNow e sc input =
     (let old = GetState (en_stateStore e) (matchKey sc input); new = nextState sc input old;
          e' = (if emits sc input old then sendResult e (mkResult loc idNow sc input new) else e)
      in e'\<lparr>en_stateStore := SetState (en_stateStore e) (matchKey sc input) new\<rparr>)"
proof (cases "GetState (en_stateStore e) (matchKey sc input)")
  case None
  then show ?thesis
    by (auto simp: handleMatch_def checkThreshold_def nextState_def emits_def countedState_def
        sendResult_def Let_def)
next
  case (Some st)
  then show ?thesis
    by (cases st) (auto simp: handleMatch_def checkThreshold_def nextState_def emits_def countedState_def
        sendResult_def Let_def)
qed

lemma handleMatch_frame [simp]:
  "en_config (handleMatch loc t e sc i) = en_config e"
  "en_scenarios (handleMatch loc t e sc i) = en_scenarios e"
  "en_scenarioLoader (handleMatch loc t e sc i) = en_scenarioLoader e"
  "en_celEvaluator (handleMatch loc t e sc i) = en_celEvaluator e"
  "en_ready (handleMatch loc t e sc i) = en_ready e"
  "en_stopped (handleMatch loc t e sc i) = en_stopped e"
  "st_stateExpiration (en_stateStore (handleMatch loc t e sc i)) = st_stateExpiration (en_stateStore e)"
  by (simp_all add: handleMatch_eq sendResult_def SetState_def Let_def)

lemma handleMatch_store:
  "en_stateStore (handleMatch loc t e sc i) =
     SetState (en_stateStore e) (matchKey sc i)
       (nextState sc i (GetState (en_stateStore e) (matchKey sc i)))"
  by (simp add: handleMatch_eq sendResult_def Let_def)

lemma handleMatch_out:
  "en_outputCh (handleMatch loc t e sc i) =
     (let old = GetState (en_stateStore e) (matchKey sc i) in
      if emits sc i old
      then chan_trySend (en_outputCh e) (mkResult loc t sc i (nextState sc i old))
      else en_outputCh e)"
  by (simp add: handleMatch_eq sendResult_def Let_def)

lemma handleMatch_get:
  "store_wf (en_stateStore e) \<Longrightarrow>
   GetState (en_stateStore (handleMatch loc t e sc i)) k =
     (if k = matchKey sc i then Some (nextState sc i (GetState (en_stateStore e) (matchKey sc i)))
      else GetState (en_stateStore e) k)"
  by (simp add: handleMatch_store dstore.get_set)

lemma handleMatch_wf: "store_wf (en_stateStore e) \<Longrightarrow> store_wf (en_stateStore (handleMatch loc t e sc i))"
  by (simp add: handleMatch_store dstore.inv_set)

lemmas handleMatch_simps = handleMatch_frame handleMatch_get handleMatch_wf handleMatch_out

text \<open>Once the threshold is met, further matches only move \<open>LastDetected\<close>.\<close>

lemma nextState_met:
  "ds_ThresholdMet st \<Longrightarrow> nextState sc i (Some st) = st\<lparr>ds_LastDetected := di_Timestamp i\<rparr>"
  by (simp add: nextState_def emits_def countedState_def)

lemma emits_met [simp]: "ds_ThresholdMet st \<Longrightarrow> \<not> emits sc i (Some st)"
  by (simp add: emits_def)

lemma nextState_isMet: "ds_ThresholdMet (nextState sc i old) \<longleftrightarrow> isMet old \<or> emits sc i old"
  by (simp add: nextState_def)

lemma nextState_entry:
  assumes "\<And>st. old = Some st \<Longrightarrow> matchKey sc i = StateKey (ds_ScenarioID st) (ds_Resource st)
       \<and> ds_DetectionCount st \<ge> 1 \<and> ds_FirstDetected st = ds_WindowStart st"
  shows "matchKey sc i = StateKey (ds_ScenarioID (nextState sc i old)) (ds_Resource (nextState sc i old))
    \<and> ds_DetectionCount (nextState sc i old) \<ge> 1
    \<and> ds_FirstDetected (nextState sc i old) = ds_WindowStart (nextState sc i old)"
proof (cases old)
  case None
  then show ?thesis by (simp add: nextState_def countedState_def Let_def)
next
  case (Some st)
  with assms [OF Some] show ?thesis by (simp add: nextState_def countedState_def Let_def)
qed

section \<open>What an evaluation decides\<close>

text \<open>
  The decision of \<open>evaluateScenario\<close> without a program cache: the pre-filters on source, kind
  and API version, then the value of the expression.
\<close>

definition prefilter :: "LoadedScenario \<Rightarrow> DetectionInput \<Rightarrow> bool" where
  "prefilter sc input \<longleftrightarrow>
     (ls_Source sc = '''' \<or> ls_Source sc = di_Source input)
     \<and> (\<forall>f. ls_Resource sc = Some f \<longrightarrow>
          (rf_Kind f = '''' \<or> rf_Kind f = rr_Kind (di_Resource input))
          \<and> (rf_APIVersion f = '''' \<or> rf_APIVersion f = rr_APIVersion (di_Resource input)))"

definition matches :: "('a, 'p) celenv \<Rightarrow> LoadedScenario \<Rightarrow> DetectionInput \<Rightarrow> bool" where
  "matches env sc input \<longleftrightarrow>
     prefilter sc input \<and> ls_Expression sc \<noteq> ''''
     \<and> evaluateRef env (ls_Expression sc) (di_Data input) (resourceMap (di_Resource input))
         (labelsMap (di_Labels input)) = Inr True"

definition en_env :: "('a, 'p, 'w) engineImpl \<Rightarrow> ('a, 'p) celenv" where
  "en_env e = cel_env (the (en_celEvaluator e))"

definition cel_ok :: "('a, 'p, 'w) engineImpl \<Rightarrow> bool" where
  "cel_ok e \<longleftrightarrow> (\<exists>ev. en_celEvaluator e = Some ev \<and> cel_coherent ev)"

lemma evaluateScenario_frame [simp]:
  "en_config (snd (evaluateScenario e sc i)) = en_config e"
  "en_outputCh (snd (evaluateScenario e sc i)) = en_outputCh e"
  "en_scenarios (snd (evaluateScenario e sc i)) = en_scenarios e"
  "en_scenarioLoader (snd (evaluateScenario e sc i)) = en_scenarioLoader e"
  "en_stateStore (snd (evaluateScenario e sc i)) = en_stateStore e"
  by (simp_all add: evaluateScenario_def split: option.splits prod.splits sum.splits)

lemma evaluateScenario_prefilter:
  "\<not> (prefilter sc i \<and> ls_Expression sc \<noteq> '''') \<Longrightarrow> evaluateScenario e sc i = (Inr False, e)"
  by (auto simp: evaluateScenario_def prefilter_def split: option.splits)

lemma evaluateScenario_eval:
  assumes "prefilter sc i" "ls_Expression sc \<noteq> ''''" "en_celEvaluator e = Some ev"
  shows "evaluateScenario e sc i =
    (let r = Evaluate ev (ls_Expression sc) (di_Data i) (resourceMap (di_Resource i)) (labelsMap (di_Labels i))
     in (map_sum CELFailed id (fst r), e\<lparr>en_celEvaluator := Some (snd r)\<rparr>))"
  using assms
  by (auto simp: evaluateScenario_def prefilter_def Let_def simp del: Evaluate_snd
      split: option.splits prod.splits sum.splits)

lemma evaluateScenario_matches:
  assumes "cel_ok e"
  shows "fst (evaluateScenario e sc i) = Inr True \<longleftrightarrow> matches (en_env e) sc i"
proof (cases "prefilter sc i \<and> ls_Expression sc \<noteq> ''''")
  case True
  with assms show ?thesis
    by (auto simp: cel_ok_def evaluateScenario_eval Let_def Evaluate_fst matches_def en_env_def
        map_sum_def split: sum.splits)
next
  case False
  then show ?thesis by (auto simp: evaluateScenario_prefilter matches_def)
qed

lemma evaluateScenario_cel:
  assumes "cel_ok e"
  shows "cel_ok (snd (evaluateScenario e sc i)) \<and> en_env (snd (evaluateScenario e sc i)) = en_env e"
proof (cases "prefilter sc i \<and> ls_Expression sc \<noteq> ''''")
  case True
  with assms show ?thesis
    by (auto simp: cel_ok_def evaluateScenario_eval Let_def en_env_def)
next
  case False
  with assms show ?thesis by (auto simp: evaluateScenario_prefilter)
qed

lemma handleMatch_cel [simp]:
  "cel_ok (handleMatch loc t e sc i) = cel_ok e" "en_env (handleMatch loc t e sc i) = en_env e"
  by (simp_all add: cel_ok_def en_env_def)

section \<open>One scenario of the loop\<close>

text \<open>One iteration of the loop of \<open>processInput\<close>.\<close>

definition scenarioStep ::
  "location \<Rightarrow> time \<Rightarrow> DetectionInput \<Rightarrow> LoadedScenario \<Rightarrow> ('a, 'p, 'w) engineImpl \<Rightarrow> ('a, 'p, 'w) engineImpl" where
  "scenarioStep loc t input sc e =
     (let e' = snd (evaluateScenario e sc input) in
      if fst (evaluateScenario e sc input) = Inr True then handleMatch loc t e' sc input else e')"

lemma processScenarios_step:
  "processScenarios loc clk i n (sc # rest) e =
     processScenarios loc clk i (Suc n) rest (scenarioStep loc (clk n) i sc e)"
  by (auto simp: scenarioStep_def split: prod.splits sum.splits)

lemma scenarioStep_frame [simp]:
  "en_config (scenarioStep loc t i sc e) = en_config e"
  "en_scenarios (scenarioStep loc t i sc e) = en_scenarios e"
  "en_scenarioLoader (scenarioStep loc t i sc e) = en_scenarioLoader e"
  "st_stateExpiration (en_stateStore (scenarioStep loc t i sc e)) = st_stateExpiration (en_stateStore e)"
  by (simp_all add: scenarioStep_def Let_def)

lemma scenarioStep_cel:
  "cel_ok e \<Longrightarrow> cel_ok (scenarioStep loc t i sc e)"
  "cel_ok e \<Longrightarrow> en_env (scenarioStep loc t i sc e) = en_env e"
  using evaluateScenario_cel [of e sc i] by (auto simp: scenarioStep_def Let_def)

lemma scenarioStep_wf: "store_wf (en_stateStore e) \<Longrightarrow> store_wf (en_stateStore (scenarioStep loc t i sc e))"
  by (simp add: scenarioStep_def handleMatch_wf Let_def)

lemma scenarioStep_get:
  assumes "cel_ok e" "store_wf (en_stateStore e)"
  shows "GetState (en_stateStore (scenarioStep loc t i sc e)) k =
    (if k = matchKey sc i \<and> matches (en_env e) sc i
     then Some (nextState sc i (GetState (en_stateStore e) (matchKey sc i)))
     else GetState (en_stateStore e) k)"
  using evaluateScenario_matches [OF assms(1), of sc i] assms(2)
  by (auto simp: scenarioStep_def handleMatch_get Let_def)

lemma scenarioStep_out:
  assumes "cel_ok e"
  shows "en_outputCh (scenarioStep loc t i sc e) =
    (let old = GetState (en_stateStore e) (matchKey sc i) in
     if matches (en_env e) sc i \<and> emits sc i old
     then chan_trySend (en_outputCh e) (mkResult loc t sc i (nextState sc i old))
     else en_outputCh e)"
  using evaluateScenario_matches [OF assms, of sc i]
  by (auto simp: scenarioStep_def handleMatch_out Let_def)

text \<open>A predicate kept by every iteration is kept by the loop.\<close>

lemma processScenarios_inv:
  assumes "P e" and "\<And>e t sc. P e \<Longrightarrow> sc \<in> set scs \<Longrightarrow> P (scenarioStep loc t i sc e)"
  shows "P (processScenarios loc clk i n scs e)"
  using assms
proof (induction scs arbitrary: n e)
  case Nil
  then show ?case by simp
next
  case (Cons sc scs)
  then show ?case
    unfolding processScenarios_step by (metis list.set_intros)
qed

lemma processInput_inv:
  assumes "P e" and "\<And>e t sc. P e \<Longrightarrow> P (scenarioStep loc t i sc e)"
  shows "P (processInput loc clk e i)"
  unfolding processInput_def using assms by (rule processScenarios_inv)

lemma StateKey_same_resource [simp]: "StateKey s r = StateKey s' r \<longleftrightarrow> s = s'"
  by (simp add: StateKey_def)

text \<open>
  The state of a key after the loop, when the scenarios have different identifiers: the one
  scenario of that key decides it.
\<close>

lemma processScenarios_get:
  assumes "cel_ok e" "store_wf (en_stateStore e)" "distinct (map ls_ID scs)"
  shows "GetState (en_stateStore (processScenarios loc clk i n scs e)) k =
    (case find (\<lambda>sc. matchKey sc i = k \<and> matches (en_env e) sc i) scs of
       None \<Rightarrow> GetState (en_stateStore e) k
     | Some sc \<Rightarrow> Some (nextState sc i (GetState (en_stateStore e) k)))"
  using assms
proof (induction scs arbitrary: n e)
  case Nil
  then show ?case by simp
next
  case (Cons sc scs)
  let ?e = "scenarioStep loc (clk n) i sc e"
  have IH: "GetState (en_stateStore (processScenarios loc clk i n (sc # scs) e)) k =
    (case find (\<lambda>sc. matchKey sc i = k \<and> matches (en_env e) sc i) scs of
       None \<Rightarrow> GetState (en_stateStore ?e) k
     | Some sc \<Rightarrow> Some (nextState sc i (GetState (en_stateStore ?e) k)))"
    unfolding processScenarios_step
    using Cons by (simp add: scenarioStep_cel scenarioStep_wf)
  have none: "find (\<lambda>sc. matchKey sc i = k \<and> matches (en_env e) sc i) scs = None"
    if "matchKey sc i = k"
    using that Cons.prems(3) by (auto simp: find_None_iff image_iff)
  show ?case
    unfolding IH using Cons.prems none by (auto simp: scenarioStep_get split: option.splits)
qed

section \<open>The invariant of the engine\<close>

definition registered_ok :: "('a, 'p, 'w) engineImpl \<Rightarrow> bool" where
  "registered_ok e \<longleftrightarrow> map_wf (en_scenarios e)
     \<and> (\<forall>(id, sc) \<in> set (en_scenarios e). ls_ID sc = id
          \<and> (ls_Expression sc \<noteq> '''' \<longrightarrow> (\<exists>p. compileRef (en_env e) (ls_Expression sc) = Inr p)))"

definition entry_ok :: "string \<Rightarrow> DetectionState \<Rightarrow> bool" where
  "entry_ok k st \<longleftrightarrow> k = StateKey (ds_ScenarioID st) (ds_Resource st)
     \<and> ds_DetectionCount st \<ge> 1 \<and> ds_FirstDetected st = ds_WindowStart st"

definition entries_ok :: "inMemoryStateStore \<Rightarrow> bool" where
  "entries_ok s \<longleftrightarrow> store_wf s \<and> (\<forall>k st. GetState s k = Some st \<longrightarrow> entry_ok k st)"

definition engine_inv :: "('a, 'p, 'w) engineImpl \<Rightarrow> bool" where
  "engine_inv e \<longleftrightarrow> cel_ok e \<and> registered_ok e \<and> entries_ok (en_stateStore e) \<and> chan_wf (en_outputCh e)"

lemma entries_ok_set: "entries_ok s \<Longrightarrow> entry_ok k v \<Longrightarrow> entries_ok (SetState s k v)"
  by (auto simp: entries_ok_def dstore.get_set dstore.inv_set)

lemma entries_ok_cleanup: "entries_ok s \<Longrightarrow> entries_ok (fst (Cleanup now s))"
  by (auto simp: entries_ok_def dstore.inv_cleanup dstore.cleanup_keeps)

lemma handleMatch_entries:
  "entries_ok (en_stateStore e) \<Longrightarrow> entries_ok (en_stateStore (handleMatch loc t e sc i))"
  unfolding handleMatch_store
  by (rule entries_ok_set, assumption)
    (auto simp: entry_ok_def entries_ok_def intro!: nextState_entry [simplified])

lemma scenarioStep_inv:
  assumes "engine_inv e"
  shows "engine_inv (scenarioStep loc t i sc e)"
proof -
  have "cel_ok e" "entries_ok (en_stateStore e)" "chan_wf (en_outputCh e)" "registered_ok e"
    using assms by (auto simp: engine_inv_def)
  then show ?thesis
    unfolding engine_inv_def
    by (auto simp: registered_ok_def scenarioStep_cel scenarioStep_out Let_def trySend.send_wf)
      (auto simp: scenarioStep_def Let_def handleMatch_entries)
qed

lemma processInput_inv': "engine_inv e \<Longrightarrow> engine_inv (processInput loc clk e i)"
  by (rule processInput_inv [where P = engine_inv]) (auto intro: scenarioStep_inv)

text \<open>Registration keeps the invariant, whether it succeeds or not.\<close>

lemma RegisterScenario_spec:
  assumes "cel_ok e"
  shows "snd (RegisterScenario e sc) =
    e\<lparr>en_celEvaluator := (if ls_Expression sc = '''' then en_celEvaluator e
         else map_option (\<lambda>ev. snd (Compile ev (ls_Expression sc))) (en_celEvaluator e)),
      en_scenarios := (if fst (RegisterScenario e sc) = None then mput (ls_ID sc) sc (en_scenarios e)
         else en_scenarios e)\<rparr>"
  using assms by (auto simp: RegisterScenario_def cel_ok_def split: prod.splits sum.splits)

definition registrable :: "('a, 'p) celenv \<Rightarrow> LoadedScenario \<Rightarrow> bool" where
  "registrable env sc \<longleftrightarrow> ls_Expression sc = '''' \<or> (\<exists>p. compileRef env (ls_Expression sc) = Inr p)"

lemma RegisterScenario_ok:
  assumes "cel_ok e"
  shows "fst (RegisterScenario e sc) = None \<longleftrightarrow> registrable (en_env e) sc"
proof -
  obtain ev where ev: "en_celEvaluator e = Some ev" "cel_coherent ev"
    using assms by (auto simp: cel_ok_def)
  then show ?thesis
    using Compile_fst [of ev "ls_Expression sc"]
    by (cases "compileRef (cel_env ev) (ls_Expression sc)") (auto simp: RegisterScenario_def registrable_def en_env_def split: prod.splits sum.splits)
qed

lemma RegisterScenario_cel:
  assumes "cel_ok e"
  shows "cel_ok (snd (RegisterScenario e sc)) \<and> en_env (snd (RegisterScenario e sc)) = en_env e"
  using assms by (auto simp: RegisterScenario_spec cel_ok_def en_env_def)

lemma RegisterScenario_inv:
  assumes "engine_inv e"
  shows "engine_inv (snd (RegisterScenario e sc))"
proof -
  have c: "cel_ok e" using assms by (simp add: engine_inv_def)
  have "registered_ok (snd (RegisterScenario e sc))"
    using assms RegisterScenario_cel [OF c, of sc] RegisterScenario_ok [OF c, of sc]
    unfolding registered_ok_def
    by (auto simp: RegisterScenario_spec [OF c] engine_inv_def registered_ok_def set_mput registrable_def
        split: if_splits)
  with assms RegisterScenario_cel [OF c, of sc] show ?thesis
    by (auto simp: engine_inv_def RegisterScenario_spec [OF c])
qed

lemma registerAll_inv: "engine_inv e \<Longrightarrow> engine_inv (fst (registerAll e scs n))"
proof (induction scs arbitrary: e n)
  case Nil
  then show ?case by simp
next
  case (Cons sc scs)
  with RegisterScenario_inv [of e sc] show ?case
    by (auto split: prod.splits option.splits)
qed

lemma clear_inv: "engine_inv e \<Longrightarrow> engine_inv (e\<lparr>en_scenarios := []\<rparr>)"
  by (simp add: engine_inv_def cel_ok_def registered_ok_def)

lemma loadScenarios_inv: "engine_inv e \<Longrightarrow> engine_inv (snd (loadScenarios w e c))"
  by (auto simp: loadScenarios_def Let_def clear_inv registerAll_inv split: option.splits sum.splits)

lemma newEngineImpl_inv:
  assumes "newEngineImpl newEnv cfg ch loader = Inr e" "chan_wf ch"
  shows "engine_inv e"
proof -
  obtain ev where "NewCELEvaluator newEnv = Inr ev" "en_celEvaluator e = Some ev" "en_outputCh e = ch"
    "en_scenarios e = []" "st_states (en_stateStore e) = []"
    using assms(1) by (auto simp: newEngineImpl_def newInMemoryStateStore_def split: sum.splits)
  with NewCELEvaluator_coherent [of newEnv ev] assms(2) show ?thesis
    by (auto simp: engine_inv_def cel_ok_def registered_ok_def entries_ok_def store_wf_def GetState_def)
qed

lemma engineStep_inv: "engine_inv (fst s) \<Longrightarrow> engine_inv (fst (engineStep loc s ev))"
proof (cases s)
  case (Pair e taken)
  moreover assume "engine_inv (fst s)"
  ultimately have e: "engine_inv e" by simp
  show ?thesis
  proof (cases ev)
    case Take
    with e Pair show ?thesis
      by (auto simp: chan_recv_def engine_inv_def cel_ok_def registered_ok_def en_env_def chan_wf_def
          split: list.splits)
  next
    case (CleanupTick now)
    with e Pair show ?thesis
      by (auto simp: cleanupTick_def engine_inv_def cel_ok_def registered_ok_def en_env_def entries_ok_cleanup)
  qed (use e Pair in \<open>simp_all add: processInput_inv' ReloadScenarios_def loadScenarios_inv\<close>)
qed

lemma engineRun_inv: "engine_inv (fst s) \<Longrightarrow> engine_inv (fst (engineRun loc s evs))"
  unfolding engineRun_def by (induction evs arbitrary: s) (simp_all add: engineStep_inv)

section \<open>At most one result for each threshold state\<close>

definition forKey :: "string \<Rightarrow> DetectionResult \<Rightarrow> bool" where
  "forKey k r \<longleftrightarrow> StateKey (dr_ScenarioID r) (dr_Resource r) = k"

text \<open>
  The results for a key that were taken or are still in the channel, plus one when the key may
  still emit. No operation but cleanup increases this number.
\<close>

definition credit :: "string \<Rightarrow> ('a, 'p, 'w) engineImpl \<times> DetectionResult list \<Rightarrow> nat" where
  "credit k s = length (filter (forKey k) (snd s @ ch_buf (en_outputCh (fst s))))
     + (if isMet (GetState (en_stateStore (fst s)) k) then 0 else 1)"

lemma mkResult_forKey [simp]: "forKey k (mkResult loc t sc i st) \<longleftrightarrow> matchKey sc i = k"
  by (simp add: forKey_def mkResult_def)

lemma trySend_count:
  "length (filter P (ch_buf (chan_trySend c x))) \<le> length (filter P (ch_buf c)) + (if P x then 1 else 0)"
  by (simp add: chan_trySend_def)

lemma handleMatch_credit:
  assumes "store_wf (en_stateStore e)"
  shows "credit k (handleMatch loc t e sc i, taken) \<le> credit k (e, taken)"
proof (cases "matchKey sc i = k")
  case True
  then show ?thesis
    using assms trySend_count [of "forKey k" "en_outputCh e"]
    by (auto simp: credit_def handleMatch_simps nextState_isMet emits_def Let_def
        intro: order_trans [OF trySend_count])
next
  case False
  with assms show ?thesis
    by (auto simp: credit_def handleMatch_simps Let_def trySend.send_filter)
qed

lemma scenarioStep_credit:
  "store_wf (en_stateStore e) \<Longrightarrow> credit k (scenarioStep loc t i sc e, taken) \<le> credit k (e, taken)"
  using handleMatch_credit [of "snd (evaluateScenario e sc i)" k loc t sc i taken]
  by (auto simp: scenarioStep_def Let_def credit_def)

lemma processInput_credit:
  assumes "store_wf (en_stateStore e)"
  shows "credit k (processInput loc clk e i, taken) \<le> credit k (e, taken)"
proof -
  let ?P = "\<lambda>e'. store_wf (en_stateStore e') \<and> credit k (e', taken) \<le> credit k (e, taken)"
  have "?P (processInput loc clk e i)"
    by (rule processInput_inv [where P = ?P])
      (use assms in \<open>auto intro: scenarioStep_wf order_trans [OF scenarioStep_credit]\<close>)
  then show ?thesis by simp
qed

lemma registerAll_store: "cel_ok e \<Longrightarrow> en_stateStore (fst (registerAll e scs n)) = en_stateStore e
    \<and> en_outputCh (fst (registerAll e scs n)) = en_outputCh e"
proof (induction scs arbitrary: e n)
  case Nil
  then show ?case by simp
next
  case (Cons sc scs)
  then have "cel_ok (snd (RegisterScenario e sc))" by (simp add: RegisterScenario_cel)
  moreover have "en_stateStore (snd (RegisterScenario e sc)) = en_stateStore e"
    "en_outputCh (snd (RegisterScenario e sc)) = en_outputCh e"
    using Cons.prems by (auto simp: RegisterScenario_spec)
  ultimately show ?case using Cons.IH by (auto split: prod.splits option.splits)
qed

lemma loadScenarios_store:
  assumes "cel_ok e"
  shows "en_stateStore (snd (loadScenarios w e c)) = en_stateStore e"
    "en_outputCh (snd (loadScenarios w e c)) = en_outputCh e"
proof -
  have "cel_ok (e\<lparr>en_scenarios := []\<rparr>)" using assms by (simp add: cel_ok_def)
  then show "en_stateStore (snd (loadScenarios w e c)) = en_stateStore e"
    "en_outputCh (snd (loadScenarios w e c)) = en_outputCh e"
    using assms
    by (simp_all add: loadScenarios_def Let_def registerAll_store split: option.splits sum.splits)
qed

lemma cleanupTick_credit: "credit k (cleanupTick now e, taken) \<le> Suc (credit k (e, taken))"
  by (simp add: credit_def cleanupTick_def)

lemma Take_credit: "credit k (engineStep loc (e, taken) Take) = credit k (e, taken)"
  by (simp add: credit_def chan_recv_def split: list.splits)

definition cleanups :: "'w engineEvent list \<Rightarrow> nat" where
  "cleanups evs = length (filter (\<lambda>ev. \<exists>now. ev = CleanupTick now) evs)"

lemma engineStep_credit:
  assumes "engine_inv (fst s)"
  shows "credit k (engineStep loc s ev) \<le> credit k s + cleanups [ev]"
proof (cases s)
  case (Pair e taken)
  with assms have inv: "cel_ok e" "store_wf (en_stateStore e)"
    by (auto simp: engine_inv_def entries_ok_def)
  show ?thesis
  proof (cases ev)
    case (Input i clk)
    with inv Pair show ?thesis by (simp add: processInput_credit cleanups_def)
  next
    case (CleanupTick now)
    with Pair show ?thesis by (simp add: cleanupTick_credit cleanups_def)
  next
    case (Reload w)
    with inv Pair show ?thesis
      by (simp add: credit_def ReloadScenarios_def loadScenarios_store cleanups_def)
  next
    case Take
    with Pair show ?thesis using Take_credit [of k loc e taken] by (simp add: cleanups_def)
  qed
qed

lemma engineRun_credit:
  "engine_inv (fst s) \<Longrightarrow> credit k (engineRun loc s evs) \<le> credit k s + cleanups evs"
  unfolding engineRun_def
proof (induction evs arbitrary: s)
  case Nil
  then show ?case by simp
next
  case (Cons ev evs)
  have "credit k (foldl (engineStep loc) s (ev # evs)) \<le> credit k (engineStep loc s ev) + cleanups evs"
    using Cons engineStep_inv by fastforce
  also have "\<dots> \<le> credit k s + cleanups [ev] + cleanups evs"
    using engineStep_credit [OF Cons.prems] by simp
  finally show ?case by (simp add: cleanups_def split: if_splits)
qed

section \<open>Counting inside a window\<close>

text \<open>A sequence of matches of one scenario; each element is a clock reading and an input.\<close>

definition matchAll ::
  "location \<Rightarrow> LoadedScenario \<Rightarrow> ('a, 'p, 'w) engineImpl \<Rightarrow> (time \<times> DetectionInput) list \<Rightarrow> ('a, 'p, 'w) engineImpl" where
  "matchAll loc sc e xs = foldl (\<lambda>e (t, i). handleMatch loc t e sc i) e xs"

lemma nth_int_Cons: "1 < c \<Longrightarrow> (x # xs) ! nat (c - 1) = xs ! nat (c - 1 - 1)" for c :: int
proof -
  assume "1 < c"
  then have "nat (c - 1) = Suc (nat (c - 1 - 1))" by simp
  then show ?thesis by (simp only: nth_Cons_Suc)
qed

definition inWindow :: "ThresholdConfig \<Rightarrow> time \<Rightarrow> DetectionInput \<Rightarrow> bool" where
  "inWindow th t0 i \<longleftrightarrow> time_Sub (di_Timestamp i) t0 \<le> th_Window th"

lemma matchAll_met:
  assumes "store_wf (en_stateStore e)" "\<forall>(t, i) \<in> set xs. matchKey sc i = k"
    and "GetState (en_stateStore e) k = Some st" "ds_ThresholdMet st"
  shows "en_outputCh (matchAll loc sc e xs) = en_outputCh e"
  using assms
proof (induction xs arbitrary: e st)
  case Nil
  then show ?case by (simp add: matchAll_def)
next
  case (Cons x xs)
  obtain t i where x: "x = (t, i)" by (cases x)
  let ?e = "handleMatch loc t e sc i"
  have "en_outputCh (matchAll loc sc ?e xs) = en_outputCh ?e"
    using Cons.prems
    by (intro Cons.IH [where st = "nextState sc i (Some st)"])
      (auto simp: x handleMatch_wf handleMatch_get nextState_met)
  also have "\<dots> = en_outputCh e"
    using Cons.prems by (auto simp: x handleMatch_out)
  finally show ?case by (simp add: matchAll_def x)
qed

text \<open>
  From a state with count \<open>m\<close> below the threshold, the match that reaches it is the one that
  emits, with the count of the threshold.
\<close>

lemma matchAll_window:
  assumes "store_wf (en_stateStore e)" "ls_Threshold sc = Some th"
    and "\<forall>(t, i) \<in> set xs. matchKey sc i = k \<and> inWindow th t0 i"
    and "GetState (en_stateStore e) k = Some st" "\<not> ds_ThresholdMet st"
    and "ds_WindowStart st = t0" "ds_FirstDetected st = t0" "ds_DetectionCount st = m" "m < th_Count th"
  shows "\<exists>rs. en_outputCh (matchAll loc sc e xs) = foldl chan_trySend (en_outputCh e) rs
    \<and> map (\<lambda>r. (dr_FirstDetected r, dr_LastDetected r, dr_DetectionCount r, forKey k r)) rs =
        (if m + int (length xs) < th_Count th then []
         else [(t0, di_Timestamp (snd (xs ! nat (th_Count th - m - 1))), th_Count th, True)])"
  using assms
proof (induction xs arbitrary: e st m)
  case Nil
  then show ?case by (simp add: matchAll_def)
next
  case (Cons x xs)
  obtain t i where x: "x = (t, i)" by (cases x)
  let ?e = "handleMatch loc t e sc i"
  let ?st = "nextState sc i (Some st)"
  have key: "matchKey sc i = k" and win: "\<not> windowExpired sc (di_Timestamp i) st"
    using Cons.prems by (auto simp: x windowExpired_def inWindow_def)
  have e: "store_wf (en_stateStore ?e)" "GetState (en_stateStore ?e) k = Some ?st"
    using Cons.prems key by (auto simp: handleMatch_wf handleMatch_get)
  have st: "ds_WindowStart ?st = t0" "ds_FirstDetected ?st = t0" "ds_DetectionCount ?st = m + 1"
    "ds_LastDetected ?st = di_Timestamp i"
    using Cons.prems win by (simp_all add: nextState_def countedState_def Let_def)
  have emit: "emits sc i (Some st) \<longleftrightarrow> m + 1 \<ge> th_Count th"
    using Cons.prems win by (simp add: emits_def thresholdReached_def countedState_def Let_def)
  have split: "matchAll loc sc e (x # xs) = matchAll loc sc ?e xs" by (simp add: matchAll_def x)
  show ?case
  proof (cases "m + 1 \<ge> th_Count th")
    case True
    then have "th_Count th = m + 1" using Cons.prems(9) by simp
    moreover have "en_outputCh (matchAll loc sc ?e xs) = en_outputCh ?e"
      using Cons.prems e emit True
      by (intro matchAll_met [where k = k and st = ?st]) (auto simp: nextState_isMet)
    moreover have "en_outputCh ?e = chan_trySend (en_outputCh e) (mkResult loc t sc i ?st)"
      using Cons.prems key emit True by (simp add: handleMatch_out)
    ultimately show ?thesis
      unfolding split using st key
      by (intro exI [of _ "[mkResult loc t sc i ?st]"]) (simp add: x mkResult_def forKey_def)
  next
    case False
    have "en_outputCh ?e = en_outputCh e"
      using Cons.prems key emit False by (simp add: handleMatch_out)
    moreover have "\<not> ds_ThresholdMet ?st"
      using Cons.prems emit False by (simp add: nextState_isMet)
    moreover have "nat (th_Count th - m - 1) = Suc (nat (th_Count th - (m + 1) - 1))"
      using False by simp
    ultimately show ?thesis
      unfolding split using Cons.IH [of ?e ?st "m + 1"] Cons.prems e st False
      by (auto simp: algebra_simps)
  qed
qed

section \<open>Properties\<close>

lemma registerAll_get:
  assumes "cel_ok e"
  shows "mget (en_scenarios (fst (registerAll e scs n))) sid =
    (case find (\<lambda>sc. ls_ID sc = sid \<and> registrable (en_env e) sc) (rev scs) of
       None \<Rightarrow> mget (en_scenarios e) sid | Some sc \<Rightarrow> Some sc)"
  using assms
proof (induction scs arbitrary: e n)
  case Nil
  then show ?case by simp
next
  case (Cons sc scs)
  let ?e = "snd (RegisterScenario e sc)"
  have "fst (registerAll e (sc # scs) n) = fst (registerAll ?e scs (if fst (RegisterScenario e sc) = None then n + 1 else n))"
    by (simp split: prod.splits option.splits)
  moreover have "mget (en_scenarios ?e) sid = (if ls_ID sc = sid \<and> registrable (en_env e) sc then Some sc
      else mget (en_scenarios e) sid)"
    using Cons.prems RegisterScenario_ok [OF Cons.prems, of sc] by (auto simp: RegisterScenario_spec)
  ultimately show ?case
    using Cons.IH [of ?e] Cons.prems RegisterScenario_cel [OF Cons.prems, of sc]
    by (auto simp: find_append split: option.splits)
qed

text \<open>A small engine for the examples: one scenario with a threshold of two in a minute.\<close>

definition sample_resource :: ResourceReference where
  "sample_resource = \<lparr>rr_APIVersion = ''v1'', rr_Kind = ''Pod'', rr_Namespace = ''prod'',
     rr_Name = ''web'', rr_UID = ''u1''\<rparr>"

definition sample_scenario :: LoadedScenario where
  "sample_scenario = \<lparr>ls_ID = ''S1'', ls_Name = ''crash'', ls_Enabled = True, ls_Severity = ''high'',
     ls_Source = ''kubernetes'', ls_Expression = ''true'', ls_Resource = None,
     ls_Threshold = Some \<lparr>th_Count = 2, th_Window = Minute\<rparr>, ls_Actions = []\<rparr>"

definition sample_input :: "time \<Rightarrow> DetectionInput" where
  "sample_input t = \<lparr>di_ID = ''i'', di_Source = ''kubernetes'', di_Resource = sample_resource,
     di_Timestamp = t, di_Data = [], di_Labels = []\<rparr>"

definition sample_engine :: "(string, string, unit) engineImpl" where
  "sample_engine = \<lparr>en_config = Default, en_outputCh = chan_make 5, en_scenarios = [],
     en_scenarioLoader = Some (\<lambda>_. Inr [sample_scenario]),
     en_celEvaluator = Some \<lparr>cel_env = literal_env, cel_cache = []\<rparr>,
     en_stateStore = newInMemoryStateStore (10 * Minute), en_ready = False, en_stopped = False\<rparr>"

lemma sample_engine_new:
  "newEngineImpl (\<lambda>_. Inr literal_env) Default (chan_make 5) (Some (\<lambda>_. Inr [sample_scenario]))
     = Inr sample_engine"
  by (simp add: newEngineImpl_def NewCELEvaluator_def sample_engine_def Default_def)

lemma sample_engine_inv: "engine_inv sample_engine"
  by (rule newEngineImpl_inv [OF sample_engine_new]) (simp add: chan_wf_def chan_make_def)

lemma sample_matchAll:
  "GetState (en_stateStore sample_engine) (matchKey sample_scenario (sample_input t)) = None"
  "store_wf (en_stateStore sample_engine)"
  by (simp_all add: sample_engine_def GetState_def newInMemoryStateStore_def store_wf_def)

text \<open>
  C1. Matches of a scenario with a threshold of \<open>c\<close>, on one resource that has no state yet and
  all within the window that the first one opens: while there are fewer than \<open>c\<close> nothing is
  emitted, and from the \<open>c\<close>-th on exactly one result is in the channel. It carries the count
  \<open>c\<close>, the instant of the first match and the instant of the \<open>c\<close>-th.
\<close>

theorem threshold_exact:
  assumes "store_wf (en_stateStore e)" "ls_Threshold sc = Some th" "1 \<le> th_Count th"
    and "GetState (en_stateStore e) (StateKey (ls_ID sc) r) = None"
    and "xs = (t, first) # rest" "tFirst = di_Timestamp first"
    and "\<forall>(t, i) \<in> set xs. di_Resource i = r \<and> inWindow th tFirst i"
    and "length (ch_buf (en_outputCh e)) < ch_cap (en_outputCh e)"
  shows "\<exists>rs. ch_buf (en_outputCh (matchAll loc sc e xs)) = ch_buf (en_outputCh e) @ rs
    \<and> map (\<lambda>r'. (dr_FirstDetected r', dr_LastDetected r', dr_DetectionCount r', forKey (StateKey (ls_ID sc) r) r')) rs =
        (if int (length xs) < th_Count th then []
         else [(tFirst, di_Timestamp (snd (xs ! nat (th_Count th - 1))), th_Count th, True)])"
proof -
  let ?k = "StateKey (ls_ID sc) r" and ?e = "handleMatch loc t e sc first"
  let ?st = "nextState sc first None"
  have res: "di_Resource first = r" and rest: "\<forall>(t, i) \<in> set rest. matchKey sc i = ?k \<and> inWindow th tFirst i"
    using assms(5,7) by auto
  have e: "store_wf (en_stateStore ?e)" "GetState (en_stateStore ?e) ?k = Some ?st"
    using assms res by (auto simp: handleMatch_wf handleMatch_get)
  have st: "ds_WindowStart ?st = tFirst" "ds_FirstDetected ?st = tFirst" "ds_LastDetected ?st = tFirst" "ds_DetectionCount ?st = 1"
    using assms(6) by (simp_all add: nextState_def countedState_def Let_def)
  have emit: "emits sc first None \<longleftrightarrow> th_Count th \<le> 1"
    using assms(2) by (simp add: emits_def thresholdReached_def countedState_def Let_def)
  have run: "matchAll loc sc e xs = matchAll loc sc ?e rest" by (simp add: matchAll_def assms(5))
  show ?thesis
  proof (cases "th_Count th \<le> 1")
    case True
    then have c: "th_Count th = 1" using assms(3) by simp
    have "en_outputCh (matchAll loc sc ?e rest) = en_outputCh ?e"
      by (rule matchAll_met [where k = ?k and st = ?st])
        (use rest e emit True in \<open>auto simp: nextState_isMet\<close>)
    moreover have "ch_buf (en_outputCh ?e) = ch_buf (en_outputCh e) @ [mkResult loc t sc first ?st]"
       using assms(4,8) res emit True by (simp add: handleMatch_out trySend.send_room)
    ultimately show ?thesis
      unfolding run using c st res assms(5,6) by (simp add: mkResult_def forKey_def)
  next
    case False
    then have out: "en_outputCh ?e = en_outputCh e"
      using assms(4) res emit by (simp add: handleMatch_out)
    have nm: "\<not> ds_ThresholdMet ?st" and gt: "1 < th_Count th"
      using emit False by (simp_all add: nextState_isMet)
    have idx: "xs ! nat (th_Count th - 1) = rest ! nat (th_Count th - 1 - 1)"
      unfolding assms(5) using gt by (rule nth_int_Cons)
    obtain rs where rs: "en_outputCh (matchAll loc sc ?e rest) = foldl chan_trySend (en_outputCh ?e) rs"
      "map (\<lambda>r'. (dr_FirstDetected r', dr_LastDetected r', dr_DetectionCount r', forKey ?k r')) rs =
        (if 1 + int (length rest) < th_Count th then []
         else [(tFirst, di_Timestamp (snd (rest ! nat (th_Count th - 1 - 1))), th_Count th, True)])"
      using matchAll_window [OF e(1) assms(2) rest e(2) nm st(1,2,4) gt, of loc] by blast
    have "length rs \<le> 1" using arg_cong [OF rs(2), of length] by (simp split: if_splits)
    then have "ch_buf (foldl chan_trySend (en_outputCh e) rs) = ch_buf (en_outputCh e) @ rs"
      using assms(8) by (intro trySend.fold_send_room) simp
    then show ?thesis
      unfolding run rs(1) out using rs(2) assms(5) idx by auto
  qed
qed

theorem threshold_exact_witness:
  "\<exists>rs. ch_buf (en_outputCh (matchAll UTC sample_scenario sample_engine
        [(0, sample_input 10), (0, sample_input 20), (0, sample_input 30)])) = rs
    \<and> map (\<lambda>r. (dr_FirstDetected r, dr_LastDetected r, dr_DetectionCount r,
        forKey (StateKey ''S1'' sample_resource) r)) rs = [(10, 20, 2, True)]"
  using threshold_exact [where e = sample_engine and sc = sample_scenario and loc = UTC and t = 0
      and th = "\<lparr>th_Count = 2, th_Window = Minute\<rparr>" and r = sample_resource and tFirst = 10
      and xs = "[(0, sample_input 10), (0, sample_input 20), (0, sample_input 30)]"
      and first = "sample_input 10" and rest = "[(0, sample_input 20), (0, sample_input 30)]"]
    sample_matchAll(1) [of 10] sample_matchAll(2)
  by (simp add: sample_input_def sample_scenario_def inWindow_def time_Sub_def minDuration_def
      maxDuration_def go_simps sample_engine_def chan_make_def)

text \<open>
  From the start of a new engine, whatever inputs, reloads and receptions interleave, the
  results ever sent for one scenario and resource number at most one more than the ticks of
  the cleanup loop.
\<close>

theorem at_most_one_result:
  assumes "newEngineImpl newEnv cfg (chan_make n) loader = Inr e"
    and "engineRun loc (startRun w e, []) evs = (e', taken)"
  shows "length (filter (forKey k) (taken @ ch_buf (en_outputCh e'))) \<le> 1 + cleanups evs"
proof -
  have inv: "engine_inv e"
    by (rule newEngineImpl_inv [OF assms(1)]) (simp add: chan_wf_def chan_make_def)
  then have "engine_inv (snd (loadScenarios w e False))" by (rule loadScenarios_inv)
  then have "engine_inv (startRun w e)"
    by (simp add: startRun_def setReady_def LoadScenarios_def engine_inv_def cel_ok_def registered_ok_def en_env_def)
  then have "credit k (e', taken) \<le> credit k (startRun w e, []) + cleanups evs"
    using engineRun_credit [of "(startRun w e, [])" k loc evs] assms(2) by simp
  moreover have "ch_buf (en_outputCh (startRun w e)) = []"
    using inv loadScenarios_store(2) [of e w False] assms(1)
    by (auto simp: startRun_def setReady_def LoadScenarios_def newEngineImpl_def engine_inv_def chan_make_def
        split: sum.splits)
  ultimately show ?thesis by (simp add: credit_def split: if_splits)
qed

theorem at_most_one_result_witness:
  "\<exists>e' taken. engineRun UTC (startRun () sample_engine, [])
      [Input (sample_input 10) (\<lambda>_. 0), Input (sample_input 20) (\<lambda>_. 0), Take, Input (sample_input 30) (\<lambda>_. 0)]
      = (e', taken)
    \<and> length (filter (forKey (StateKey ''S1'' sample_resource)) (taken @ ch_buf (en_outputCh e'))) \<le> 1"
proof -
  obtain e' taken where run: "engineRun UTC (startRun () sample_engine, [])
      [Input (sample_input 10) (\<lambda>_. 0), Input (sample_input 20) (\<lambda>_. 0), Take, Input (sample_input 30) (\<lambda>_. 0)]
      = (e', taken)" by (meson surj_pair)
  then show ?thesis
    using at_most_one_result [OF sample_engine_new run, of "StateKey ''S1'' sample_resource"]
    by (auto simp: cleanups_def)
qed

text \<open>
  C9. Every state that a new engine reaches satisfies the invariant: the evaluator's cache
  agrees with the compiler, every registered scenario is stored under its own identifier and has
  an expression that compiles, every detection state is stored under the key of its scenario
  and resource with a positive count and a first detection at the start of its window, and the
  output channel never exceeds its capacity.
\<close>

theorem engine_invariant:
  assumes "newEngineImpl newEnv cfg (chan_make n) loader = Inr e"
  shows "engine_inv (fst (engineRun loc (startRun w e, []) evs))"
proof (rule engineRun_inv)
  have "engine_inv e"
    by (rule newEngineImpl_inv [OF assms]) (simp add: chan_wf_def chan_make_def)
  then have "engine_inv (snd (loadScenarios w e False))" by (rule loadScenarios_inv)
  then show "engine_inv (fst (startRun w e, []))"
    by (simp add: startRun_def setReady_def LoadScenarios_def engine_inv_def cel_ok_def registered_ok_def en_env_def)
qed

theorem engine_invariant_witness:
  "engine_inv (fst (engineRun UTC (startRun () sample_engine, [])
     [Input (sample_input 10) (\<lambda>_. 0), CleanupTick 50, Reload (), Take]))"
  by (rule engine_invariant [OF sample_engine_new])

text \<open>
  C8. Processing an input changes the state of a key exactly when the key belongs to an enabled
  scenario that matches the input on the input's resource, and then by one step of the
  threshold state machine; the order in which the map of scenarios is visited is irrelevant,
  every other key keeps its state, and scenarios whose evaluation fails count as not matching.
\<close>

theorem processInput_state:
  assumes "engine_inv e"
  shows "GetState (en_stateStore (processInput loc clk e i)) k =
    (case find (\<lambda>sc. matchKey sc i = k \<and> matches (en_env e) sc i) (filter ls_Enabled (map snd (en_scenarios e))) of
       None \<Rightarrow> GetState (en_stateStore e) k
     | Some sc \<Rightarrow> Some (nextState sc i (GetState (en_stateStore e) k)))"
proof -
  have ids: "map ls_ID (map snd (en_scenarios e)) = map fst (en_scenarios e)"
    using assms by (force simp: engine_inv_def registered_ok_def)
  have "distinct (map ls_ID (map snd (en_scenarios e)))"
    unfolding ids using assms by (simp add: engine_inv_def registered_ok_def map_wf_def)
  then have "distinct (map ls_ID (filter ls_Enabled (map snd (en_scenarios e))))"
    by (rule distinct_map_filter)
  with assms show ?thesis
    unfolding processInput_def
    by (intro processScenarios_get) (auto simp: engine_inv_def entries_ok_def)
qed

theorem processInput_state_witness:
  "GetState (en_stateStore (processInput UTC (\<lambda>_. 0) (startRun () sample_engine) (sample_input 10)))
     (StateKey ''S1'' sample_resource) = Some (nextState sample_scenario (sample_input 10) None)"
proof -
  have start: "startRun () sample_engine = sample_engine\<lparr>en_ready := True, en_scenarios := [(''S1'', sample_scenario)],
      en_celEvaluator := Some \<lparr>cel_env = literal_env, cel_cache = [(''true'', ''true'')]\<rparr>\<rparr>"
    by (simp add: startRun_def setReady_def LoadScenarios_def loadScenarios_def sample_engine_def
        RegisterScenario_def Compile_def literal_env_def sample_scenario_def BoolType_def)
  have inv: "engine_inv (startRun () sample_engine)"
    using loadScenarios_inv [OF sample_engine_inv, of "()" False]
    by (simp add: startRun_def setReady_def LoadScenarios_def engine_inv_def cel_ok_def registered_ok_def en_env_def)
  have "matches literal_env sample_scenario (sample_input 10)"
    by (simp add: matches_def prefilter_def sample_scenario_def sample_input_def evaluateRef_def
        compileRef_def Compile_def EvalProgram_def literal_env_def boolFromRef_def BoolType_def)
  with processInput_state [OF inv, of UTC "\<lambda>_. 0" "sample_input 10" "StateKey ''S1'' sample_resource"]
  show ?thesis
    by (simp add: start en_env_def sample_scenario_def sample_input_def)
      (simp add: sample_engine_def GetState_def newInMemoryStateStore_def)
qed

text \<open>
  A reload replaces the scenarios by those the loader returns: of the ones with a given
  identifier, the last one whose expression is empty or compiles is registered, and an
  identifier with none of them is not registered any more. Detection states survive the reload.
\<close>

theorem reload_last_wins:
  assumes "engine_inv e" "en_scenarioLoader e = Some load" "load w = Inr scs"
  shows "mget (en_scenarios (snd (ReloadScenarios w e))) sid =
      find (\<lambda>sc. ls_ID sc = sid \<and> registrable (en_env e) sc) (rev scs)
    \<and> en_stateStore (snd (ReloadScenarios w e)) = en_stateStore e"
proof -
  have c: "cel_ok e" "cel_ok (e\<lparr>en_scenarios := []\<rparr>)" "en_env (e\<lparr>en_scenarios := []\<rparr>) = en_env e"
    using assms(1) by (auto simp: engine_inv_def cel_ok_def en_env_def)
  then show ?thesis
    using assms(2,3) registerAll_get [OF c(2), of scs 0 sid] loadScenarios_store(1) [OF c(1), of w True]
    by (auto simp: ReloadScenarios_def loadScenarios_def split: option.splits)
qed

theorem reload_last_wins_witness:
  "mget (en_scenarios (snd (ReloadScenarios () sample_engine))) ''S1'' = Some sample_scenario"
  using reload_last_wins [OF sample_engine_inv, of "\<lambda>_. Inr [sample_scenario]" "()" "[sample_scenario]" "''S1''"]
  by (simp add: registrable_def compileRef_def Compile_def en_env_def literal_env_def BoolType_def
      sample_engine_def sample_scenario_def)

text \<open>
  Cleanup at an instant removes exactly the states whose last detection is older than the
  expiration, leaves the others unchanged and returns how many it removed.
\<close>

theorem cleanup_exact:
  assumes "store_wf s"
  shows "(GetState (fst (Cleanup now s)) k = Some st \<longleftrightarrow>
      GetState s k = Some st \<and> ds_LastDetected st \<ge> now - st_stateExpiration s)
    \<and> snd (Cleanup now s) = int (length (st_states s)) - int (length (st_states (fst (Cleanup now s))))"
proof (intro conjI)
  show "GetState (fst (Cleanup now s)) k = Some st \<longleftrightarrow>
      GetState s k = Some st \<and> ds_LastDetected st \<ge> now - st_stateExpiration s"
    using dstore.cleanup_keeps [OF assms] by (auto simp: expired_def time_defs)
  show "snd (Cleanup now s) = int (length (st_states s)) - int (length (st_states (fst (Cleanup now s))))"
    using assms sum_length_filter_compl [of "\<lambda>(k, st). expired s now k st" "st_states s"]
    by (simp add: Cleanup_count Cleanup_states store_wf_def rangeDelete_filter case_prod_unfold)
qed

theorem cleanup_exact_witness:
  "GetState (fst (Cleanup 1000 \<lparr>st_states = [(''k'', nextState sample_scenario (sample_input 10) None)],
      st_stateExpiration = 100\<rparr>)) ''k'' \<noteq> Some (nextState sample_scenario (sample_input 10) None)"
  using cleanup_exact [of "\<lparr>st_states = [(''k'', nextState sample_scenario (sample_input 10) None)],
      st_stateExpiration = 100\<rparr>" 1000 "''k''" "nextState sample_scenario (sample_input 10) None"]
  by (simp add: store_wf_def map_wf_def nextState_def countedState_def sample_input_def)

text \<open>
  A result that does not fit into the output channel is lost for good: the state is marked
  as met although nothing was sent, and no later match of the same key sends anything, until
  cleanup removes the state.
\<close>

theorem dropped_result_lost:
  assumes "store_wf (en_stateStore e)"
    and "emits sc i (GetState (en_stateStore e) (matchKey sc i))"
    and "ch_cap (en_outputCh e) \<le> length (ch_buf (en_outputCh e))"
    and "\<forall>(t, i') \<in> set xs. di_Resource i' = di_Resource i"
  shows "en_outputCh (handleMatch loc t e sc i) = en_outputCh e
    \<and> en_outputCh (matchAll loc sc ((handleMatch loc t e sc i)\<lparr>en_outputCh := ch\<rparr>) xs) = ch"
proof (intro conjI)
  show "en_outputCh (handleMatch loc t e sc i) = en_outputCh e"
    using assms(3) by (auto simp: handleMatch_out Let_def trySend.send_full)
  let ?e = "(handleMatch loc t e sc i)\<lparr>en_outputCh := ch\<rparr>"
  let ?st = "nextState sc i (GetState (en_stateStore e) (matchKey sc i))"
  have "en_outputCh (matchAll loc sc ?e xs) = en_outputCh ?e"
    by (rule matchAll_met [where k = "matchKey sc i" and st = ?st])
      (use assms in \<open>auto simp: handleMatch_wf handleMatch_get nextState_isMet\<close>)
  then show "en_outputCh (matchAll loc sc ?e xs) = ch" by simp
qed

theorem dropped_result_lost_witness:
  "en_outputCh (matchAll UTC (sample_scenario\<lparr>ls_Threshold := None\<rparr>)
     ((handleMatch UTC 0 (sample_engine\<lparr>en_outputCh := chan_make 0\<rparr>)
        (sample_scenario\<lparr>ls_Threshold := None\<rparr>) (sample_input 10))\<lparr>en_outputCh := chan_make 9\<rparr>)
     [(0, sample_input 20)]) = chan_make 9"
  by (rule conjunct2 [OF dropped_result_lost])
    (simp_all add: emits_def thresholdReached_def sample_input_def sample_engine_def GetState_def
      newInMemoryStateStore_def store_wf_def chan_make_def)

text \<open>
  A reload whose listing fails leaves the engine without scenarios and reports no error; until
  the next reload inputs change nothing.
\<close>

theorem failed_reload_silences:
  assumes "en_scenarioLoader e = Some load" "load w = Inl err"
  shows "fst (ReloadScenarios w e) = None"
    and "processInput loc clk (snd (ReloadScenarios w e)) input = snd (ReloadScenarios w e)"
    and "GetLoadedScenarios (snd (ReloadScenarios w e)) = 0"
  using assms by (simp_all add: ReloadScenarios_def loadScenarios_def processInput_def GetLoadedScenarios_def)

end
