(* ===== verification/Policy.thy ===== *)
theory Policy
  imports Types
begin

text \<open>
  The custom resource \<open>ClusterRemediationPolicy\<close> (\<open>api/v1alpha1/clusterremediationpolicy_types.go\<close>)
  and the policy manager of \<open>internal/policy/policy.go\<close>. \<open>metav1.LabelSelector\<close> is a type variable
  and \<open>metav1.LabelSelectorAsSelector\<close> an argument that yields the predicate
  \<open>selector.Matches\<close>. The locale \<open>policy_checker\<close> is the interface \<open>PolicyChecker\<close> of the
  remediation layer.
\<close>

section \<open>The custom resource\<close>

record 'l TargetSelector =
  ts_Namespaces :: "string list"
  ts_ExcludedNamespaces :: "string list"
  ts_LabelSelector :: "'l option"
  ts_ResourceTypes :: "string list"

record ScenarioLibraryReference =
  slr_Name :: string

record ScenarioConfig =
  scf_Name :: string
  scf_Enabled :: "bool option"
  scf_Parameters :: labels
  scf_Cooldown :: "duration option"
  scf_MaxRetries :: "int option"
  scf_AdditionalLabels :: labels

record SecretReference =
  sec_Name :: string
  sec_Namespace :: string
  sec_Key :: string

record NotificationChannel =
  nc_Name :: string
  nc_Type :: string
  nc_URL :: string
  nc_SecretRef :: "SecretReference option"

record GlobalEscalationConfig =
  gec_Enabled :: bool
  gec_DefaultChannels :: "string list"

record GlobalPolicyConfig =
  gpc_DryRun :: bool
  gpc_Paused :: bool
  gpc_DefaultCooldown :: "duration option"
  gpc_DefaultMaxRetries :: "int option"
  gpc_Escalation :: "GlobalEscalationConfig option"
  gpc_NotificationChannels :: "NotificationChannel list"

record 'l ClusterRemediationPolicySpec =
  crps_TargetSelector :: "'l TargetSelector"
  crps_ScenarioLibraryRef :: ScenarioLibraryReference
  crps_ScenarioConfigs :: "ScenarioConfig list"
  crps_GlobalConfig :: GlobalPolicyConfig

record 'l ClusterRemediationPolicy =
  crp_Name :: string
  crp_Spec :: "'l ClusterRemediationPolicySpec"

section \<open>The manager\<close>

record 'l managerImpl =
  pm_policies :: "'l ClusterRemediationPolicy list"

type_synonym 'l asSelector = "'l \<Rightarrow> string + (labels \<Rightarrow> bool)"

definition NewManager :: "'l managerImpl" where
  "NewManager = \<lparr>pm_policies = []\<rparr>"

definition LoadManager :: "'l managerImpl \<Rightarrow> 'l ClusterRemediationPolicy list \<Rightarrow> 'l managerImpl" where
  "LoadManager m policies = m\<lparr>pm_policies := policies\<rparr>"

fun stringInSlice :: "string \<Rightarrow> string list \<Rightarrow> bool" where
  "stringInSlice s [] = False"
| "stringInSlice s (v # list) = (if v = s then True else stringInSlice s list)"

definition matchesTarget ::
  "'l asSelector \<Rightarrow> 'l TargetSelector \<Rightarrow> ResourceReference \<Rightarrow> labels \<Rightarrow> bool" where
  "matchesTarget asSel ts resource resourceLabels =
     (if ts_Namespaces ts \<noteq> [] \<and> \<not> stringInSlice (rr_Namespace resource) (ts_Namespaces ts) then False
      else if ts_ExcludedNamespaces ts \<noteq> [] \<and> stringInSlice (rr_Namespace resource) (ts_ExcludedNamespaces ts)
        then False
      else if ts_ResourceTypes ts \<noteq> [] \<and> \<not> stringInSlice (rr_Kind resource) (ts_ResourceTypes ts) then False
      else case ts_LabelSelector ts of
        None \<Rightarrow> True
      | Some ls \<Rightarrow> (case asSel ls of Inl err \<Rightarrow> False | Inr matches \<Rightarrow> matches resourceLabels))"

abbreviation paused :: "'l ClusterRemediationPolicy \<Rightarrow> bool" where
  "paused p \<equiv> gpc_Paused (crps_GlobalConfig (crp_Spec p))"

fun anyMatches ::
  "'l asSelector \<Rightarrow> 'l ClusterRemediationPolicy list \<Rightarrow> ResourceReference \<Rightarrow> labels \<Rightarrow> bool" where
  "anyMatches asSel [] resource resourceLabels = False"
| "anyMatches asSel (p # rest) resource resourceLabels =
     (if paused p then anyMatches asSel rest resource resourceLabels
      else if matchesTarget asSel (crps_TargetSelector (crp_Spec p)) resource resourceLabels then True
      else anyMatches asSel rest resource resourceLabels)"

definition IsResourceCovered ::
  "'l asSelector \<Rightarrow> 'l managerImpl \<Rightarrow> ResourceReference \<Rightarrow> labels \<Rightarrow> bool" where
  "IsResourceCovered asSel m resource resourceLabels =
     (if pm_policies m = [] then True else anyMatches asSel (pm_policies m) resource resourceLabels)"

fun overrideIn :: "ScenarioConfig list \<Rightarrow> string \<Rightarrow> ScenarioConfig option" where
  "overrideIn [] scenarioName = None"
| "overrideIn (sc # rest) scenarioName =
     (if scf_Name sc = scenarioName then Some sc else overrideIn rest scenarioName)"

fun overrideAmong :: "'l ClusterRemediationPolicy list \<Rightarrow> string \<Rightarrow> ScenarioConfig option" where
  "overrideAmong [] scenarioName = None"
| "overrideAmong (p # rest) scenarioName =
     (if paused p then overrideAmong rest scenarioName
      else case overrideIn (crps_ScenarioConfigs (crp_Spec p)) scenarioName of
        Some sc \<Rightarrow> Some sc
      | None \<Rightarrow> overrideAmong rest scenarioName)"

definition GetScenarioOverride :: "'l managerImpl \<Rightarrow> string \<Rightarrow> ScenarioConfig option" where
  "GetScenarioOverride m scenarioName = overrideAmong (pm_policies m) scenarioName"

fun anyDryRun :: "'l ClusterRemediationPolicy list \<Rightarrow> bool" where
  "anyDryRun [] = False"
| "anyDryRun (p # rest) =
     (if \<not> paused p \<and> gpc_DryRun (crps_GlobalConfig (crp_Spec p)) then True else anyDryRun rest)"

definition IsDryRun :: "'l managerImpl \<Rightarrow> bool" where
  "IsDryRun m = anyDryRun (pm_policies m)"

fun allPaused :: "'l ClusterRemediationPolicy list \<Rightarrow> bool" where
  "allPaused [] = True"
| "allPaused (p # rest) = (if \<not> paused p then False else allPaused rest)"

definition IsPaused :: "'l managerImpl \<Rightarrow> bool" where
  "IsPaused m = (if pm_policies m = [] then False else allPaused (pm_policies m))"

definition PolicyCount :: "'l managerImpl \<Rightarrow> nat" where
  "PolicyCount m = length (pm_policies m)"

definition LoadPolicies ::
  "('w \<Rightarrow> 'e + 'l ClusterRemediationPolicy list) \<Rightarrow> 'w \<Rightarrow> 'l managerImpl \<Rightarrow> 'e option \<times> 'l managerImpl" where
  "LoadPolicies loadFn w mgr =
     (case loadFn w of Inl err \<Rightarrow> (Some err, mgr) | Inr policies \<Rightarrow> (None, LoadManager mgr policies))"

section \<open>What the loops decide\<close>

lemma stringInSlice_iff [simp]: "stringInSlice s xs \<longleftrightarrow> s \<in> set xs"
  by (induction xs) auto

lemma anyMatches_iff:
  "anyMatches asSel ps r ls \<longleftrightarrow>
     (\<exists>p \<in> set ps. \<not> paused p \<and> matchesTarget asSel (crps_TargetSelector (crp_Spec p)) r ls)"
  by (induction ps) auto

lemma anyDryRun_iff:
  "anyDryRun ps \<longleftrightarrow> (\<exists>p \<in> set ps. \<not> paused p \<and> gpc_DryRun (crps_GlobalConfig (crp_Spec p)))"
  by (induction ps) auto

lemma allPaused_iff [simp]: "allPaused ps \<longleftrightarrow> (\<forall>p \<in> set ps. paused p)"
  by (induction ps) auto

lemma overrideIn_find: "overrideIn scs n = find (\<lambda>sc. scf_Name sc = n) scs"
  by (induction scs) auto

lemma overrideAmong_find:
  "overrideAmong ps n = find (\<lambda>sc. scf_Name sc = n)
     (concat (map (\<lambda>p. crps_ScenarioConfigs (crp_Spec p)) (filter (\<lambda>p. \<not> paused p) ps)))"
  by (induction ps) (auto simp: overrideIn_find find_append split: option.splits)

section \<open>The interface of the remediation layer\<close>

locale policy_checker =
  fixes isPaused :: "'m \<Rightarrow> bool"
    and isCovered :: "'m \<Rightarrow> ResourceReference \<Rightarrow> labels \<Rightarrow> bool"
  assumes paused_uncovered: "isPaused m \<Longrightarrow> \<not> isCovered m r ls"
begin

text \<open>The two checks in sequence admit a resource exactly when it is covered.\<close>

lemma admits_iff: "\<not> isPaused m \<and> isCovered m r ls \<longleftrightarrow> isCovered m r ls"
  using paused_uncovered by blast

end

interpretation manager: policy_checker IsPaused "IsResourceCovered asSel" for asSel :: "'l asSelector"
  by unfold_locales (auto simp: IsPaused_def IsResourceCovered_def anyMatches_iff split: if_splits)

section \<open>Properties\<close>

text \<open>
  C14. A resource is remediated under the loaded policies exactly when there are none, or some
  policy that is not paused includes its namespace, does not exclude it, includes its kind and
  has no label selector or a valid one that matches the labels. The separate test for paused
  policies never changes this decision.
\<close>

theorem coverage_exact:
  "\<not> IsPaused m \<and> IsResourceCovered asSel m r ls \<longleftrightarrow>
     pm_policies m = [] \<or>
     (\<exists>p \<in> set (pm_policies m). \<exists>ts. ts = crps_TargetSelector (crp_Spec p) \<and> \<not> paused p
        \<and> (ts_Namespaces ts = [] \<or> rr_Namespace r \<in> set (ts_Namespaces ts))
        \<and> rr_Namespace r \<notin> set (ts_ExcludedNamespaces ts)
        \<and> (ts_ResourceTypes ts = [] \<or> rr_Kind r \<in> set (ts_ResourceTypes ts))
        \<and> (ts_LabelSelector ts = None \<or>
            (\<exists>l sel. ts_LabelSelector ts = Some l \<and> asSel l = Inr sel \<and> sel ls)))"
proof -
  have target: "matchesTarget asSel ts r ls \<longleftrightarrow>
      (ts_Namespaces ts = [] \<or> rr_Namespace r \<in> set (ts_Namespaces ts))
      \<and> rr_Namespace r \<notin> set (ts_ExcludedNamespaces ts)
      \<and> (ts_ResourceTypes ts = [] \<or> rr_Kind r \<in> set (ts_ResourceTypes ts))
      \<and> (ts_LabelSelector ts = None \<or> (\<exists>l sel. ts_LabelSelector ts = Some l \<and> asSel l = Inr sel \<and> sel ls))" for ts
    by (auto simp: matchesTarget_def split: option.splits sum.splits)
  show ?thesis
    unfolding manager.admits_iff by (simp add: IsResourceCovered_def anyMatches_iff target)
qed

text \<open>
  The override of a scenario is the first one, in the order of the policies and of their
  lists, among the policies that are not paused.
\<close>

theorem override_first:
  "GetScenarioOverride m n = find (\<lambda>sc. scf_Name sc = n)
     (concat (map (\<lambda>p. crps_ScenarioConfigs (crp_Spec p)) (filter (\<lambda>p. \<not> paused p) (pm_policies m))))"
  by (simp add: GetScenarioOverride_def overrideAmong_find)

end
