(* ===== verification/OwnerResolver.thy ===== *)
theory OwnerResolver
  imports Types
begin

text \<open>
  Resolution of a resource to the workload that owns it, from
  \<open>internal/remediation/owner_resolver.go\<close>: the resolver over the Kubernetes API and the static
  one. The API is a record of the two reads the resolver makes, in a cluster of type \<open>'w\<close>. Both
  resolvers return a reference and an error, as the Go methods do.
\<close>

section \<open>The resolver over the API\<close>

record 'w owner_api =
  oa_GetPodOwners :: "'w \<Rightarrow> string \<Rightarrow> string \<Rightarrow> string + OwnerReference list"
  oa_GetReplicaSetOwners :: "'w \<Rightarrow> string \<Rightarrow> string \<Rightarrow> string + OwnerReference list"

definition workloadKinds :: "(string, bool) gomap" where
  "workloadKinds = [(''Deployment'', True), (''StatefulSet'', True), (''DaemonSet'', True),
     (''Job'', True), (''CronJob'', True)]"

text \<open>Indexing the map gives the zero value for an absent key.\<close>

definition isWorkloadKind :: "string \<Rightarrow> bool" where
  "isWorkloadKind k = (case mget workloadKinds k of None \<Rightarrow> False | Some b \<Rightarrow> b)"

definition ownerRef :: "string \<Rightarrow> OwnerReference \<Rightarrow> ResourceReference" where
  "ownerRef namespace owner = \<lparr>rr_APIVersion = or_APIVersion owner, rr_Kind = or_Kind owner,
     rr_Namespace = namespace, rr_Name = or_Name owner, rr_UID = or_UID owner\<rparr>"

fun deploymentOwner :: "OwnerReference list \<Rightarrow> OwnerReference option" where
  "deploymentOwner [] = None"
| "deploymentOwner (owner # rest) =
     (if or_Kind owner = ''Deployment'' then Some owner else deploymentOwner rest)"

definition resolveReplicaSetOwner ::
  "'w owner_api \<Rightarrow> 'w \<Rightarrow> string \<Rightarrow> string \<Rightarrow> ResourceReference \<times> string option" where
  "resolveReplicaSetOwner api w namespace name =
     (case oa_GetReplicaSetOwners api w namespace name of
        Inl err \<Rightarrow>
          (zeroResource\<lparr>rr_Kind := ''ReplicaSet'', rr_Namespace := namespace, rr_Name := name\<rparr>,
           Some (''get replicaset '' @ namespace @ ''/'' @ name @ '': '' @ err))
      | Inr owners \<Rightarrow>
          (case deploymentOwner owners of
             Some owner \<Rightarrow> (ownerRef namespace owner, None)
           | None \<Rightarrow> (zeroResource\<lparr>rr_APIVersion := ''apps/v1'', rr_Kind := ''ReplicaSet'',
                       rr_Namespace := namespace, rr_Name := name\<rparr>, None)))"

definition resolvePodOwner ::
  "'w owner_api \<Rightarrow> 'w \<Rightarrow> ResourceReference \<Rightarrow> ResourceReference \<times> string option" where
  "resolvePodOwner api w ref =
     (case oa_GetPodOwners api w (rr_Namespace ref) (rr_Name ref) of
        Inl err \<Rightarrow> (ref, Some (''get pod '' @ rr_String ref @ '': '' @ err))
      | Inr owners \<Rightarrow>
          (case owners of
             [] \<Rightarrow> (ref, None)
           | owner # _ \<Rightarrow>
               if isWorkloadKind (or_Kind owner) then (ownerRef (rr_Namespace ref) owner, None)
               else if or_Kind owner = ''ReplicaSet''
                 then resolveReplicaSetOwner api w (rr_Namespace ref) (or_Name owner)
               else (ref, None)))"

definition ResolveWorkloadOwner ::
  "'w owner_api \<Rightarrow> 'w \<Rightarrow> ResourceReference \<Rightarrow> ResourceReference \<times> string option" where
  "ResolveWorkloadOwner api w ref =
     (if isWorkloadKind (rr_Kind ref) then (ref, None)
      else if rr_Kind ref \<noteq> ''Pod'' then (ref, None)
      else resolvePodOwner api w ref)"

section \<open>The static resolver\<close>

record StaticOwnerResolver =
  so_mappings :: "(string, ResourceReference) gomap"

definition NewStaticOwnerResolver :: "(string, ResourceReference) gomap \<Rightarrow> StaticOwnerResolver" where
  "NewStaticOwnerResolver mappings = \<lparr>so_mappings = mappings\<rparr>"

definition StaticResolveWorkloadOwner ::
  "StaticOwnerResolver \<Rightarrow> ResourceReference \<Rightarrow> ResourceReference \<times> string option" where
  "StaticResolveWorkloadOwner r ref =
     (if isWorkloadKind (rr_Kind ref) then (ref, None)
      else case mget (so_mappings r) (rr_Key ref) of
        Some resolved \<Rightarrow> (resolved, None)
      | None \<Rightarrow> (ref, None))"

section \<open>The interface\<close>

text \<open>
  What the controller relies on: a workload resolves to itself without an error, whatever the
  cluster answers.
\<close>

locale owner_resolver =
  fixes resolve :: "ResourceReference \<Rightarrow> ResourceReference \<times> string option"
  assumes workload_fixed: "isWorkloadKind (rr_Kind r) \<Longrightarrow> resolve r = (r, None)"
begin

text \<open>Once resolution reached a workload, resolving again changes nothing.\<close>

lemma resolve_stable: "isWorkloadKind (rr_Kind (fst (resolve r))) \<Longrightarrow> resolve (fst (resolve r)) = (fst (resolve r), None)"
  by (rule workload_fixed)

lemma no_retry_on_workload: "isWorkloadKind (rr_Kind r) \<Longrightarrow> rr_Key (fst (resolve r)) = rr_Key r"
  by (simp add: workload_fixed)

end

interpretation k8s: owner_resolver "ResolveWorkloadOwner api w" for api :: "'w owner_api" and w
  by unfold_locales (simp add: ResolveWorkloadOwner_def)

interpretation static: owner_resolver "StaticResolveWorkloadOwner s" for s
  by unfold_locales (simp add: StaticResolveWorkloadOwner_def)

section \<open>Properties\<close>

lemma isWorkloadKind_iff:
  "isWorkloadKind k \<longleftrightarrow> k \<in> {''Deployment'', ''StatefulSet'', ''DaemonSet'', ''Job'', ''CronJob''}"
  by (auto simp: isWorkloadKind_def workloadKinds_def)

lemma deploymentOwner_kind: "deploymentOwner os = Some o' \<Longrightarrow> or_Kind o' = ''Deployment'' \<and> o' \<in> set os"
  by (induction os) (auto split: if_splits)

text \<open>The references that a resolution of \<open>r\<close> can return without an error.\<close>

lemma resolve_cases:
  assumes "ResolveWorkloadOwner api w r = (r', None)"
  obtains "r' = r"
  | "rr_Kind r = ''Pod''" "isWorkloadKind (rr_Kind r')" "rr_Namespace r' = rr_Namespace r"
  | "rr_Kind r = ''Pod''" "rr_Kind r' = ''ReplicaSet''" "rr_Namespace r' = rr_Namespace r"
  using assms
  by (auto simp: ResolveWorkloadOwner_def resolvePodOwner_def resolveReplicaSetOwner_def ownerRef_def
      isWorkloadKind_iff dest: deploymentOwner_kind split: if_splits sum.splits list.splits option.splits)

text \<open>
  C39. A resolution over the API that reports no error stays in the namespace of the resource,
  returns the resource itself, a workload or a ReplicaSet, and is final: resolving the answer
  again gives the answer.
\<close>

theorem resolution_sound:
  assumes "ResolveWorkloadOwner api w r = (r', None)"
  shows "rr_Namespace r' = rr_Namespace r
    \<and> (r' = r \<or> isWorkloadKind (rr_Kind r') \<or> rr_Kind r' = ''ReplicaSet'')
    \<and> ResolveWorkloadOwner api w r' = (r', None)"
  using assms
proof (cases rule: resolve_cases)
  case 1
  with assms show ?thesis by simp
next
  case 2
  then show ?thesis by (simp add: k8s.workload_fixed)
next
  case 3
  then show ?thesis by (simp add: ResolveWorkloadOwner_def)
qed

theorem resolution_sound_witness:
  "ResolveWorkloadOwner \<lparr>oa_GetPodOwners = (\<lambda>w ns n. Inr [\<lparr>or_APIVersion = ''apps/v1'', or_Kind = ''ReplicaSet'',
        or_Name = ''web-1'', or_UID = ''u2''\<rparr>]),
      oa_GetReplicaSetOwners = (\<lambda>w ns n. Inr [\<lparr>or_APIVersion = ''apps/v1'', or_Kind = ''Deployment'',
        or_Name = ''web'', or_UID = ''u3''\<rparr>])\<rparr> ()
      \<lparr>rr_APIVersion = ''apps/v1'', rr_Kind = ''Deployment'', rr_Namespace = ''prod'', rr_Name = ''web'', rr_UID = ''u3''\<rparr>
    = (\<lparr>rr_APIVersion = ''apps/v1'', rr_Kind = ''Deployment'', rr_Namespace = ''prod'', rr_Name = ''web'', rr_UID = ''u3''\<rparr>, None)"
proof -
  let ?api = "\<lparr>oa_GetPodOwners = (\<lambda>w ns n. Inr [\<lparr>or_APIVersion = ''apps/v1'', or_Kind = ''ReplicaSet'',
        or_Name = ''web-1'', or_UID = ''u2''\<rparr>]),
      oa_GetReplicaSetOwners = (\<lambda>w ns n. Inr [\<lparr>or_APIVersion = ''apps/v1'', or_Kind = ''Deployment'',
        or_Name = ''web'', or_UID = ''u3''\<rparr>])\<rparr>"
  let ?pod = "\<lparr>rr_APIVersion = ''v1'', rr_Kind = ''Pod'', rr_Namespace = ''prod'', rr_Name = ''web-1-x'', rr_UID = ''u1''\<rparr>"
  have "ResolveWorkloadOwner ?api () ?pod = (\<lparr>rr_APIVersion = ''apps/v1'', rr_Kind = ''Deployment'',
      rr_Namespace = ''prod'', rr_Name = ''web'', rr_UID = ''u3''\<rparr>, None)"
    by (simp add: ResolveWorkloadOwner_def resolvePodOwner_def resolveReplicaSetOwner_def isWorkloadKind_iff ownerRef_def)
  from resolution_sound [OF this] show ?thesis by simp
qed

end
