(* ===== verification/Remediation.thy ===== *)
theory Remediation
  imports StateStore Policy OwnerResolver Config
begin

text \<open>
  The remediation controller of \<open>internal/remediation/controller.go\<close>: policy filter, cooldown,
  retry limit and escalation, publishing in leader mode, sorted execution with a retry on the
  owning workload in standalone mode, the state store and the life cycle. The action executor,
  the task publisher, the owner resolver and the policy checker are the interfaces of the
  source, fields of the controller that act on a cluster of type \<open>'w\<close>. Every reading of the clock
  is a field of the records \<open>action_clock\<close> and \<open>result_clock\<close>.
\<close>

section \<open>The controller state\<close>

text \<open>The two instants handed to the executor are its readings at the start and at the end.\<close>

type_synonym 'w ActionExecutor =
  "time \<times> time \<Rightarrow> ResourceReference \<Rightarrow> ActionConfig \<Rightarrow> 'w \<Rightarrow> (ActionResult \<times> string option) \<times> 'w"

type_synonym 'w TaskPublisher =
  "time \<Rightarrow> DetectionResult \<Rightarrow> ResourceReference \<Rightarrow> 'w \<Rightarrow> string option \<times> 'w"

type_synonym 'w OwnerResolver = "'w \<Rightarrow> ResourceReference \<Rightarrow> ResourceReference \<times> string option"

record 'w PolicyChecker =
  pc_IsPaused :: "'w \<Rightarrow> bool"
  pc_IsResourceCovered :: "'w \<Rightarrow> ResourceReference \<Rightarrow> labels \<Rightarrow> bool"

record inMemoryRemediationStateStore =
  rst_states :: "(string, RemediationState) gomap"

record 'w controllerImpl =
  co_config :: Config
  co_executor :: "'w ActionExecutor"
  co_outputCh :: "ActionResult chan"
  co_publisher :: "'w TaskPublisher option"
  co_ownerResolver :: "'w OwnerResolver option"
  co_policyChecker :: "'w PolicyChecker option"
  co_stateStore :: inMemoryRemediationStateStore
  co_ready :: bool
  co_stopped :: bool

section \<open>The in-memory state store\<close>

definition newInMemoryRemediationStateStore :: inMemoryRemediationStateStore where
  "newInMemoryRemediationStateStore = \<lparr>rst_states = []\<rparr>"

definition GetState :: "inMemoryRemediationStateStore \<Rightarrow> string \<Rightarrow> RemediationState option" where
  "GetState s key = mget (rst_states s) key"

definition SetState ::
  "inMemoryRemediationStateStore \<Rightarrow> string \<Rightarrow> RemediationState \<Rightarrow> inMemoryRemediationStateStore" where
  "SetState s key state = s\<lparr>rst_states := mput key state (rst_states s)\<rparr>"

definition DeleteState :: "inMemoryRemediationStateStore \<Rightarrow> string \<Rightarrow> inMemoryRemediationStateStore" where
  "DeleteState s key = s\<lparr>rst_states := mdel key (rst_states s)\<rparr>"

text \<open>
  The clock of a cleanup is the reading for the threshold and, for each key, the reading in the
  condition of the loop.
\<close>

definition inactive ::
  "inMemoryRemediationStateStore \<Rightarrow> time \<times> (string \<Rightarrow> time) \<Rightarrow> string \<Rightarrow> RemediationState \<Rightarrow> bool" where
  "inactive s clk key state \<longleftrightarrow>
     time_Before (rs_LastRemediation state) (time_Add (fst clk) (- (30 * Minute)))
     \<and> time_After (snd clk key) (rs_CooldownUntil state)"

definition Cleanup ::
  "time \<times> (string \<Rightarrow> time) \<Rightarrow> inMemoryRemediationStateStore \<Rightarrow> inMemoryRemediationStateStore \<times> int" where
  "Cleanup clk s =
     (let (m, cleaned) = rangeDelete (inactive s clk) (rst_states s) (rst_states s) 0
      in (s\<lparr>rst_states := m\<rparr>, cleaned))"

section \<open>Construction and results\<close>

definition newControllerImpl ::
  "Config \<Rightarrow> 'w ActionExecutor \<Rightarrow> ActionResult chan \<Rightarrow> 'w TaskPublisher option \<Rightarrow> 'w OwnerResolver option
     \<Rightarrow> 'w PolicyChecker option \<Rightarrow> 'w controllerImpl" where
  "newControllerImpl cfg executor outputCh publisher resolver checker =
     \<lparr>co_config = cfg, co_executor = executor, co_outputCh = outputCh, co_publisher = publisher,
      co_ownerResolver = resolver, co_policyChecker = checker,
      co_stateStore = newInMemoryRemediationStateStore, co_ready = False, co_stopped = False\<rparr>"

definition generateID :: "location \<Rightarrow> time \<Rightarrow> string" where
  "generateID loc now = format_compact_micro loc now"

definition sendResult :: "'w controllerImpl \<Rightarrow> ActionResult \<Rightarrow> 'w controllerImpl" where
  "sendResult c result = c\<lparr>co_outputCh := chan_trySend (co_outputCh c) result\<rparr>"

record action_clock =
  ak_start :: time
  ak_exec :: "time \<times> time"
  ak_retry :: "time \<times> time"
  ak_id :: time
  ak_end :: time

record result_clock =
  pk_cooldown :: time
  pk_id :: time
  pk_start :: time
  pk_end :: time
  pk_publish :: time
  pk_action :: "nat \<Rightarrow> action_clock"
  pk_last :: time
  pk_until :: time

section \<open>Executing one action\<close>

definition executeAction ::
  "location \<Rightarrow> action_clock \<Rightarrow> 'w controllerImpl \<Rightarrow> DetectionResult \<Rightarrow> ActionConfig \<Rightarrow> 'w \<Rightarrow> ActionResult \<times> 'w" where
  "executeAction loc clk c result actionConfig w =
     (let resource = dr_Resource result in
      if rm_DryRun (cfg_Remediation (co_config c)) then
        (zeroActionResult\<lparr>ar_ID := generateID loc (ak_id clk), ar_DetectionResultID := dr_ID result,
           ar_ScenarioID := dr_ScenarioID result, ar_Resource := resource, ar_Action := actionConfig,
           ar_Status := ActionStatusDryRun, ar_StartTime := ak_start clk, ar_EndTime := ak_end clk,
           ar_Message := ''Dry-run: action would be executed''\<rparr>, w)
      else
        (let ((actionResult, err), w1) = co_executor c (ak_exec clk) resource actionConfig w;
             (actionResult', err', resource', w2) =
               (case (err, co_ownerResolver c) of
                  (Some _, Some resolve) \<Rightarrow>
                    (let (resolved, resolveErr) = resolve w1 resource in
                     if resolveErr = None \<and> rr_Key resolved \<noteq> rr_Key resource then
                       (let ((ar, e), w2) = co_executor c (ak_retry clk) resolved actionConfig w1
                        in (ar, e, if e = None then resolved else resource, w2))
                     else (actionResult, err, resource, w1))
                | _ \<Rightarrow> (actionResult, err, resource, w1))
         in case err' of
              Some msg \<Rightarrow>
                (zeroActionResult\<lparr>ar_ID := generateID loc (ak_id clk), ar_DetectionResultID := dr_ID result,
                   ar_ScenarioID := dr_ScenarioID result, ar_Resource := resource', ar_Action := actionConfig,
                   ar_Status := ActionStatusFailed, ar_StartTime := ak_start clk, ar_EndTime := ak_end clk,
                   ar_Message := ''Action execution failed'', ar_Error := msg\<rparr>, w2)
            | None \<Rightarrow>
                (actionResult'\<lparr>ar_ID := generateID loc (ak_id clk), ar_DetectionResultID := dr_ID result,
                   ar_ScenarioID := dr_ScenarioID result\<rparr>, w2)))"

section \<open>Executing all actions, publishing\<close>

fun runActions ::
  "location \<Rightarrow> (nat \<Rightarrow> action_clock) \<Rightarrow> DetectionResult \<Rightarrow> nat \<Rightarrow> ActionConfig list \<Rightarrow> 'w controllerImpl
     \<Rightarrow> RemediationState \<Rightarrow> 'w \<Rightarrow> 'w controllerImpl \<times> RemediationState \<times> 'w" where
  "runActions loc clk result i [] c state w = (c, state, w)"
| "runActions loc clk result i (actionConfig # rest) c state w =
     (let (actionResult, w') = executeAction loc (clk i) c result actionConfig w;
          c' = sendResult c actionResult
      in if ar_Status actionResult = ActionStatusFailed
         then (c', state\<lparr>rs_LastActionStatus := ActionStatusFailed\<rparr>, w')
         else runActions loc clk result (Suc i) rest c'
                (state\<lparr>rs_LastActionStatus := ar_Status actionResult\<rparr>) w')"

text \<open>\<open>srt\<close> is \<open>sort.Slice\<close> with the comparison of \<open>Order\<close>.\<close>

definition executeActions ::
  "(ActionConfig list \<Rightarrow> ActionConfig list) \<Rightarrow> location \<Rightarrow> (nat \<Rightarrow> action_clock) \<Rightarrow> DetectionResult
     \<Rightarrow> 'w controllerImpl \<Rightarrow> RemediationState \<Rightarrow> 'w \<Rightarrow> 'w controllerImpl \<times> RemediationState \<times> 'w" where
  "executeActions srt loc clk result c state w =
     (let actions = dr_RecommendedActions result in
      if actions = [] then (c, state, w)
      else runActions loc clk result 0 (srt actions) c state w)"

definition publishTask ::
  "time \<Rightarrow> 'w TaskPublisher \<Rightarrow> 'w controllerImpl \<Rightarrow> DetectionResult \<Rightarrow> RemediationState \<Rightarrow> 'w
     \<Rightarrow> RemediationState \<times> 'w" where
  "publishTask now publish c result state w =
     (if dr_RecommendedActions result = [] then (state, w)
      else
        (let resource = dr_Resource result;
             resource' = (case co_ownerResolver c of
                 None \<Rightarrow> resource
               | Some resolve \<Rightarrow>
                   (let (resolved, err) = resolve w resource in
                    if err = None \<and> rr_Key resolved \<noteq> rr_Key resource then resolved else resource))
         in case publish now result resource' w of
              (Some err, w') \<Rightarrow> (state\<lparr>rs_LastActionStatus := ActionStatusFailed\<rparr>, w')
            | (None, w') \<Rightarrow> (state, w')))"

section \<open>Processing a detection result\<close>

definition isInCooldown :: "time \<Rightarrow> RemediationState \<Rightarrow> bool" where
  "isInCooldown now state =
     (if time_IsZero (rs_CooldownUntil state) then False else time_Before now (rs_CooldownUntil state))"

definition recordSkipped ::
  "location \<Rightarrow> result_clock \<Rightarrow> 'w controllerImpl \<Rightarrow> DetectionResult \<Rightarrow> string \<Rightarrow> 'w controllerImpl" where
  "recordSkipped loc clk c result reason =
     sendResult c (zeroActionResult\<lparr>ar_ID := generateID loc (pk_id clk), ar_DetectionResultID := dr_ID result,
       ar_ScenarioID := dr_ScenarioID result, ar_Resource := dr_Resource result,
       ar_Status := ActionStatusSkipped, ar_StartTime := pk_start clk, ar_EndTime := pk_end clk,
       ar_Message := ''Remediation skipped: '' @ reason\<rparr>)"

definition escalate :: "location \<Rightarrow> result_clock \<Rightarrow> 'w controllerImpl \<Rightarrow> DetectionResult \<Rightarrow> 'w controllerImpl" where
  "escalate loc clk c result =
     sendResult c (zeroActionResult\<lparr>ar_ID := generateID loc (pk_id clk), ar_DetectionResultID := dr_ID result,
       ar_ScenarioID := dr_ScenarioID result, ar_Resource := dr_Resource result,
       ar_Action := zeroAction\<lparr>ac_Type := ActionTypeNotify,
         ac_Params := [(''severity'', GString ''critical''), (''reason'', GString ''max_retries_exceeded'')]\<rparr>,
       ar_Status := ActionStatusSucceeded, ar_StartTime := pk_start clk, ar_EndTime := pk_end clk,
       ar_Message := ''Escalation triggered: max retries exceeded''\<rparr>)"

definition newState :: "DetectionResult \<Rightarrow> RemediationState" where
  "newState result = \<lparr>rs_ScenarioID = dr_ScenarioID result, rs_Resource = dr_Resource result,
     rs_LastRemediation = 0, rs_RemediationCount = 0, rs_CooldownUntil = 0, rs_Escalated = False,
     rs_LastActionStatus = ''''\<rparr>"

definition admitted :: "'w controllerImpl \<Rightarrow> DetectionResult \<Rightarrow> 'w \<Rightarrow> bool" where
  "admitted c result w =
     (case co_policyChecker c of
        None \<Rightarrow> True
      | Some checker \<Rightarrow>
          if pc_IsPaused checker w then False
          else if \<not> pc_IsResourceCovered checker w (dr_Resource result) [] then False
          else True)"

definition processResult ::
  "(ActionConfig list \<Rightarrow> ActionConfig list) \<Rightarrow> location \<Rightarrow> result_clock \<Rightarrow> 'w controllerImpl \<Rightarrow> DetectionResult
     \<Rightarrow> 'w \<Rightarrow> 'w controllerImpl \<times> 'w" where
  "processResult srt loc clk c result w =
     (if \<not> admitted c result w then (c, w)
      else
        (let stateKey = StateKey (dr_ScenarioID result) (dr_Resource result);
             state = (case GetState (co_stateStore c) stateKey of Some st \<Rightarrow> st | None \<Rightarrow> newState result)
         in if isInCooldown (pk_cooldown clk) state then (recordSkipped loc clk c result ''cooldown'', w)
            else if rs_RemediationCount state \<ge> rm_DefaultMaxRetries (cfg_Remediation (co_config c)) then
              (if \<not> rs_Escalated state then
                 (let c1 = escalate loc clk c result
                  in (c1\<lparr>co_stateStore := SetState (co_stateStore c1) stateKey (state\<lparr>rs_Escalated := True\<rparr>)\<rparr>, w))
               else (c, w))
            else
              (let (c1, state1, w1) =
                     (case co_publisher c of
                        Some publish \<Rightarrow>
                          (let (st, w') = publishTask (pk_publish clk) publish c result state w in (c, st, w'))
                      | None \<Rightarrow> executeActions srt loc (pk_action clk) result c state w);
                   state2 = state1\<lparr>rs_LastRemediation := pk_last clk,
                     rs_RemediationCount := rs_RemediationCount state1 + 1,
                     rs_CooldownUntil := time_Add (pk_until clk) (rm_DefaultCooldown (cfg_Remediation (co_config c)))\<rparr>
               in (c1\<lparr>co_stateStore := SetState (co_stateStore c1) stateKey state2\<rparr>, w1))))"

section \<open>Life cycle\<close>

definition setReady :: "'w controllerImpl \<Rightarrow> bool \<Rightarrow> 'w controllerImpl" where
  "setReady c ready = c\<lparr>co_ready := ready\<rparr>"

definition Ready :: "'w controllerImpl \<Rightarrow> bool" where
  "Ready c = co_ready c"

definition Stop :: "'w controllerImpl \<Rightarrow> 'w controllerImpl" where
  "Stop c = (if co_stopped c then c else (setReady c False)\<lparr>co_stopped := True\<rparr>)"

definition startRun :: "'w controllerImpl \<Rightarrow> 'w controllerImpl" where
  "startRun c = setReady c True"

definition cleanupTick :: "time \<times> (string \<Rightarrow> time) \<Rightarrow> 'w controllerImpl \<Rightarrow> 'w controllerImpl" where
  "cleanupTick clk c = c\<lparr>co_stateStore := fst (Cleanup clk (co_stateStore c))\<rparr>"

text \<open>
  What can happen to a running controller: it receives a detection result, the ticker of its
  cleanup loop fires, an action result is taken from its output channel, or the cluster
  changes by itself.
\<close>

datatype 'w controllerEvent =
    Result result_clock DetectionResult
  | CleanupTick "time \<times> (string \<Rightarrow> time)"
  | TakeResult
  | ClusterChange 'w

fun controllerStep ::
  "(ActionConfig list \<Rightarrow> ActionConfig list) \<Rightarrow> location \<Rightarrow> 'w controllerImpl \<times> 'w \<Rightarrow> 'w controllerEvent
     \<Rightarrow> 'w controllerImpl \<times> 'w" where
  "controllerStep srt loc (c, w) (Result clk result) = processResult srt loc clk c result w"
| "controllerStep srt loc (c, w) (CleanupTick clk) = (cleanupTick clk c, w)"
| "controllerStep srt loc (c, w) TakeResult =
     (case chan_recv (co_outputCh c) of None \<Rightarrow> (c, w) | Some (r, ch) \<Rightarrow> (c\<lparr>co_outputCh := ch\<rparr>, w))"
| "controllerStep srt loc (c, w) (ClusterChange w') = (c, w')"

definition controllerRun ::
  "(ActionConfig list \<Rightarrow> ActionConfig list) \<Rightarrow> location \<Rightarrow> 'w controllerImpl \<times> 'w \<Rightarrow> 'w controllerEvent list
     \<Rightarrow> 'w controllerImpl \<times> 'w" where
  "controllerRun srt loc s evs = foldl (controllerStep srt loc) s evs"

section \<open>The store implements its interface\<close>

definition store_wf :: "inMemoryRemediationStateStore \<Rightarrow> bool" where
  "store_wf s \<longleftrightarrow> map_wf (rst_states s)"

lemma store_Cleanup_states:
  "rst_states (fst (Cleanup clk s)) = fst (rangeDelete (inactive s clk) (rst_states s) (rst_states s) 0)"
  by (simp add: Cleanup_def split: prod.splits)

interpretation rstore: state_store GetState SetState DeleteState Cleanup inactive store_wf
  by unfold_locales
    (auto simp: GetState_def SetState_def DeleteState_def store_Cleanup_states mget_rangeDelete store_wf_def)

interpretation controller_out: lossy_sender
  "\<lambda>ch r. co_outputCh (sendResult (c\<lparr>co_outputCh := ch\<rparr>) r)" for c :: "'w controllerImpl"
  by unfold_locales (auto simp: sendResult_def chan_trySend_def)

section \<open>The trace of an execution\<close>

text \<open>The results of the actions that are executed, in order, and the cluster afterwards.\<close>

fun actionTrace ::
  "location \<Rightarrow> (nat \<Rightarrow> action_clock) \<Rightarrow> 'w controllerImpl \<Rightarrow> DetectionResult \<Rightarrow> nat \<Rightarrow> ActionConfig list \<Rightarrow> 'w
     \<Rightarrow> ActionResult list \<times> 'w" where
  "actionTrace loc clk c result i [] w = ([], w)"
| "actionTrace loc clk c result i (a # rest) w =
     (let (ar, w') = executeAction loc (clk i) c result a w in
      if ar_Status ar = ActionStatusFailed then ([ar], w')
      else (let (ars, w'') = actionTrace loc clk c result (Suc i) rest w' in (ar # ars, w'')))"

lemma executeAction_out [simp]:
  "executeAction loc clk (c\<lparr>co_outputCh := ch\<rparr>) result a w = executeAction loc clk c result a w"
  by (simp add: executeAction_def Let_def cong: if_cong option.case_cong prod.case_cong)

lemma actionTrace_out [simp]:
  "actionTrace loc clk (c\<lparr>co_outputCh := ch\<rparr>) result i as w = actionTrace loc clk c result i as w"
  by (induction as arbitrary: i w) (auto split: prod.splits)

definition lastStatus :: "ActionStatus \<Rightarrow> ActionResult list \<Rightarrow> ActionStatus" where
  "lastStatus s ars = (if ars = [] then s else ar_Status (last ars))"

lemma runActions_trace:
  "runActions loc clk result i as c state w =
     (let (ars, w') = actionTrace loc clk c result i as w in
      (c\<lparr>co_outputCh := foldl chan_trySend (co_outputCh c) ars\<rparr>,
       state\<lparr>rs_LastActionStatus := lastStatus (rs_LastActionStatus state) ars\<rparr>, w'))"
proof (induction as arbitrary: i c state w)
  case Nil
  then show ?case by (simp add: lastStatus_def)
next
  case (Cons a as)
  then show ?case
    by (auto simp: sendResult_def lastStatus_def split: prod.splits)
qed

text \<open>The trace follows the list, and only its last result can be a failure.\<close>

lemma actionTrace_prefix:
  assumes "actionTrace loc clk c result i as w = (ars, w')"
  shows "length ars \<le> length as \<and> (\<forall>ar \<in> set (butlast ars). ar_Status ar \<noteq> ActionStatusFailed)
    \<and> (length ars < length as \<longrightarrow> ars \<noteq> [] \<and> ar_Status (last ars) = ActionStatusFailed)"
  using assms
proof (induction as arbitrary: i w ars w')
  case Nil
  then show ?case by simp
next
  case (Cons a as)
  obtain ar w1 where ex: "executeAction loc (clk i) c result a w = (ar, w1)" by (meson surj_pair)
  show ?case
  proof (cases "ar_Status ar = ActionStatusFailed")
    case True
    with Cons.prems ex show ?thesis by auto
  next
    case False
    then obtain ars' where "actionTrace loc clk c result (Suc i) as w1 = (ars', w')" "ars = ar # ars'"
      using Cons.prems ex by (auto split: prod.splits)
    with Cons.IH [OF this(1)] False show ?thesis by auto
  qed
qed

section \<open>The four outcomes of a result\<close>

abbreviation resultKey :: "DetectionResult \<Rightarrow> string" where
  "resultKey r \<equiv> StateKey (dr_ScenarioID r) (dr_Resource r)"

abbreviation maxRetries :: "'w controllerImpl \<Rightarrow> int" where
  "maxRetries c \<equiv> rm_DefaultMaxRetries (cfg_Remediation (co_config c))"

abbreviation cooldown :: "'w controllerImpl \<Rightarrow> duration" where
  "cooldown c \<equiv> rm_DefaultCooldown (cfg_Remediation (co_config c))"

definition currentState :: "'w controllerImpl \<Rightarrow> DetectionResult \<Rightarrow> RemediationState" where
  "currentState c r = (case GetState (co_stateStore c) (resultKey r) of Some st \<Rightarrow> st | None \<Rightarrow> newState r)"

definition acts :: "'w controllerImpl \<Rightarrow> result_clock \<Rightarrow> DetectionResult \<Rightarrow> 'w \<Rightarrow> bool" where
  "acts c clk r w \<longleftrightarrow> admitted c r w \<and> \<not> isInCooldown (pk_cooldown clk) (currentState c r)
     \<and> rs_RemediationCount (currentState c r) < maxRetries c"

definition escalates :: "'w controllerImpl \<Rightarrow> result_clock \<Rightarrow> DetectionResult \<Rightarrow> 'w \<Rightarrow> bool" where
  "escalates c clk r w \<longleftrightarrow> admitted c r w \<and> \<not> isInCooldown (pk_cooldown clk) (currentState c r)
     \<and> maxRetries c \<le> rs_RemediationCount (currentState c r) \<and> \<not> rs_Escalated (currentState c r)"

text \<open>The remediation proper: what \<open>processResult\<close> does once every check has passed.\<close>

definition remediate ::
  "(ActionConfig list \<Rightarrow> ActionConfig list) \<Rightarrow> location \<Rightarrow> result_clock \<Rightarrow> 'w controllerImpl \<Rightarrow> DetectionResult
     \<Rightarrow> 'w \<Rightarrow> ActionResult list \<times> ActionStatus \<times> 'w" where
  "remediate srt loc clk c r w =
     (let state = currentState c r in
      case co_publisher c of
        Some publish \<Rightarrow>
          (let (st, w') = publishTask (pk_publish clk) publish c r state w in ([], rs_LastActionStatus st, w'))
      | None \<Rightarrow>
          (let (ars, w') = (if dr_RecommendedActions r = [] then ([], w)
               else actionTrace loc (pk_action clk) c r 0 (srt (dr_RecommendedActions r)) w)
           in (ars, lastStatus (rs_LastActionStatus state) ars, w')))"

lemma publishTask_state:
  "fst (publishTask now p c r st w) = st\<lparr>rs_LastActionStatus := rs_LastActionStatus (fst (publishTask now p c r st w))\<rparr>"
  by (simp add: publishTask_def Let_def split: prod.splits option.splits)

definition afterAct :: "result_clock \<Rightarrow> 'w controllerImpl \<Rightarrow> DetectionResult \<Rightarrow> ActionStatus \<Rightarrow> RemediationState" where
  "afterAct clk c r status = (currentState c r)\<lparr>rs_LastActionStatus := status, rs_LastRemediation := pk_last clk,
     rs_RemediationCount := rs_RemediationCount (currentState c r) + 1,
     rs_CooldownUntil := pk_until clk + cooldown c\<rparr>"

lemma processResult_acts:
  assumes "acts c clk r w" "remediate srt loc clk c r w = (ars, status, w')"
  shows "processResult srt loc clk c r w =
    (c\<lparr>co_outputCh := foldl chan_trySend (co_outputCh c) ars,
       co_stateStore := SetState (co_stateStore c) (resultKey r) (afterAct clk c r status)\<rparr>, w')"
proof (cases "co_publisher c")
  case None
  with assms show ?thesis
    by (auto simp: acts_def processResult_def remediate_def executeActions_def runActions_trace lastStatus_def
        afterAct_def time_defs Let_def simp flip: currentState_def split: prod.splits)
next
  case (Some p)
  have "fst (publishTask (pk_publish clk) p c r (currentState c r) w)
      = (currentState c r)\<lparr>rs_LastActionStatus := status\<rparr>"
    using assms(2) Some publishTask_state [of "pk_publish clk" p c r "currentState c r" w]
    by (auto simp: remediate_def split: prod.splits)
  with Some assms show ?thesis
    by (auto simp: acts_def processResult_def remediate_def afterAct_def time_defs Let_def
        simp flip: currentState_def split: prod.splits)
qed

lemma processResult_idle:
  "\<not> admitted c r w \<Longrightarrow> processResult srt loc clk c r w = (c, w)"
  "admitted c r w \<Longrightarrow> isInCooldown (pk_cooldown clk) (currentState c r)
     \<Longrightarrow> processResult srt loc clk c r w = (recordSkipped loc clk c r ''cooldown'', w)"
  "admitted c r w \<Longrightarrow> \<not> isInCooldown (pk_cooldown clk) (currentState c r)
     \<Longrightarrow> maxRetries c \<le> rs_RemediationCount (currentState c r) \<Longrightarrow> rs_Escalated (currentState c r)
     \<Longrightarrow> processResult srt loc clk c r w = (c, w)"
  by (simp_all add: processResult_def Let_def flip: currentState_def)

lemma processResult_escalates:
  "escalates c clk r w \<Longrightarrow> processResult srt loc clk c r w =
     ((escalate loc clk c r)\<lparr>co_stateStore := SetState (co_stateStore c) (resultKey r)
        ((currentState c r)\<lparr>rs_Escalated := True\<rparr>)\<rparr>, w)"
  by (auto simp: escalates_def processResult_def Let_def escalate_def sendResult_def simp flip: currentState_def)

lemma processResult_cases:
  obtains "acts c clk r w"
  | "escalates c clk r w"
  | "processResult srt loc clk c r w = (c, w)" "\<not> acts c clk r w" "\<not> escalates c clk r w"
  | "processResult srt loc clk c r w = (recordSkipped loc clk c r ''cooldown'', w)" "\<not> acts c clk r w" "\<not> escalates c clk r w"
  using processResult_idle [where c = c and clk = clk and r = r and w = w and srt = srt and loc = loc]
  by (fastforce simp: acts_def escalates_def not_less)

lemma processResult_frame:
  "co_config (fst (processResult srt loc clk c r w)) = co_config c
   \<and> co_executor (fst (processResult srt loc clk c r w)) = co_executor c
   \<and> co_publisher (fst (processResult srt loc clk c r w)) = co_publisher c
   \<and> co_ownerResolver (fst (processResult srt loc clk c r w)) = co_ownerResolver c
   \<and> co_policyChecker (fst (processResult srt loc clk c r w)) = co_policyChecker c"
proof (cases rule: processResult_cases [where c = c and clk = clk and r = r and w = w and srt = srt and loc = loc])
  case 1
  obtain ars status w' where "remediate srt loc clk c r w = (ars, status, w')" by (metis surj_pair)
  with 1 show ?thesis by (simp add: processResult_acts)
qed (simp_all add: processResult_escalates escalate_def recordSkipped_def sendResult_def)

text \<open>The state of a key after a result.\<close>

lemma processResult_get:
  assumes "store_wf (co_stateStore c)"
  shows "GetState (co_stateStore (fst (processResult srt loc clk c r w))) k =
    (if k \<noteq> resultKey r then GetState (co_stateStore c) k
     else if acts c clk r w then Some (afterAct clk c r (fst (snd (remediate srt loc clk c r w))))
     else if escalates c clk r w then Some ((currentState c r)\<lparr>rs_Escalated := True\<rparr>)
     else GetState (co_stateStore c) k)"
proof (cases rule: processResult_cases [where c = c and clk = clk and r = r and w = w and srt = srt and loc = loc])
  case 1
  obtain ars status w' where "remediate srt loc clk c r w = (ars, status, w')" by (metis surj_pair)
  with 1 assms show ?thesis by (simp add: processResult_acts rstore.get_set)
next
  case 2
  then have "\<not> acts c clk r w" by (auto simp: acts_def escalates_def)
  with 2 assms show ?thesis by (simp add: processResult_escalates rstore.get_set)
qed (simp_all add: recordSkipped_def sendResult_def)

lemma processResult_wf:
  assumes "store_wf (co_stateStore c)"
  shows "store_wf (co_stateStore (fst (processResult srt loc clk c r w)))"
proof (cases rule: processResult_cases [where c = c and clk = clk and r = r and w = w and srt = srt and loc = loc])
  case 1
  obtain ars status w' where "remediate srt loc clk c r w = (ars, status, w')" by (metis surj_pair)
  with 1 assms show ?thesis by (simp add: processResult_acts rstore.inv_set)
next
  case 2
  with assms show ?thesis by (simp add: processResult_escalates rstore.inv_set)
qed (use assms in \<open>simp_all add: recordSkipped_def sendResult_def\<close>)

lemma processResult_world: "\<not> acts c clk r w \<Longrightarrow> snd (processResult srt loc clk c r w) = w"
  by (cases rule: processResult_cases [where c = c and clk = clk and r = r and w = w and srt = srt and loc = loc]) (simp_all add: processResult_escalates)

section \<open>Invariant of the controller\<close>

definition entry_ok :: "int \<Rightarrow> string \<Rightarrow> RemediationState \<Rightarrow> bool" where
  "entry_ok limit k st \<longleftrightarrow> k = StateKey (rs_ScenarioID st) (rs_Resource st)
     \<and> 0 \<le> rs_RemediationCount st \<and> rs_RemediationCount st \<le> limit
     \<and> (rs_Escalated st \<longrightarrow> rs_RemediationCount st = limit)"

definition controller_inv :: "'w controllerImpl \<Rightarrow> bool" where
  "controller_inv c \<longleftrightarrow> 0 \<le> maxRetries c \<and> store_wf (co_stateStore c) \<and> chan_wf (co_outputCh c)
     \<and> (\<forall>k st. GetState (co_stateStore c) k = Some st \<longrightarrow> entry_ok (maxRetries c) k st)"

lemma currentState_ok:
  assumes "controller_inv c"
  shows "entry_ok (maxRetries c) (resultKey r) (currentState c r)"
  using assms by (auto simp: controller_inv_def currentState_def entry_ok_def newState_def split: option.splits)

lemma processResult_chan:
  assumes "chan_wf (co_outputCh c)"
  shows "chan_wf (co_outputCh (fst (processResult srt loc clk c r w)))"
proof (cases rule: processResult_cases [where c = c and clk = clk and r = r and w = w and srt = srt and loc = loc])
  case 1
  obtain ars status w' where "remediate srt loc clk c r w = (ars, status, w')" by (metis surj_pair)
  with 1 assms show ?thesis by (simp add: processResult_acts trySend.fold_send_wf)
qed (use assms in \<open>simp_all add: processResult_escalates escalate_def recordSkipped_def sendResult_def trySend.send_wf\<close>)

lemma processResult_inv:
  assumes "controller_inv c"
  shows "controller_inv (fst (processResult srt loc clk c r w))"
proof -
  have "entry_ok (maxRetries c) (resultKey r) (afterAct clk c r status)" if "acts c clk r w" for status
    using currentState_ok [OF assms, of r] that by (auto simp: entry_ok_def afterAct_def acts_def)
  moreover have "entry_ok (maxRetries c) (resultKey r) ((currentState c r)\<lparr>rs_Escalated := True\<rparr>)"
    if "escalates c clk r w"
    using currentState_ok [OF assms, of r] that by (auto simp: entry_ok_def escalates_def)
  ultimately show ?thesis
    using assms processResult_frame [of srt loc clk c r w] processResult_wf [of c srt loc clk r w]
      processResult_chan [of c srt loc clk r w]
    by (auto simp: controller_inv_def processResult_get split: if_splits)
qed

lemma controllerStep_inv: "controller_inv (fst s) \<Longrightarrow> controller_inv (fst (controllerStep srt loc s ev))"
proof (cases s)
  case (Pair c w)
  moreover assume "controller_inv (fst s)"
  ultimately have c: "controller_inv c" by simp
  show ?thesis
  proof (cases ev)
    case (Result clk r)
    with c Pair show ?thesis by (simp add: processResult_inv)
  next
    case (CleanupTick clk)
    with c Pair show ?thesis
      by (auto simp: controller_inv_def cleanupTick_def rstore.inv_cleanup rstore.cleanup_keeps)
  next
    case TakeResult
    with c Pair show ?thesis
      by (auto simp: controller_inv_def chan_recv_def chan_wf_def split: list.splits)
  next
    case (ClusterChange w')
    with c Pair show ?thesis by simp
  qed
qed

lemma controllerStep_config: "co_config (fst (controllerStep srt loc s ev)) = co_config (fst s)"
  by (cases s; cases ev)
    (auto simp: processResult_frame cleanupTick_def chan_recv_def split: list.splits)

section \<open>The retry budget\<close>

text \<open>How many of the events of a run are results for a key that pass every check.\<close>

fun actsOn :: "string \<Rightarrow> 'w controllerImpl \<times> 'w \<Rightarrow> 'w controllerEvent \<Rightarrow> bool" where
  "actsOn k (c, w) (Result clk r) \<longleftrightarrow> resultKey r = k \<and> acts c clk r w"
| "actsOn k (c, w) _ \<longleftrightarrow> False"

fun acted ::
  "(ActionConfig list \<Rightarrow> ActionConfig list) \<Rightarrow> location \<Rightarrow> string \<Rightarrow> 'w controllerImpl \<times> 'w
     \<Rightarrow> 'w controllerEvent list \<Rightarrow> nat" where
  "acted srt loc k s [] = 0"
| "acted srt loc k s (ev # evs) =
     (if actsOn k s ev then 1 else 0) + acted srt loc k (controllerStep srt loc s ev) evs"

definition usedUp :: "string \<Rightarrow> 'w controllerImpl \<Rightarrow> int" where
  "usedUp k c = (case GetState (co_stateStore c) k of None \<Rightarrow> 0 | Some st \<Rightarrow> rs_RemediationCount st)"

definition isCleanup :: "'w controllerEvent \<Rightarrow> bool" where
  "isCleanup ev \<longleftrightarrow> (\<exists>clk. ev = CleanupTick clk)"

lemma usedUp_current: "usedUp (resultKey r) c = rs_RemediationCount (currentState c r)"
  by (simp add: usedUp_def currentState_def newState_def split: option.splits)

lemma controllerStep_usedUp:
  assumes "store_wf (co_stateStore (fst s))" "\<not> isCleanup ev"
  shows "usedUp k (fst (controllerStep srt loc s ev)) = usedUp k (fst s) + (if actsOn k s ev then 1 else 0)"
proof (cases s)
  case (Pair c w)
  show ?thesis
  proof (cases ev)
    case (Result clk r)
    have "usedUp k (fst (processResult srt loc clk c r w)) = usedUp k c + 1"
      if "resultKey r = k" "acts c clk r w"
      using that assms Pair
      by (simp add: usedUp_def processResult_get afterAct_def currentState_def newState_def split: option.splits)
    moreover have "usedUp k (fst (processResult srt loc clk c r w)) = usedUp k c"
      if "\<not> (resultKey r = k \<and> acts c clk r w)"
      using that assms Pair
      by (auto simp: usedUp_def processResult_get currentState_def newState_def escalates_def split: option.splits)
    ultimately show ?thesis using Result Pair by simp
  next
    case TakeResult
    with Pair show ?thesis by (simp add: usedUp_def chan_recv_def split: list.splits)
  qed (use Pair assms in \<open>auto simp: isCleanup_def\<close>)
qed

lemma acted_budget:
  assumes "controller_inv (fst s)" "\<forall>ev \<in> set evs. \<not> isCleanup ev"
  shows "usedUp k (fst s) + int (acted srt loc k s evs) \<le> maxRetries (fst s)"
  using assms
proof (induction evs arbitrary: s)
  case Nil
  then show ?case
    by (auto simp: usedUp_def controller_inv_def entry_ok_def split: option.splits)
next
  case (Cons ev evs)
  have wf: "store_wf (co_stateStore (fst s))" using Cons.prems by (simp add: controller_inv_def)
  have "usedUp k (fst (controllerStep srt loc s ev)) + int (acted srt loc k (controllerStep srt loc s ev) evs)
      \<le> maxRetries (fst s)"
    using Cons by (simp add: controllerStep_inv flip: controllerStep_config [of srt loc s ev])
  with controllerStep_usedUp [OF wf, of ev k srt loc] Cons.prems(2) show ?case by (simp split: if_splits)
qed

lemma newControllerImpl_inv:
  "0 \<le> rm_DefaultMaxRetries (cfg_Remediation cfg) \<Longrightarrow> chan_wf ch
    \<Longrightarrow> controller_inv (newControllerImpl cfg ex ch pub res pol)"
  by (simp add: controller_inv_def newControllerImpl_def newInMemoryRemediationStateStore_def store_wf_def GetState_def)

section \<open>Spacing of remediations\<close>

text \<open>
  No reading of an event is later than \<open>T\<close>, and the reading that sets a new cooldown is not
  earlier than \<open>t\<close>.
\<close>

fun readings_between :: "time \<Rightarrow> time \<Rightarrow> 'w controllerEvent \<Rightarrow> bool" where
  "readings_between t T (Result clk r) \<longleftrightarrow> t \<le> pk_until clk"
| "readings_between t T (CleanupTick clk) \<longleftrightarrow> (\<forall>k. snd clk k \<le> T)"
| "readings_between t T _ \<longleftrightarrow> True"

definition blocked :: "string \<Rightarrow> time \<Rightarrow> time \<Rightarrow> 'w controllerImpl \<Rightarrow> bool" where
  "blocked k until T c \<longleftrightarrow> until \<le> T \<or>
     (\<exists>st. GetState (co_stateStore c) k = Some st \<and> until \<le> rs_CooldownUntil st)"

lemma blocked_step:
  assumes "store_wf (co_stateStore (fst s))" "blocked k (t + cooldown (fst s)) T (fst s)" "readings_between t T ev"
  shows "blocked k (t + cooldown (fst s)) T (fst (controllerStep srt loc s ev))"
proof (cases s)
  case (Pair c w)
  show ?thesis
  proof (cases ev)
    case (Result clk r)
    with Pair assms show ?thesis
      by (auto simp: blocked_def processResult_get afterAct_def currentState_def split: option.splits)
  next
    case (CleanupTick clk)
    show ?thesis
    proof (cases "t + cooldown c \<le> T")
      case False
      then obtain st where st: "GetState (co_stateStore c) k = Some st" "t + cooldown c \<le> rs_CooldownUntil st"
        using assms Pair by (auto simp: blocked_def)
      moreover have "\<not> inactive (co_stateStore c) clk k st"
        using False st(2) assms(3) CleanupTick
        by (auto simp: inactive_def time_defs not_le dest: spec [of _ k])
      ultimately show ?thesis
        using Pair CleanupTick assms(1) rstore.cleanup_keeps [of "co_stateStore c" clk k st]
        by (auto simp: blocked_def cleanupTick_def)
    qed (use Pair in \<open>simp add: blocked_def\<close>)
  next
    case TakeResult
    with Pair assms show ?thesis by (auto simp: blocked_def chan_recv_def split: list.splits)
  next
    case (ClusterChange w')
    with Pair assms show ?thesis by simp
  qed
qed

lemma blocked_run:
  assumes "controller_inv (fst s)" "blocked k (t + cooldown (fst s)) T (fst s)"
    and "\<forall>ev \<in> set evs. readings_between t T ev"
  shows "blocked k (t + cooldown (fst s)) T (fst (controllerRun srt loc s evs))
    \<and> controller_inv (fst (controllerRun srt loc s evs))"
  using assms unfolding controllerRun_def
proof (induction evs arbitrary: s)
  case Nil
  then show ?case by simp
next
  case (Cons ev evs)
  have "blocked k (t + cooldown (fst s)) T (fst (controllerStep srt loc s ev))"
    using Cons.prems by (intro blocked_step) (auto simp: controller_inv_def)
  with Cons.IH [of "controllerStep srt loc s ev"] Cons.prems show ?case
    by (simp add: controllerStep_config controllerStep_inv)
qed

lemma blocked_acts:
  assumes "blocked (resultKey r) until T c" "acts c clk r w" "pk_cooldown clk \<le> T" "T \<le> pk_cooldown clk" "0 < until"
  shows "until \<le> pk_cooldown clk"
  using assms
  by (auto simp: blocked_def acts_def isInCooldown_def currentState_def time_defs not_less split: if_splits)

section \<open>Properties\<close>

text \<open>
  A sample cluster is the list of the actions that were executed. The sample executor accepts
  every resource that is not a Pod, and the sample resolver maps each Pod to a Deployment.
\<close>

definition sample_pod :: ResourceReference where
  "sample_pod = \<lparr>rr_APIVersion = ''v1'', rr_Kind = ''Pod'', rr_Namespace = ''prod'', rr_Name = ''web-1'', rr_UID = ''u1''\<rparr>"

definition sample_executor :: "(string \<times> string) list ActionExecutor" where
  "sample_executor ts r a w =
     (if rr_Kind r = ''Pod'' then ((zeroActionResult\<lparr>ar_Status := ActionStatusFailed\<rparr>, Some ''unsupported''), w)
      else ((zeroActionResult\<lparr>ar_Resource := r, ar_Action := a, ar_Status := ActionStatusSucceeded\<rparr>, None),
            w @ [(ac_Type a, rr_Key r)]))"

definition sample_resolver :: "(string \<times> string) list OwnerResolver" where
  "sample_resolver w r = (if rr_Kind r = ''Pod'' then (r\<lparr>rr_Kind := ''Deployment'', rr_Name := ''web''\<rparr>, None) else (r, None))"

definition sample_controller :: "(string \<times> string) list controllerImpl" where
  "sample_controller = newControllerImpl Default sample_executor (chan_make 9) None (Some sample_resolver) None"

definition sample_action_clock :: "time \<Rightarrow> action_clock" where
  "sample_action_clock t = \<lparr>ak_start = t, ak_exec = (t, t), ak_retry = (t, t), ak_id = t, ak_end = t\<rparr>"

definition sample_clock :: "time \<Rightarrow> result_clock" where
  "sample_clock t = \<lparr>pk_cooldown = t, pk_id = t, pk_start = t, pk_end = t, pk_publish = t,
     pk_action = (\<lambda>_. sample_action_clock t), pk_last = t, pk_until = t\<rparr>"

definition sample_result :: DetectionResult where
  "sample_result = \<lparr>dr_ID = ''d1'', dr_ScenarioID = ''S1'', dr_ScenarioName = ''crash'', dr_Resource = sample_pod,
     dr_Severity = ''high'', dr_FirstDetected = 1, dr_LastDetected = 1, dr_DetectionCount = 1,
     dr_ThresholdMet = True, dr_Message = '''', dr_Context = [],
     dr_RecommendedActions =
       [zeroAction\<lparr>ac_Type := ''notify'', ac_Order := 2\<rparr>, zeroAction\<lparr>ac_Type := ''scaleUp'', ac_Order := 1\<rparr>]\<rparr>"

lemma sample_controller_inv: "controller_inv sample_controller"
  by (simp add: sample_controller_def newControllerImpl_inv Default_def chan_wf_def chan_make_def)

lemma sample_fields [simp]:
  "pk_cooldown (sample_clock t) = t" "pk_until (sample_clock t) = t" "co_config sample_controller = Default"
  "rm_DefaultCooldown (cfg_Remediation Default) = 15 * Minute" "rm_DefaultMaxRetries (cfg_Remediation Default) = 3"
  by (simp_all add: sample_clock_def sample_controller_def newControllerImpl_def Default_def)

lemma sample_acts: "acts sample_controller (sample_clock t) sample_result w"
  by (simp add: acts_def sample_controller_def newControllerImpl_def admitted_def currentState_def GetState_def
      newInMemoryRemediationStateStore_def newState_def isInCooldown_def time_defs Default_def)

text \<open>
  In a run of a new controller without a cleanup, whatever results arrive and however the
  cluster changes, at most \<open>DefaultMaxRetries\<close> results for one scenario and resource trigger a
  remediation.
\<close>

theorem retry_budget:
  assumes "0 \<le> rm_DefaultMaxRetries (cfg_Remediation cfg)" "\<forall>ev \<in> set evs. \<not> isCleanup ev"
  shows "int (acted srt loc k (newControllerImpl cfg ex (chan_make n) pub res pol, w) evs)
    \<le> rm_DefaultMaxRetries (cfg_Remediation cfg)"
proof -
  have "controller_inv (newControllerImpl cfg ex (chan_make n) pub res pol)"
    using assms(1) by (rule newControllerImpl_inv) (simp add: chan_wf_def chan_make_def)
  with acted_budget [of "(newControllerImpl cfg ex (chan_make n) pub res pol, w)" evs k srt loc] assms(2)
  show ?thesis
    by (simp add: usedUp_def newControllerImpl_def newInMemoryRemediationStateStore_def GetState_def)
qed

theorem retry_budget_witness:
  "int (acted (sort_key ac_Order) UTC (resultKey sample_result)
     (newControllerImpl Default sample_executor (chan_make 9) None None None, [])
     [Result (sample_clock 1) sample_result, TakeResult, Result (sample_clock (100 * Hour)) sample_result]) \<le> 3"
  using retry_budget [of Default "[Result (sample_clock 1) sample_result, TakeResult, Result (sample_clock (100 * Hour)) sample_result]"
      "sort_key ac_Order" UTC "resultKey sample_result" sample_executor 9 None None None "[]"]
  by (simp add: isCleanup_def)

text \<open>
  C7. Two remediations of the same scenario and resource are at least \<open>DefaultCooldown\<close> apart:
  after one that read the clock at \<open>t\<close> to set its cooldown, and any events with readings in
  order, cleanups included, a result that is remediated reads an instant not before
  \<open>t + DefaultCooldown\<close>.
\<close>

theorem remediations_spaced:
  assumes "controller_inv c" "acts c clk r w"
    and "\<forall>ev \<in> set evs. readings_between (pk_until clk) (pk_cooldown clk') ev"
    and "controllerRun srt loc (processResult srt loc clk c r w) evs = (c', w')"
    and "acts c' clk' r' w'" "resultKey r' = resultKey r"
    and "0 < pk_until clk + rm_DefaultCooldown (cfg_Remediation (co_config c))"
  shows "pk_until clk + rm_DefaultCooldown (cfg_Remediation (co_config c)) \<le> pk_cooldown clk'"
proof -
  let ?s = "processResult srt loc clk c r w"
  have cfg: "co_config (fst ?s) = co_config c" by (simp add: processResult_frame)
  have "store_wf (co_stateStore c)" using assms(1) by (simp add: controller_inv_def)
  then have "blocked (resultKey r) (pk_until clk + cooldown (fst ?s)) (pk_cooldown clk') (fst ?s)"
    using assms(2) by (auto simp: blocked_def processResult_get afterAct_def cfg)
  then have "blocked (resultKey r) (pk_until clk + cooldown c) (pk_cooldown clk') c'"
    using blocked_run [of ?s "resultKey r" "pk_until clk" "pk_cooldown clk'" evs srt loc] assms(1,3,4) cfg
    by (simp add: processResult_inv)
  with assms(5-7) show ?thesis
    using blocked_acts [of r' "pk_until clk + cooldown c" "pk_cooldown clk'" c' clk' w'] by simp
qed

theorem remediations_spaced_witness:
  "\<not> acts (fst (processResult (sort_key ac_Order) UTC (sample_clock 1) sample_controller sample_result []))
      (sample_clock (10 * Minute)) sample_result
      (snd (processResult (sort_key ac_Order) UTC (sample_clock 1) sample_controller sample_result []))"
proof
  let ?s = "processResult (sort_key ac_Order) UTC (sample_clock 1) sample_controller sample_result []"
  assume a: "acts (fst ?s) (sample_clock (10 * Minute)) sample_result (snd ?s)"
  have run: "controllerRun (sort_key ac_Order) UTC ?s [] = (fst ?s, snd ?s)"
    by (simp add: controllerRun_def)
  have "pk_until (sample_clock 1) + rm_DefaultCooldown (cfg_Remediation (co_config sample_controller))
      \<le> pk_cooldown (sample_clock (10 * Minute))"
    by (rule remediations_spaced [OF sample_controller_inv sample_acts _ run a])
      (simp_all add: sample_fields go_simps)
  then show False by (simp add: sample_fields go_simps)
qed



text \<open>
  C12. In standalone mode a remediation executes the recommended actions in ascending order of
  \<open>Order\<close> and stops at the first failure: the results sent are those of a prefix of the sorted
  actions, only the last of them can be a failure, and unless it is one the prefix is the whole
  list.
\<close>

theorem sorted_until_failure:
  assumes "slice_sorter ac_Order srt" "acts c clk r w" "co_publisher c = None"
  shows "\<exists>ars sorted_actions. mset sorted_actions = mset (dr_RecommendedActions r)
    \<and> sorted (map ac_Order sorted_actions)
    \<and> actionTrace loc (pk_action clk) c r 0 sorted_actions w = (ars, snd (processResult srt loc clk c r w))
    \<and> co_outputCh (fst (processResult srt loc clk c r w)) = foldl chan_trySend (co_outputCh c) ars
    \<and> length ars \<le> length sorted_actions
    \<and> (\<forall>ar \<in> set (butlast ars). ar_Status ar \<noteq> ActionStatusFailed)
    \<and> (length ars < length sorted_actions \<longrightarrow> ars \<noteq> [] \<and> ar_Status (last ars) = ActionStatusFailed)"
proof -
  let ?as = "srt (dr_RecommendedActions r)"
  obtain ars w' where tr: "actionTrace loc (pk_action clk) c r 0 ?as w = (ars, w')" by (meson surj_pair)
  have "remediate srt loc clk c r w = (ars, lastStatus (rs_LastActionStatus (currentState c r)) ars, w')"
  proof (cases "dr_RecommendedActions r = []")
    case True
    then have "?as = []" using slice_sorterD(4) [OF assms(1), of "dr_RecommendedActions r"] by simp
    with tr True assms(3) show ?thesis by (simp add: remediate_def)
  qed (use tr assms(3) in \<open>simp add: remediate_def\<close>)
  then have "processResult srt loc clk c r w = (c\<lparr>co_outputCh := foldl chan_trySend (co_outputCh c) ars,
      co_stateStore := SetState (co_stateStore c) (resultKey r)
        (afterAct clk c r (lastStatus (rs_LastActionStatus (currentState c r)) ars))\<rparr>, w')"
    by (rule processResult_acts [OF assms(2)])
  with tr actionTrace_prefix [OF tr] slice_sorterD [OF assms(1), of "dr_RecommendedActions r"] show ?thesis
    by (intro exI [of _ ars] exI [of _ ?as]) simp
qed

theorem sorted_until_failure_witness:
  "\<exists>ars as. mset as = mset (dr_RecommendedActions sample_result) \<and> sorted (map ac_Order as)
    \<and> actionTrace UTC (pk_action (sample_clock 1)) sample_controller sample_result 0 as []
        = (ars, snd (processResult (sort_key ac_Order) UTC (sample_clock 1) sample_controller sample_result []))"
  using sorted_until_failure [OF slice_sorter_sort_key sample_acts, of UTC 1 "[]"]
  by (fastforce simp: sample_controller_def newControllerImpl_def)

lemma dryRun_trace:
  assumes "rm_DryRun (cfg_Remediation (co_config c))"
  shows "snd (actionTrace loc clk c r i as w) = w
    \<and> map ar_Status (fst (actionTrace loc clk c r i as w)) = replicate (length as) ActionStatusDryRun
    \<and> map ar_Action (fst (actionTrace loc clk c r i as w)) = as"
  using assms
  by (induction as arbitrary: i) (simp_all add: executeAction_def Let_def case_prod_beta)

lemma dry_run_world:
  assumes "rm_DryRun (cfg_Remediation (co_config c))" "co_publisher c = None" "slice_sorter ac_Order srt"
  shows "snd (processResult srt loc clk c r w) = w"
proof (cases "acts c clk r w")
  case True
  let ?as = "srt (dr_RecommendedActions r)"
  obtain ars w' where tr: "actionTrace loc (pk_action clk) c r 0 ?as w = (ars, w')" by (meson surj_pair)
  with dryRun_trace [OF assms(1), of loc "pk_action clk" r 0 ?as w] have dry: "w' = w" "map ar_Action ars = ?as"
    by simp_all
  have "?as = []" if "dr_RecommendedActions r = []"
    using slice_sorterD(4) [OF assms(3), of "dr_RecommendedActions r"] that by simp
  then have "remediate srt loc clk c r w = (ars, lastStatus (rs_LastActionStatus (currentState c r)) ars, w)"
    using tr dry assms(2) by (auto simp: remediate_def)
  from processResult_acts [OF True this] show ?thesis by simp
qed (simp add: processResult_world)

text \<open>
  In standalone mode with dry-run configured, no result whatsoever changes the cluster, and
  a remediation reports every recommended action once, in sorted order, as a dry run.
\<close>

theorem dry_run_harmless:
  assumes "rm_DryRun (cfg_Remediation (co_config c))" "co_publisher c = None" "slice_sorter ac_Order srt"
  shows "snd (processResult srt loc clk c r w) = w
    \<and> (acts c clk r w \<longrightarrow> (\<exists>ars. co_outputCh (fst (processResult srt loc clk c r w)) = foldl chan_trySend (co_outputCh c) ars
        \<and> map ar_Action ars = srt (dr_RecommendedActions r) \<and> (\<forall>ar \<in> set ars. ar_Status ar = ActionStatusDryRun)))"
proof (cases "acts c clk r w")
  case True
  let ?as = "srt (dr_RecommendedActions r)"
  obtain ars w' where tr: "actionTrace loc (pk_action clk) c r 0 ?as w = (ars, w')" by (meson surj_pair)
  with dryRun_trace [OF assms(1), of loc "pk_action clk" r 0 ?as w]
  have dry: "w' = w" "map ar_Status ars = replicate (length ?as) ActionStatusDryRun" "map ar_Action ars = ?as"
    by simp_all
  have "?as = []" if "dr_RecommendedActions r = []"
    using slice_sorterD(4) [OF assms(3), of "dr_RecommendedActions r"] that by simp
  then have "remediate srt loc clk c r w = (ars, lastStatus (rs_LastActionStatus (currentState c r)) ars, w)"
    using tr dry(1,3) assms(2) by (auto simp: remediate_def)
  from processResult_acts [OF True this] dry(2,3) show ?thesis
    by (auto intro!: exI [of _ ars]) (metis in_set_replicate image_eqI set_map)
next
  case False
  then show ?thesis by (simp add: processResult_world)
qed

theorem dry_run_harmless_witness:
  "snd (processResult (sort_key ac_Order) UTC (sample_clock 1)
     (sample_controller\<lparr>co_config := set_DryRun Default\<rparr>) sample_result []) = []"
  using dry_run_harmless [of "sample_controller\<lparr>co_config := set_DryRun Default\<rparr>" "sort_key ac_Order" UTC
      "sample_clock 1" sample_result "[]"]
  by (simp add: set_DryRun_def slice_sorter_sort_key sample_controller_def newControllerImpl_def)

text \<open>What a remediation does in leader mode.\<close>

lemma leader_world:
  assumes "acts c clk r w" "co_publisher c = Some publish" "dr_RecommendedActions r \<noteq> []"
    and "\<forall>resolve. co_ownerResolver c = Some resolve \<longrightarrow> resolve w (dr_Resource r) = (target, None)"
    and "co_ownerResolver c = None \<longrightarrow> target = dr_Resource r"
    and "target = dr_Resource r \<or> rr_Key target \<noteq> rr_Key (dr_Resource r)"
  shows "snd (processResult srt loc clk c r w) = snd (publish (pk_publish clk) r target w)
    \<and> co_outputCh (fst (processResult srt loc clk c r w)) = co_outputCh c"
proof -
  have pub: "snd (publishTask (pk_publish clk) publish c r st w) = snd (publish (pk_publish clk) r target w)" for st
    using assms(3-6) by (auto simp: publishTask_def Let_def split: prod.splits option.splits)
  obtain st w' where p: "publishTask (pk_publish clk) publish c r (currentState c r) w = (st, w')"
    by (meson surj_pair)
  then have "remediate srt loc clk c r w = ([], rs_LastActionStatus st, w')"
    using assms(2) by (simp add: remediate_def)
  from processResult_acts [OF assms(1) this] pub [of "currentState c r"] p show ?thesis by simp
qed

text \<open>
  In leader mode a remediation publishes one task for the resolved workload and executes
  nothing locally, and it does so with dry-run configured as well: the configured dry-run has no
  effect on what is published.
\<close>

theorem leader_publishes:
  assumes "acts c clk r w" "co_publisher c = Some publish" "dr_RecommendedActions r \<noteq> []"
    and "\<forall>resolve. co_ownerResolver c = Some resolve \<longrightarrow> resolve w (dr_Resource r) = (target, None)"
    and "co_ownerResolver c = None \<longrightarrow> target = dr_Resource r"
    and "target = dr_Resource r \<or> rr_Key target \<noteq> rr_Key (dr_Resource r)"
  shows "snd (processResult srt loc clk c r w) = snd (publish (pk_publish clk) r target w)
    \<and> co_outputCh (fst (processResult srt loc clk c r w)) = co_outputCh c
    \<and> snd (processResult srt loc clk (c\<lparr>co_config := set_DryRun (co_config c)\<rparr>) r w)
        = snd (processResult srt loc clk c r w)"
proof -
  let ?dry = "c\<lparr>co_config := set_DryRun (co_config c)\<rparr>"
  have "acts ?dry clk r w"
    using assms(1) by (simp add: acts_def admitted_def currentState_def set_DryRun_def)
  then have "snd (processResult srt loc clk ?dry r w) = snd (publish (pk_publish clk) r target w)"
    using leader_world [of ?dry clk r w publish target srt loc] assms(2-6) by simp
  with leader_world [OF assms, of srt loc] show ?thesis by simp
qed

theorem leader_publishes_witness:
  "snd (processResult (sort_key ac_Order) UTC (sample_clock 1)
     (sample_controller\<lparr>co_publisher := Some (\<lambda>t r target w. (None, w @ [(''task'', rr_Key target)])),
        co_config := set_DryRun Default\<rparr>) sample_result [])
   = [(''task'', ''Deployment/prod/web'')]"
proof -
  let ?c = "sample_controller\<lparr>co_publisher := Some (\<lambda>t r target w. (None, w @ [(''task'', rr_Key target)]))\<rparr>"
  have "acts ?c (sample_clock 1) sample_result []"
    using sample_acts [of 1 "[]"] by (simp add: acts_def admitted_def currentState_def)
  from leader_publishes [OF this, where target = "sample_pod\<lparr>rr_Kind := ''Deployment'', rr_Name := ''web''\<rparr>"]
  show ?thesis
    by (simp add: sample_result_def sample_controller_def newControllerImpl_def sample_resolver_def sample_pod_def
        rr_Key_def)
qed

text \<open>
  When the executor rejects the detected resource and the resolver gives another one, the
  action is tried once more on that one, in the cluster the first attempt left; a success there
  is the result of the action, a second error is reported against the detected resource.
\<close>

theorem owner_retry:
  assumes "\<not> rm_DryRun (cfg_Remediation (co_config c))" "co_ownerResolver c = Some resolve"
    and "co_executor c (ak_exec clk) (dr_Resource r) a w = ((first, Some err), w1)"
    and "resolve w1 (dr_Resource r) = (owner, None)" "rr_Key owner \<noteq> rr_Key (dr_Resource r)"
    and "co_executor c (ak_retry clk) owner a w1 = ((second, err2), w2)"
  shows "snd (executeAction loc clk c r a w) = w2
    \<and> (err2 = None \<longrightarrow> ar_Status (fst (executeAction loc clk c r a w)) = ar_Status second
         \<and> ar_Resource (fst (executeAction loc clk c r a w)) = ar_Resource second)
    \<and> (err2 = Some e \<longrightarrow> ar_Status (fst (executeAction loc clk c r a w)) = ActionStatusFailed
         \<and> ar_Resource (fst (executeAction loc clk c r a w)) = dr_Resource r
         \<and> ar_Error (fst (executeAction loc clk c r a w)) = e)"
  using assms by (cases err2) (simp_all add: executeAction_def Let_def)

theorem owner_retry_witness:
  "snd (executeAction UTC (sample_action_clock 1) sample_controller sample_result (zeroAction\<lparr>ac_Type := ''scaleUp''\<rparr>) [])
     = [(''scaleUp'', ''Deployment/prod/web'')]"
proof -
  let ?owner = "sample_pod\<lparr>rr_Kind := ''Deployment'', rr_Name := ''web''\<rparr>" and ?a = "zeroAction\<lparr>ac_Type := ''scaleUp''\<rparr>"
  have "rr_Key ?owner = ''Deployment/prod/web''" "rr_Key sample_pod = ''Pod/prod/web-1''"
    by (simp_all add: rr_Key_def sample_pod_def)
  then show ?thesis
    using owner_retry [where c = sample_controller and resolve = sample_resolver and r = sample_result and a = ?a
        and clk = "sample_action_clock 1" and loc = UTC and w = "[]" and ?w1.0 = "[]" and owner = ?owner
        and ?w2.0 = "[(''scaleUp'', ''Deployment/prod/web'')]" and ?err2.0 = None and err = "''unsupported''"
        and first = "zeroActionResult\<lparr>ar_Status := ActionStatusFailed\<rparr>"
        and second = "zeroActionResult\<lparr>ar_Resource := ?owner, ar_Action := ?a, ar_Status := ActionStatusSucceeded\<rparr>"]
    by (simp add: sample_controller_def newControllerImpl_def Default_def sample_executor_def sample_resolver_def
        sample_result_def) (simp add: sample_pod_def zeroAction_def)
qed

text \<open>
  C10. Every state that a new controller reaches is well formed: each remediation state is
  stored under its key, its count lies between zero and \<open>DefaultMaxRetries\<close>, only a state with
  all retries used is escalated, and the output channel never exceeds its capacity.
\<close>

theorem controller_invariant:
  assumes "0 \<le> rm_DefaultMaxRetries (cfg_Remediation cfg)"
  shows "controller_inv (fst (controllerRun srt loc (newControllerImpl cfg ex (chan_make n) pub res pol, w) evs))"
proof -
  have start: "controller_inv (fst (newControllerImpl cfg ex (chan_make n) pub res pol, w))"
    using assms by (simp add: newControllerImpl_inv chan_wf_def chan_make_def)
  have "controller_inv (fst s) \<Longrightarrow> controller_inv (fst (controllerRun srt loc s evs))" for s
    unfolding controllerRun_def by (induction evs arbitrary: s) (simp_all add: controllerStep_inv)
  from this [OF start] show ?thesis .
qed

theorem controller_invariant_witness:
  "controller_inv (fst (controllerRun (sort_key ac_Order) UTC
     (newControllerImpl Default sample_executor (chan_make 2) None (Some sample_resolver) None, [])
     [Result (sample_clock 5) sample_result, CleanupTick (9, \<lambda>_. 9), TakeResult]))"
  by (rule controller_invariant) simp

text \<open>
  Escalation is forgotten by cleanup: the state of an escalated key whose last remediation
  is more than thirty minutes old and whose cooldown is over is removed, and the next admitted
  result for the key is remediated again.
\<close>

theorem escalation_forgotten:
  assumes "controller_inv c" "GetState (co_stateStore c) (resultKey r) = Some st" "rs_Escalated st"
    and "rs_LastRemediation st < fst ct - 30 * Minute" "rs_CooldownUntil st < snd ct (resultKey r)"
    and "admitted c r w" "0 < rm_DefaultMaxRetries (cfg_Remediation (co_config c))"
  shows "\<not> acts c clk r w \<and> acts (cleanupTick ct c) clk r w"
proof -
  have "entry_ok (maxRetries c) (resultKey r) st" using assms(1,2) by (simp add: controller_inv_def)
  then have "\<not> acts c clk r w"
    using assms(2,3) by (simp add: acts_def currentState_def entry_ok_def)
  moreover have "GetState (co_stateStore (cleanupTick ct c)) (resultKey r) = None"
    using assms(1,2,4,5) by (simp add: cleanupTick_def rstore.cleanup_drops controller_inv_def inactive_def time_defs)
  then have "acts (cleanupTick ct c) clk r w"
    using assms(6,7) by (simp add: acts_def currentState_def newState_def isInCooldown_def time_defs cleanupTick_def admitted_def)
  ultimately show ?thesis by simp
qed

theorem escalation_forgotten_witness:
  "acts (cleanupTick (100 * Hour, \<lambda>_. 100 * Hour) (sample_controller\<lparr>co_stateStore :=
       \<lparr>rst_states = [(resultKey sample_result, (newState sample_result)\<lparr>rs_RemediationCount := 3, rs_Escalated := True\<rparr>)]\<rparr>\<rparr>))
     (sample_clock 1) sample_result []"
  by (rule conjunct2 [OF escalation_forgotten [where st = "(newState sample_result)\<lparr>rs_RemediationCount := 3, rs_Escalated := True\<rparr>"]])
    (simp_all add: controller_inv_def store_wf_def map_wf_def GetState_def entry_ok_def newState_def
      sample_result_def sample_controller_def newControllerImpl_def chan_wf_def chan_make_def admitted_def go_simps)

end
