(* ===== verification/CRDLoader.thy ===== *)
theory CRDLoader
  imports Detection Policy
begin

text \<open>
  The custom resource \<open>ScenarioLibrary\<close> (\<open>api/v1alpha1/scenariolibrary_types.go\<close>) and the loader of
  \<open>internal/crdloader/loader.go\<close> that converts it into the scenarios of the detection engine,
  lists the policies and triggers reloads from a watch. The Kubernetes client is an argument: a
  listing of a cluster of type \<open>'w\<close>, and the items a watch delivers.
\<close>

section \<open>The custom resource\<close>

record crdResourceFilter =
  crf_Kind :: string
  crf_APIVersion :: string

record ThresholdSpec =
  tsp_Count :: int
  tsp_Window :: duration

record DetectionSpec =
  dsp_Source :: string
  dsp_Resource :: "crdResourceFilter option"
  dsp_Expression :: string
  dsp_Threshold :: "ThresholdSpec option"
  dsp_Duration :: "duration option"

record ActionSpec =
  asp_Type :: string
  asp_Order :: int
  asp_Params :: "(string, string) gomap"
  asp_If :: string
  asp_Unless :: string

record NotifySpec =
  nsp_Severity :: string
  nsp_Channels :: "string list"
  nsp_Message :: string

record EscalationSpec =
  esp_Notify :: "NotifySpec option"
  esp_CreateEvent :: bool
  esp_MarkResource :: bool

record RemediationSpec =
  rsp_Actions :: "ActionSpec list"
  rsp_Cooldown :: "duration option"
  rsp_MaxRetries :: int
  rsp_Escalation :: "EscalationSpec option"

record ParameterSpec =
  psp_Name :: string
  psp_Type :: string
  psp_Description :: string
  psp_Default :: string
  psp_Required :: bool

record DocumentationSpec =
  dos_Summary :: string
  dos_RootCauses :: "string list"
  dos_ManualSteps :: "string list"
  dos_RunbookURL :: string

record Scenario =
  sce_ID :: int
  sce_Name :: string
  sce_Description :: string
  sce_Enabled :: bool
  sce_Severity :: string
  sce_Category :: string
  sce_Detection :: DetectionSpec
  sce_Remediation :: RemediationSpec
  sce_Parameters :: "ParameterSpec list"
  sce_Documentation :: DocumentationSpec

record ScenarioLibrarySpec =
  sls_Scenarios :: "(string, Scenario) gomap"

record ScenarioLibrary =
  sl_Name :: string
  sl_Spec :: ScenarioLibrarySpec

record ScenarioLibraryList =
  sll_ResourceVersion :: string
  sll_Items :: "ScenarioLibrary list"

section \<open>Conversion\<close>

definition mapSeverity :: "string \<Rightarrow> Severity" where
  "mapSeverity s =
     (if s = ''low'' then SeverityLow
      else if s = ''medium'' then SeverityMedium
      else if s = ''high'' then SeverityHigh
      else if s = ''critical'' then SeverityCritical
      else SeverityMedium)"

definition convertAction :: "ActionSpec \<Rightarrow> ActionConfig" where
  "convertAction a = zeroAction\<lparr>ac_Type := asp_Type a, ac_Order := asp_Order a,
     ac_Params := map (\<lambda>(k, v). (k, GString v)) (asp_Params a)\<rparr>"

definition convertActions :: "ActionSpec list \<Rightarrow> ActionConfig list" where
  "convertActions specs = map convertAction specs"

text \<open>The error result of the source is always nil; the caller handles one all the same.\<close>

definition convertScenario :: "string \<Rightarrow> Scenario \<Rightarrow> string + LoadedScenario" where
  "convertScenario key s = Inr
     \<lparr>ls_ID = ''S'' @ int_dec (sce_ID s), ls_Name = sce_Name s, ls_Enabled = sce_Enabled s,
      ls_Severity = mapSeverity (sce_Severity s), ls_Source = dsp_Source (sce_Detection s),
      ls_Expression = dsp_Expression (sce_Detection s),
      ls_Resource = (case dsp_Resource (sce_Detection s) of None \<Rightarrow> None
        | Some f \<Rightarrow> Some \<lparr>rf_Kind = crf_Kind f, rf_APIVersion = crf_APIVersion f\<rparr>),
      ls_Threshold = (case dsp_Threshold (sce_Detection s) of None \<Rightarrow> None
        | Some t \<Rightarrow> Some \<lparr>th_Count = tsp_Count t, th_Window = tsp_Window t\<rparr>),
      ls_Actions = convertActions (rsp_Actions (sce_Remediation s))\<rparr>"

fun convertLibrary :: "(string \<times> Scenario) list \<Rightarrow> LoadedScenario list \<Rightarrow> LoadedScenario list" where
  "convertLibrary [] scenarios = scenarios"
| "convertLibrary ((key, s) # rest) scenarios =
     (case convertScenario key s of
        Inl err \<Rightarrow> convertLibrary rest scenarios
      | Inr loaded \<Rightarrow> convertLibrary rest (scenarios @ [loaded]))"

fun convertLibraries :: "ScenarioLibrary list \<Rightarrow> LoadedScenario list \<Rightarrow> LoadedScenario list" where
  "convertLibraries [] scenarios = scenarios"
| "convertLibraries (sl # rest) scenarios =
     convertLibraries rest (convertLibrary (sls_Scenarios (sl_Spec sl)) scenarios)"

section \<open>Listing\<close>

record ('w, 'l) crd_client =
  cl_ListScenarioLibraries :: "'w \<Rightarrow> string + ScenarioLibraryList"
  cl_ListPolicies :: "'w \<Rightarrow> string + 'l ClusterRemediationPolicy list"

definition LoadCRDScenarios :: "('w, 'l) crd_client \<Rightarrow> 'w \<Rightarrow> string + LoadedScenario list" where
  "LoadCRDScenarios client w =
     (case cl_ListScenarioLibraries client w of
        Inl err \<Rightarrow> Inl (''list ScenarioLibrary CRDs: '' @ err)
      | Inr list \<Rightarrow> Inr (convertLibraries (sll_Items list) []))"

definition LoadRemediationPolicies ::
  "('w, 'l) crd_client \<Rightarrow> 'w \<Rightarrow> string + 'l ClusterRemediationPolicy list" where
  "LoadRemediationPolicies client w =
     (case cl_ListPolicies client w of
        Inl err \<Rightarrow> Inl (''list ClusterRemediationPolicy CRDs: '' @ err)
      | Inr items \<Rightarrow> Inr items)"

section \<open>Watching\<close>

datatype watchEventType = Added | Modified | Deleted | Bookmark | WatchError

text \<open>What the select of the watch loop receives next.\<close>

datatype watchInput = CtxDone | WatchEvent watchEventType | ChannelClosed

text \<open>The inner loop, with the number of calls of \<open>onReload\<close>; it runs until an input ends it.\<close>

fun watchSelect :: "watchInput list \<Rightarrow> nat \<Rightarrow> (string option \<times> nat) option" where
  "watchSelect [] reloads = None"
| "watchSelect (CtxDone # _) reloads = Some (None, reloads)"
| "watchSelect (ChannelClosed # _) reloads = Some (Some ''watch channel closed'', reloads)"
| "watchSelect (WatchEvent t # rest) reloads =
     watchSelect rest (if t = Added \<or> t = Modified \<or> t = Deleted then reloads + 1 else reloads)"

text \<open>\<open>startWatch\<close> opens the watch at a resource version and gives what it will deliver.\<close>

definition watchScenarioLibrariesLoop ::
  "('w, 'l) crd_client \<Rightarrow> (string \<Rightarrow> string + watchInput list) \<Rightarrow> 'w \<Rightarrow> (string option \<times> nat) option" where
  "watchScenarioLibrariesLoop client startWatch w =
     (case cl_ListScenarioLibraries client w of
        Inl err \<Rightarrow> Some (Some (''list for watch: '' @ err), 0)
      | Inr list \<Rightarrow>
          (let rv = (if sll_ResourceVersion list = '''' then ''1'' else sll_ResourceVersion list) in
           case startWatch rv of
             Inl err \<Rightarrow> Some (Some (''start watch: '' @ err), 0)
           | Inr inputs \<Rightarrow> watchSelect inputs 0))"

text \<open>The outer loop over the sessions of the inner one; the result is the number of reloads.\<close>

definition WatchScenarioLibraries :: "((string option \<times> nat) \<times> bool \<times> bool) list \<Rightarrow> nat option" where
  "WatchScenarioLibraries sessions = map_option sum_list (retryLoop sessions [])"

section \<open>What the loops compute\<close>

definition converted :: "Scenario \<Rightarrow> LoadedScenario" where
  "converted s = (case convertScenario '''' s of Inr l \<Rightarrow> l)"

lemma convertScenario_key: "convertScenario key s = Inr (converted s)"
  by (simp add: converted_def convertScenario_def)

lemma convertLibrary_eq: "convertLibrary ks acc = acc @ map (converted \<circ> snd) ks"
  by (induction ks arbitrary: acc) (auto simp: convertScenario_key)

lemma convertLibraries_eq:
  "convertLibraries sls acc = acc @ concat (map (\<lambda>sl. map (converted \<circ> snd) (sls_Scenarios (sl_Spec sl))) sls)"
  by (induction sls arbitrary: acc) (auto simp: convertLibrary_eq)

lemma converted_ID [simp]: "ls_ID (converted s) = ''S'' @ int_dec (sce_ID s)"
  by (simp add: converted_def convertScenario_def)

lemma converted_no_slash: "no_slash (ls_ID (converted s))"
  using int_dec_no_slash by (simp add: no_slash_def)

lemma LoadCRDScenarios_mem:
  assumes "LoadCRDScenarios client w = Inr scs" "sc \<in> set scs"
  obtains s where "sc = converted s"
  using assms by (auto simp: LoadCRDScenarios_def convertLibraries_eq split: sum.splits)

section \<open>Properties\<close>

text \<open>A sample library with one scenario.\<close>

definition sample_crd_scenario :: "int \<Rightarrow> Scenario" where
  "sample_crd_scenario n = \<lparr>sce_ID = n, sce_Name = ''crash'', sce_Description = '''', sce_Enabled = True,
     sce_Severity = ''high'', sce_Category = '''',
     sce_Detection = \<lparr>dsp_Source = ''kubernetes'', dsp_Resource = None, dsp_Expression = ''true'',
       dsp_Threshold = Some \<lparr>tsp_Count = 2, tsp_Window = Minute\<rparr>, dsp_Duration = None\<rparr>,
     sce_Remediation = \<lparr>rsp_Actions = [\<lparr>asp_Type = ''restartPod'', asp_Order = 1, asp_Params = [],
       asp_If = ''false'', asp_Unless = ''''\<rparr>], rsp_Cooldown = None, rsp_MaxRetries = 5, rsp_Escalation = None\<rparr>,
     sce_Parameters = [], sce_Documentation = \<lparr>dos_Summary = '''', dos_RootCauses = [], dos_ManualSteps = [], dos_RunbookURL = ''''\<rparr>\<rparr>"

definition sample_client :: "(unit, unit) crd_client" where
  "sample_client = \<lparr>cl_ListScenarioLibraries = (\<lambda>_. Inr \<lparr>sll_ResourceVersion = '''',
       sll_Items = [\<lparr>sl_Name = ''lib'', sl_Spec = \<lparr>sls_Scenarios =
         [(''a'', sample_crd_scenario 1001), (''b'', sample_crd_scenario 1002)]\<rparr>\<rparr>]\<rparr>),
     cl_ListPolicies = (\<lambda>_. Inr [])\<rparr>"

lemma sample_client_loads:
  "LoadCRDScenarios sample_client () = Inr [converted (sample_crd_scenario 1001), converted (sample_crd_scenario 1002)]"
  by (simp add: LoadCRDScenarios_def sample_client_def convertLibraries_eq)

text \<open>
  The state keys of the scenarios a cluster provides never collide: for scenarios loaded from
  custom resources and resources whose kind and namespace contain no slash, equal keys mean the
  same numeric scenario identifier and the same kind, namespace and name.
\<close>

theorem loaded_keys_distinct:
  assumes "LoadCRDScenarios client w = Inr scs" "sc \<in> set scs" "sc' \<in> set scs"
    and "no_slash (rr_Kind r)" "no_slash (rr_Namespace r)" "no_slash (rr_Kind r')" "no_slash (rr_Namespace r')"
  shows "StateKey (ls_ID sc) r = StateKey (ls_ID sc') r' \<longleftrightarrow>
    ls_ID sc = ls_ID sc' \<and> rr_Kind r = rr_Kind r' \<and> rr_Namespace r = rr_Namespace r' \<and> rr_Name r = rr_Name r'"
proof -
  obtain s s' where "sc = converted s" "sc' = converted s'"
    using assms(1-3) LoadCRDScenarios_mem by metis
  then show ?thesis
    using assms(4-) by (simp add: StateKey_eq_iff converted_no_slash rr_Key_eq_iff same_object_def del: converted_ID)
qed

theorem loaded_keys_distinct_witness:
  "StateKey (ls_ID (converted (sample_crd_scenario 1001))) sample_resource
     \<noteq> StateKey (ls_ID (converted (sample_crd_scenario 1002))) sample_resource"
  using loaded_keys_distinct [OF sample_client_loads, of "converted (sample_crd_scenario 1001)"
      "converted (sample_crd_scenario 1002)" sample_resource sample_resource]
  by (simp add: no_slash_def sample_resource_def sample_crd_scenario_def)

text \<open>
  C40. The conversion keeps, for each scenario of each library and in order, the identifier
  printed after an S, the detection rule with its filters and threshold and the actions with
  their type, order and parameters; and nothing else: the conditions \<open>if\<close> and \<open>unless\<close> of actions,
  the duration of the detection and the scenario's own cooldown, retry limit and escalation have
  no influence on what is loaded.
\<close>

theorem conversion_exact:
  assumes "cl_ListScenarioLibraries client w = Inr list"
  shows "LoadCRDScenarios client w = Inr
    (map (\<lambda>(key, s). \<lparr>ls_ID = ''S'' @ int_dec (sce_ID s), ls_Name = sce_Name s, ls_Enabled = sce_Enabled s,
        ls_Severity = (if sce_Severity s \<in> {''low'', ''high'', ''critical''} then sce_Severity s else ''medium''),
        ls_Source = dsp_Source (sce_Detection s), ls_Expression = dsp_Expression (sce_Detection s),
        ls_Resource = map_option (\<lambda>f. \<lparr>rf_Kind = crf_Kind f, rf_APIVersion = crf_APIVersion f\<rparr>) (dsp_Resource (sce_Detection s)),
        ls_Threshold = map_option (\<lambda>t. \<lparr>th_Count = tsp_Count t, th_Window = tsp_Window t\<rparr>) (dsp_Threshold (sce_Detection s)),
        ls_Actions = map (\<lambda>a. \<lparr>ac_Type = asp_Type a, ac_Order = asp_Order a,
            ac_Params = map (\<lambda>(k, v). (k, GString v)) (asp_Params a), ac_Conditions = []\<rparr>) (rsp_Actions (sce_Remediation s))\<rparr>)
      (concat (map (\<lambda>sl. sls_Scenarios (sl_Spec sl)) (sll_Items list))))"
proof -
  have severity: "mapSeverity v = (if v \<in> {''low'', ''high'', ''critical''} then v else ''medium'')" for v
    by (auto simp: mapSeverity_def severity_defs)
  have action: "convertAction = (\<lambda>a. \<lparr>ac_Type = asp_Type a, ac_Order = asp_Order a,
      ac_Params = map (\<lambda>(k, v). (k, GString v)) (asp_Params a), ac_Conditions = []\<rparr>)"
    by (simp add: convertAction_def zeroAction_def fun_eq_iff)
  show ?thesis
    using assms
    by (simp add: LoadCRDScenarios_def convertLibraries_eq map_concat comp_def case_prod_unfold converted_def
        convertScenario_def convertActions_def severity action option.map_comp map_option_case)
qed

theorem conversion_exact_witness:
  "LoadCRDScenarios sample_client () = Inr [\<lparr>ls_ID = ''S1001'', ls_Name = ''crash'', ls_Enabled = True, ls_Severity = ''high'',
     ls_Source = ''kubernetes'', ls_Expression = ''true'', ls_Resource = None,
     ls_Threshold = Some \<lparr>th_Count = 2, th_Window = Minute\<rparr>,
     ls_Actions = [\<lparr>ac_Type = ''restartPod'', ac_Order = 1, ac_Params = [], ac_Conditions = []\<rparr>]\<rparr>,
     \<lparr>ls_ID = ''S1002'', ls_Name = ''crash'', ls_Enabled = True, ls_Severity = ''high'',
     ls_Source = ''kubernetes'', ls_Expression = ''true'', ls_Resource = None,
     ls_Threshold = Some \<lparr>th_Count = 2, th_Window = Minute\<rparr>,
     ls_Actions = [\<lparr>ac_Type = ''restartPod'', ac_Order = 1, ac_Params = [], ac_Conditions = []\<rparr>]\<rparr>]"
proof -
  have list: "cl_ListScenarioLibraries sample_client () = Inr \<lparr>sll_ResourceVersion = '''',
       sll_Items = [\<lparr>sl_Name = ''lib'', sl_Spec = \<lparr>sls_Scenarios =
         [(''a'', sample_crd_scenario 1001), (''b'', sample_crd_scenario 1002)]\<rparr>\<rparr>]\<rparr>"
    by (simp add: sample_client_def)
  have "int_dec 1001 = ''1001''" "int_dec 1002 = ''1002''"
    by (simp_all add: int_dec_def nat_dec.simps)
  then show ?thesis
    unfolding conversion_exact [OF list] by (simp add: sample_crd_scenario_def)
qed

end
