(* ===== verification/Monitor.thy ===== *)
theory Monitor
  imports Config Types
begin

text \<open>
  The inputs of the pipeline, \<open>internal/monitor\<close>: the Kubernetes informers and the OpenTelemetry
  receiver turn what they observe into \<open>DetectionInput\<close> values on one shared channel, without
  blocking. JSON encoding, the informer machinery and the OTLP server are arguments. The channel is
  passed to each handler and returned, since both monitors write to it.
\<close>

section \<open>Kubernetes objects\<close>

record Pod =
  pod_Namespace :: string
  pod_Name :: string
  pod_UID :: string

record ObjectReference =
  ob_APIVersion :: string
  ob_Kind :: string
  ob_Namespace :: string
  ob_Name :: string
  ob_UID :: string

record Event =
  ev_Namespace :: string
  ev_Name :: string
  ev_Reason :: string
  ev_InvolvedObject :: ObjectReference

text \<open>What an informer hands to a handler as \<open>interface{}\<close>; the rest of the object is of type \<open>'o\<close>.\<close>

datatype 'o informerObj = PodObj Pod 'o | EventObj Event 'o | OtherObj 'o

text \<open>\<open>json.Marshal\<close> and \<open>json.Unmarshal\<close> into a map.\<close>

record 'o jsonCodec =
  js_Marshal :: "'o informerObj \<Rightarrow> string + string"
  js_Unmarshal :: "string \<Rightarrow> string + params"

definition objectToMap :: "'o jsonCodec \<Rightarrow> 'o informerObj \<Rightarrow> string + params" where
  "objectToMap js obj =
     (case js_Marshal js obj of
        Inl err \<Rightarrow> Inl err
      | Inr raw \<Rightarrow> (case js_Unmarshal js raw of Inl err \<Rightarrow> Inl err | Inr m \<Rightarrow> Inr m))"

section \<open>The Kubernetes monitor\<close>

record k8sMonitorImpl =
  km_config :: Config
  km_ready :: bool
  km_stopped :: bool

definition newK8sMonitorImpl :: "Config \<Rightarrow> k8sMonitorImpl" where
  "newK8sMonitorImpl cfg = \<lparr>km_config = cfg, km_ready = False, km_stopped = False\<rparr>"

fun nsIn :: "string \<Rightarrow> string list \<Rightarrow> bool" where
  "nsIn ns [] = False"
| "nsIn ns (excluded # rest) = (if ns = excluded then True else nsIn ns rest)"

definition isExcludedNamespace :: "k8sMonitorImpl \<Rightarrow> string \<Rightarrow> bool" where
  "isExcludedNamespace m ns = nsIn ns (kc_ExcludedNamespaces (cfg_Kubernetes (km_config m)))"

text \<open>\<open>Time.UnixNano\<close>: nanoseconds since the epoch, as a 64-bit integer.\<close>

definition UnixNano :: "time \<Rightarrow> int" where
  "UnixNano t = wrap64 (t - 719162 * 86400 * 1000000000)"

text \<open>\<open>now\<close> holds the two readings of the clock, for the identifier and for the timestamp.\<close>

definition podToDetectionInput ::
  "'o jsonCodec \<Rightarrow> time \<times> time \<Rightarrow> Pod \<Rightarrow> 'o \<Rightarrow> string \<Rightarrow> string + DetectionInput" where
  "podToDetectionInput js now pod rest eventType =
     (case objectToMap js (PodObj pod rest) of
        Inl err \<Rightarrow> Inl (''marshal pod: '' @ err)
      | Inr m \<Rightarrow> Inr \<lparr>di_ID = ''k8s-pod-'' @ pod_Namespace pod @ ''-'' @ pod_Name pod @ ''-'' @ int_dec (UnixNano (fst now)),
          di_Source = DetectionSourceKubernetes,
          di_Resource = \<lparr>rr_APIVersion = ''v1'', rr_Kind = ''Pod'', rr_Namespace = pod_Namespace pod,
            rr_Name = pod_Name pod, rr_UID = pod_UID pod\<rparr>,
          di_Timestamp = snd now, di_Data = m, di_Labels = [(''eventType'', eventType)]\<rparr>)"

definition eventToDetectionInput ::
  "'o jsonCodec \<Rightarrow> time \<times> time \<Rightarrow> Event \<Rightarrow> 'o \<Rightarrow> string + DetectionInput" where
  "eventToDetectionInput js now event rest =
     (case objectToMap js (EventObj event rest) of
        Inl err \<Rightarrow> Inl (''marshal event: '' @ err)
      | Inr m \<Rightarrow>
          (let involvedObj = ev_InvolvedObject event;
               apiVersion = (if ob_APIVersion involvedObj = '''' then ''v1'' else ob_APIVersion involvedObj)
           in Inr \<lparr>di_ID = ''k8s-event-'' @ ev_Namespace event @ ''-'' @ ev_Name event @ ''-'' @ int_dec (UnixNano (fst now)),
                di_Source = DetectionSourceKubernetes,
                di_Resource = \<lparr>rr_APIVersion = apiVersion, rr_Kind = ob_Kind involvedObj,
                  rr_Namespace = ob_Namespace involvedObj, rr_Name = ob_Name involvedObj, rr_UID = ob_UID involvedObj\<rparr>,
                di_Timestamp = snd now, di_Data = m,
                di_Labels = [(''eventType'', ''event''), (''reason'', ev_Reason event)]\<rparr>))"

definition sendDetectionInput :: "DetectionInput chan \<Rightarrow> DetectionInput \<Rightarrow> DetectionInput chan" where
  "sendDetectionInput ch input = chan_trySend ch input"

definition onPod ::
  "'o jsonCodec \<Rightarrow> string \<Rightarrow> time \<times> time \<Rightarrow> k8sMonitorImpl \<Rightarrow> 'o informerObj \<Rightarrow> DetectionInput chan \<Rightarrow> DetectionInput chan" where
  "onPod js eventType now m obj ch =
     (case obj of
        PodObj pod rest \<Rightarrow>
          (if isExcludedNamespace m (pod_Namespace pod) then ch
           else case podToDetectionInput js now pod rest eventType of
             Inl err \<Rightarrow> ch
           | Inr input \<Rightarrow> sendDetectionInput ch input)
      | _ \<Rightarrow> ch)"

definition onPodAdd where "onPodAdd js = onPod js ''add''"
definition onPodUpdate where "onPodUpdate js = onPod js ''update''"

definition processEvent ::
  "'o jsonCodec \<Rightarrow> time \<times> time \<Rightarrow> k8sMonitorImpl \<Rightarrow> Event \<Rightarrow> 'o \<Rightarrow> DetectionInput chan \<Rightarrow> DetectionInput chan" where
  "processEvent js now m event rest ch =
     (if isExcludedNamespace m (ob_Namespace (ev_InvolvedObject event)) then ch
      else case eventToDetectionInput js now event rest of
        Inl err \<Rightarrow> ch
      | Inr input \<Rightarrow> sendDetectionInput ch input)"

text \<open>The handler of both event callbacks.\<close>

definition onEvent ::
  "'o jsonCodec \<Rightarrow> time \<times> time \<Rightarrow> k8sMonitorImpl \<Rightarrow> 'o informerObj \<Rightarrow> DetectionInput chan \<Rightarrow> DetectionInput chan" where
  "onEvent js now m obj ch = (case obj of EventObj event rest \<Rightarrow> processEvent js now m event rest ch | _ \<Rightarrow> ch)"

text \<open>
  \<open>Run\<close> up to the point where it blocks. The arguments are the outcomes of the calls it makes:
  building a client set, registering the two handlers, and the caches that were to be synced.
\<close>

definition k8sStart ::
  "string option \<Rightarrow> string option \<Rightarrow> string option \<Rightarrow> (string \<times> bool) list \<Rightarrow> k8sMonitorImpl \<Rightarrow> string option \<times> k8sMonitorImpl" where
  "k8sStart clientErr podErr eventErr synced m =
     (case clientErr of
        Some e \<Rightarrow> (Some (''failed to create K8s clientset: '' @ e), m)
      | None \<Rightarrow>
          (case podErr of
             Some e \<Rightarrow> (Some (''pod informer AddEventHandler: '' @ e), m)
           | None \<Rightarrow>
               (case eventErr of
                  Some e \<Rightarrow> (Some (''event informer AddEventHandler: '' @ e), m)
                | None \<Rightarrow>
                    (case filter (\<lambda>(ty, ok). \<not> ok) synced of
                       (ty, _) # _ \<Rightarrow> (Some (''informer cache sync failed for '' @ ty), m)
                     | [] \<Rightarrow> (None, m\<lparr>km_ready := True\<rparr>)))))"

definition k8sStop :: "k8sMonitorImpl \<Rightarrow> k8sMonitorImpl" where
  "k8sStop m = (if km_stopped m then m else m\<lparr>km_ready := False, km_stopped := True\<rparr>)"

definition k8sReady :: "k8sMonitorImpl \<Rightarrow> bool" where
  "k8sReady m = km_ready m"

definition k8sSetReady :: "k8sMonitorImpl \<Rightarrow> bool \<Rightarrow> k8sMonitorImpl" where
  "k8sSetReady m ready = m\<lparr>km_ready := ready\<rparr>"

section \<open>The OpenTelemetry receiver\<close>

text \<open>
  Attribute values are of type \<open>'p\<close>; \<open>pv_Str\<close> is the string of a string value and empty for any
  other, as it is for the value that a failed lookup returns.
\<close>

record 'p pvalueOps =
  pv_Str :: "'p \<Rightarrow> string"
  pv_AsString :: "'p \<Rightarrow> string"
  pv_AsRaw :: "'p \<Rightarrow> gval"

record 'p LogRecord =
  lr_Body :: 'p
  lr_SeverityText :: string
  lr_SeverityNumber :: int
  lr_Attributes :: "(string \<times> 'p) list"
  lr_Timestamp :: nat

record 'p ResourceLogs =
  rl_Attributes :: "(string \<times> 'p) list"
  rl_ScopeLogs :: "'p LogRecord list list"

record otelReceiverImpl =
  ov_config :: Config
  ov_ready :: bool
  ov_stopped :: bool
  ov_receiving :: bool

definition newOTelReceiverImpl :: "Config \<Rightarrow> otelReceiverImpl" where
  "newOTelReceiverImpl cfg = \<lparr>ov_config = cfg, ov_ready = False, ov_stopped = False, ov_receiving = False\<rparr>"

definition attrStr :: "'p pvalueOps \<Rightarrow> (string \<times> 'p) list \<Rightarrow> string \<Rightarrow> string" where
  "attrStr pv attrs key = (case map_of attrs key of None \<Rightarrow> '''' | Some v \<Rightarrow> pv_Str pv v)"

text \<open>\<open>Timestamp.AsTime\<close>: nanoseconds since the epoch, converted to a signed integer.\<close>

definition AsTime :: "nat \<Rightarrow> time" where
  "AsTime ts = wrap64 (int ts) + 719162 * 86400 * 1000000000"

definition logResource :: "'p pvalueOps \<Rightarrow> (string \<times> 'p) list \<Rightarrow> ResourceReference" where
  "logResource pv attrs =
     (let podName = attrStr pv attrs ''k8s.pod.name'';
          serviceName = attrStr pv attrs ''service.name'';
          (kind, name) = (if podName = '''' then (''Service'', serviceName) else (''Pod'', podName));
          name' = (if name = '''' then ''unknown'' else name)
      in \<lparr>rr_APIVersion = ''v1'', rr_Kind = kind, rr_Namespace = attrStr pv attrs ''k8s.namespace.name'',
          rr_Name = name', rr_UID = attrStr pv attrs ''k8s.pod.uid''\<rparr>)"

text \<open>\<open>uuid\<close> is the generated identifier.\<close>

definition logRecordToDetectionInput ::
  "'p pvalueOps \<Rightarrow> string \<Rightarrow> (string \<times> 'p) list \<Rightarrow> 'p LogRecord \<Rightarrow> DetectionInput" where
  "logRecordToDetectionInput pv uuid attrs lr =
     (let d0 = [(''message'', GString (pv_AsString pv (lr_Body lr))), (''severity'', GString (lr_SeverityText lr))];
          d1 = (if lr_SeverityNumber lr \<noteq> 0 then mput ''severityNumber'' (GInt (lr_SeverityNumber lr)) d0 else d0);
          d2 = foldl (\<lambda>d (k, v). mput k (pv_AsRaw pv v) d) d1 (lr_Attributes lr);
          lbl = foldl (\<lambda>d (k, v). mput k (pv_AsString pv v) d) [(''telemetryType'', ''log'')] attrs
      in \<lparr>di_ID = uuid, di_Source = DetectionSourceOTel, di_Resource = logResource pv attrs,
          di_Timestamp = AsTime (lr_Timestamp lr), di_Data = d2, di_Labels = lbl\<rparr>)"

text \<open>
  The three nested loops of \<open>consumeLogs\<close>; the identifiers are drawn from a supply.
\<close>

fun consumeRecords ::
  "'p pvalueOps \<Rightarrow> (string \<times> 'p) list \<Rightarrow> 'p LogRecord list \<Rightarrow> (nat \<Rightarrow> string) \<times> nat \<Rightarrow> DetectionInput chan
     \<Rightarrow> DetectionInput chan \<times> nat" where
  "consumeRecords pv attrs [] s ch = (ch, snd s)"
| "consumeRecords pv attrs (lr # lrs) (ids, n) ch =
     consumeRecords pv attrs lrs (ids, Suc n) (sendDetectionInput ch (logRecordToDetectionInput pv (ids n) attrs lr))"

fun consumeScopes ::
  "'p pvalueOps \<Rightarrow> (string \<times> 'p) list \<Rightarrow> 'p LogRecord list list \<Rightarrow> (nat \<Rightarrow> string) \<times> nat \<Rightarrow> DetectionInput chan
     \<Rightarrow> DetectionInput chan \<times> nat" where
  "consumeScopes pv attrs [] s ch = (ch, snd s)"
| "consumeScopes pv attrs (sl # sls) (ids, n) ch =
     (let (ch', n') = consumeRecords pv attrs sl (ids, n) ch in consumeScopes pv attrs sls (ids, n') ch')"

fun consumeResources ::
  "'p pvalueOps \<Rightarrow> 'p ResourceLogs list \<Rightarrow> (nat \<Rightarrow> string) \<times> nat \<Rightarrow> DetectionInput chan \<Rightarrow> DetectionInput chan \<times> nat" where
  "consumeResources pv [] s ch = (ch, snd s)"
| "consumeResources pv (rl # rls) (ids, n) ch =
     (let (ch', n') = consumeScopes pv (rl_Attributes rl) (rl_ScopeLogs rl) (ids, n) ch
      in consumeResources pv rls (ids, n') ch')"

definition consumeLogs ::
  "'p pvalueOps \<Rightarrow> (nat \<Rightarrow> string) \<Rightarrow> 'p ResourceLogs list \<Rightarrow> DetectionInput chan \<Rightarrow> DetectionInput chan" where
  "consumeLogs pv ids ld ch = fst (consumeResources pv ld (ids, 0) ch)"

text \<open>\<open>Run\<close> up to the point where it blocks, with the outcomes of the calls it makes.\<close>

definition otelStart ::
  "string option \<Rightarrow> string option \<Rightarrow> string option \<Rightarrow> string option \<Rightarrow> otelReceiverImpl \<Rightarrow> string option \<times> otelReceiverImpl" where
  "otelStart validateErr consumerErr createErr startErr r =
     (let rc = ot_Receiver (cfg_OTel (ov_config r)) in
      case validateErr of
        Some e \<Rightarrow> (Some (''invalid OTLP config: '' @ e), r)
      | None \<Rightarrow>
          (case consumerErr of
             Some e \<Rightarrow> (Some (''create logs consumer: '' @ e), r)
           | None \<Rightarrow>
               (if oe_Enabled (or_GRPC rc) \<or> oe_Enabled (or_HTTP rc) then
                  (case createErr of
                     Some e \<Rightarrow> (Some (''create logs receiver: '' @ e), r)
                   | None \<Rightarrow>
                       (case startErr of
                          Some e \<Rightarrow> (Some (''start logs receiver: '' @ e), r\<lparr>ov_receiving := True\<rparr>)
                        | None \<Rightarrow> (None, r\<lparr>ov_receiving := True, ov_ready := True\<rparr>)))
                else (None, r\<lparr>ov_ready := True\<rparr>))))"

text \<open>The configuration of the OTLP receiver; \<open>otelRun\<close> starts with it, validated by the collector.\<close>

record otlpHTTPConfig =
  oh_Endpoint :: string
  oh_TracesURLPath :: string
  oh_MetricsURLPath :: string
  oh_LogsURLPath :: string

record otlpConfig =
  op_GRPC :: "(string \<times> string) option"
  op_HTTP :: "otlpHTTPConfig option"

definition buildOTLPConfig :: "otelReceiverImpl \<Rightarrow> otlpConfig" where
  "buildOTLPConfig r =
     (let rc = ot_Receiver (cfg_OTel (ov_config r)) in
      \<lparr>op_GRPC = (if oe_Enabled (or_GRPC rc) then Some (oe_Endpoint (or_GRPC rc), ''tcp'') else None),
       op_HTTP = (if oe_Enabled (or_HTTP rc)
         then Some \<lparr>oh_Endpoint = oe_Endpoint (or_HTTP rc), oh_TracesURLPath = ''/v1/traces'', oh_MetricsURLPath = ''/v1/metrics'',
           oh_LogsURLPath = ''/v1/logs''\<rparr> else None)\<rparr>)"

definition otelRun ::
  "(otlpConfig \<Rightarrow> string option) \<Rightarrow> string option \<Rightarrow> string option \<Rightarrow> string option \<Rightarrow> otelReceiverImpl
     \<Rightarrow> string option \<times> otelReceiverImpl" where
  "otelRun validate consumerErr createErr startErr r = otelStart (validate (buildOTLPConfig r)) consumerErr createErr startErr r"

text \<open>
  The collector refuses a configuration without a protocol, so a receiver that is enabled with both
  endpoints disabled never becomes ready.
\<close>

lemma otel_without_protocol:
  assumes "\<And>c. op_GRPC c = None \<Longrightarrow> op_HTTP c = None \<Longrightarrow> validate c \<noteq> None"
    and "\<not> oe_Enabled (or_GRPC (ot_Receiver (cfg_OTel (ov_config r))))" "\<not> oe_Enabled (or_HTTP (ot_Receiver (cfg_OTel (ov_config r))))"
  shows "\<exists>e. otelRun validate consumerErr createErr startErr r = (Some (''invalid OTLP config: '' @ e), r)"
proof -
  obtain e where "validate (buildOTLPConfig r) = Some e"
    using assms(1) [of "buildOTLPConfig r"] assms(2, 3) by (auto simp: buildOTLPConfig_def Let_def)
  then show ?thesis by (simp add: otelRun_def otelStart_def)
qed

definition otelStop :: "string option \<Rightarrow> otelReceiverImpl \<Rightarrow> string option \<times> otelReceiverImpl" where
  "otelStop shutdownErr r =
     (if ov_stopped r then (None, r)
      else (if ov_receiving r then shutdownErr else None, r\<lparr>ov_ready := False, ov_stopped := True\<rparr>))"

definition otelReady :: "otelReceiverImpl \<Rightarrow> bool" where
  "otelReady r = ov_ready r"

section \<open>Building the monitors\<close>

datatype MonitorImpl = K8sMonitor k8sMonitorImpl | OTelReceiver otelReceiverImpl

type_synonym Factory = "Config \<Rightarrow> string + MonitorImpl option"

definition k8sFactory :: Factory where
  "k8sFactory cfg = Inr (if \<not> kc_Enabled (cfg_Kubernetes cfg) then None else Some (K8sMonitor (newK8sMonitorImpl cfg)))"

definition otelFactory :: Factory where
  "otelFactory cfg =
     Inr (if \<not> or_Enabled (ot_Receiver (cfg_OTel cfg)) then None else Some (OTelReceiver (newOTelReceiverImpl cfg)))"

definition defaultFactories :: "Factory list" where
  "defaultFactories = [k8sFactory, otelFactory]"

fun buildMonitors :: "Factory list \<Rightarrow> Config \<Rightarrow> MonitorImpl list \<Rightarrow> string + MonitorImpl list" where
  "buildMonitors [] cfg monitors = Inr monitors"
| "buildMonitors (f # fs) cfg monitors =
     (case f cfg of
        Inl err \<Rightarrow> Inl (''monitor factory error: '' @ err)
      | Inr None \<Rightarrow> buildMonitors fs cfg monitors
      | Inr (Some m) \<Rightarrow> buildMonitors fs cfg (monitors @ [m]))"

definition BuildFromConfig :: "Config \<Rightarrow> string + MonitorImpl list" where
  "BuildFromConfig cfg = buildMonitors defaultFactories cfg []"

section \<open>What the monitors put on the channel\<close>

interpretation monitor_out: lossy_sender sendDetectionInput
  by unfold_locales (auto simp: sendDetectionInput_def chan_trySend_def)

lemma nsIn_iff [simp]: "nsIn ns xs \<longleftrightarrow> ns \<in> set xs"
  by (induction xs) auto

text \<open>One callback of an informer, and the input that it produces, if any.\<close>

datatype 'o callback =
    PodAdded "time \<times> time" "'o informerObj"
  | PodUpdated "time \<times> time" "'o informerObj"
  | EventSeen "time \<times> time" "'o informerObj"

fun handleCallback :: "'o jsonCodec \<Rightarrow> k8sMonitorImpl \<Rightarrow> DetectionInput chan \<Rightarrow> 'o callback \<Rightarrow> DetectionInput chan" where
  "handleCallback js m ch (PodAdded now obj) = onPodAdd js now m obj ch"
| "handleCallback js m ch (PodUpdated now obj) = onPodUpdate js now m obj ch"
| "handleCallback js m ch (EventSeen now obj) = onEvent js now m obj ch"

definition okInput :: "string + DetectionInput \<Rightarrow> DetectionInput list" where
  "okInput r = (case r of Inl _ \<Rightarrow> [] | Inr input \<Rightarrow> [input])"

fun callbackInput :: "'o jsonCodec \<Rightarrow> 'o callback \<Rightarrow> DetectionInput list" where
  "callbackInput js (PodAdded now (PodObj pod rest)) = okInput (podToDetectionInput js now pod rest ''add'')"
| "callbackInput js (PodUpdated now (PodObj pod rest)) = okInput (podToDetectionInput js now pod rest ''update'')"
| "callbackInput js (EventSeen now (EventObj event rest)) = okInput (eventToDetectionInput js now event rest)"
| "callbackInput js _ = []"

definition watched :: "k8sMonitorImpl \<Rightarrow> DetectionInput \<Rightarrow> bool" where
  "watched m input \<longleftrightarrow> rr_Namespace (di_Resource input) \<notin> set (kc_ExcludedNamespaces (cfg_Kubernetes (km_config m)))"

lemma podInput_fields:
  "podToDetectionInput js now pod rest t = Inr input \<Longrightarrow>
     di_Source input = DetectionSourceKubernetes \<and> rr_Namespace (di_Resource input) = pod_Namespace pod"
  by (auto simp: podToDetectionInput_def split: sum.splits)

lemma eventInput_fields:
  "eventToDetectionInput js now event rest = Inr input \<Longrightarrow>
     di_Source input = DetectionSourceKubernetes \<and> rr_Namespace (di_Resource input) = ob_Namespace (ev_InvolvedObject event)"
  by (auto simp: eventToDetectionInput_def Let_def split: sum.splits)

lemmas handler_defs = onPodAdd_def onPodUpdate_def onPod_def onEvent_def processEvent_def isExcludedNamespace_def

lemma handleCallback_sends:
  "handleCallback js m ch cb = foldl sendDetectionInput ch (filter (watched m) (callbackInput js cb))"
  by (induction js cb rule: callbackInput.induct)
    (auto simp: handler_defs okInput_def watched_def dest!: podInput_fields eventInput_fields split: sum.splits informerObj.splits)

lemma handleCallbacks_send:
  "foldl (handleCallback js m) ch cbs = foldl sendDetectionInput ch (filter (watched m) (concat (map (callbackInput js) cbs)))"
  by (induction cbs arbitrary: ch) (simp_all add: handleCallback_sends)

text \<open>The inputs of a batch of logs, in the order of the loops.\<close>

definition recordsOf :: "'p ResourceLogs list \<Rightarrow> ((string \<times> 'p) list \<times> 'p LogRecord) list" where
  "recordsOf ld = concat (map (\<lambda>rl. map (Pair (rl_Attributes rl)) (concat (rl_ScopeLogs rl))) ld)"

definition numbered :: "'p pvalueOps \<Rightarrow> (nat \<Rightarrow> string) \<Rightarrow> nat \<Rightarrow> ((string \<times> 'p) list \<times> 'p LogRecord) list \<Rightarrow> DetectionInput list" where
  "numbered pv ids n rs = map (\<lambda>(i, attrs, lr). logRecordToDetectionInput pv (ids i) attrs lr) (enumerate n rs)"

lemma numbered_append: "numbered pv ids n (xs @ ys) = numbered pv ids n xs @ numbered pv ids (n + length xs) ys"
  by (simp add: numbered_def enumerate_append_eq)

lemma consumeRecords_sends:
  "consumeRecords pv attrs lrs (ids, n) ch =
     (foldl sendDetectionInput ch (numbered pv ids n (map (Pair attrs) lrs)), n + length lrs)"
  by (induction lrs arbitrary: n ch) (simp_all add: numbered_def)

lemma consumeScopes_sends:
  "consumeScopes pv attrs sls (ids, n) ch =
     (foldl sendDetectionInput ch (numbered pv ids n (map (Pair attrs) (concat sls))), n + length (concat sls))"
proof (induction sls arbitrary: n ch)
  case Nil
  then show ?case by (simp add: numbered_def)
next
  case (Cons sl sls)
  then show ?case by (simp add: consumeRecords_sends numbered_append)
qed

lemma consumeResources_sends:
  "consumeResources pv ld (ids, n) ch = (foldl sendDetectionInput ch (numbered pv ids n (recordsOf ld)), n + length (recordsOf ld))"
proof (induction ld arbitrary: n ch)
  case Nil
  then show ?case by (simp add: numbered_def recordsOf_def)
next
  case (Cons rl ld)
  then show ?case by (simp add: consumeScopes_sends numbered_append recordsOf_def add.assoc)
qed

lemma consumeLogs_sends: "consumeLogs pv ids ld ch = foldl sendDetectionInput ch (numbered pv ids 0 (recordsOf ld))"
  by (simp add: consumeLogs_def consumeResources_sends)

lemma logResource_kind: "rr_Kind (logResource pv attrs) \<in> {''Pod'', ''Service''} \<and> rr_Name (logResource pv attrs) \<noteq> ''''"
  by (simp add: logResource_def Let_def)

section \<open>Properties\<close>

definition sample_codec :: "unit jsonCodec" where
  "sample_codec = \<lparr>js_Marshal = (\<lambda>_. Inr ''{}''), js_Unmarshal = (\<lambda>_. Inr [])\<rparr>"

definition sample_callbacks :: "unit callback list" where
  "sample_callbacks = [PodAdded (0, 0) (PodObj \<lparr>pod_Namespace = ''kube-system'', pod_Name = ''p'', pod_UID = ''u''\<rparr> ()),
     PodAdded (0, 0) (PodObj \<lparr>pod_Namespace = ''shop'', pod_Name = ''p'', pod_UID = ''v''\<rparr> ())]"

text \<open>
  C31. While the channel has room, the callbacks of the informers queue exactly the inputs of the
  objects they convert, in order, except those of excluded namespaces; and whatever the room, they
  never queue an input of an excluded namespace or of another source and never exceed the capacity.
\<close>

theorem monitor_delivers:
  assumes "chan_wf ch" "inputs = filter (watched m) (concat (map (callbackInput js) cbs))"
  shows "(length (ch_buf ch) + length inputs \<le> ch_cap ch \<longrightarrow>
        ch_buf (foldl (handleCallback js m) ch cbs) = ch_buf ch @ inputs)
    \<and> chan_wf (foldl (handleCallback js m) ch cbs)
    \<and> (\<forall>input \<in> set (ch_buf (foldl (handleCallback js m) ch cbs)) - set (ch_buf ch).
         watched m input \<and> di_Source input = DetectionSourceKubernetes)"
proof -
  have src: "di_Source input = DetectionSourceKubernetes" if "input \<in> set (callbackInput js cb)" for input cb
    using that by (induction js cb rule: callbackInput.induct)
      (auto simp: okInput_def dest!: podInput_fields [OF sym] eventInput_fields [OF sym] split: sum.splits)
  have new: "set (ch_buf (foldl sendDetectionInput c xs)) \<subseteq> set (ch_buf c) \<union> set xs" for c xs
  proof (induction xs arbitrary: c)
    case (Cons x xs)
    have "set (ch_buf (sendDetectionInput c x)) \<subseteq> set (ch_buf c) \<union> {x}"
      using monitor_out.send_extends [of c x] by auto
    with Cons [of "sendDetectionInput c x"] show ?case by auto
  qed simp
  show ?thesis
    using assms src new [of ch inputs] monitor_out.fold_send_room [of ch inputs] monitor_out.fold_send_wf [of ch inputs]
    by (auto simp: handleCallbacks_send)
qed

theorem monitor_delivers_witness:
  "length (ch_buf (foldl (handleCallback sample_codec (newK8sMonitorImpl Default)) (chan_make 2) sample_callbacks)) = 1"
proof -
  have len: "length (filter (watched (newK8sMonitorImpl Default)) (concat (map (callbackInput sample_codec) sample_callbacks))) = 1"
    by (simp add: sample_callbacks_def okInput_def podToDetectionInput_def objectToMap_def sample_codec_def watched_def
        newK8sMonitorImpl_def Default_def)
  have "chan_wf (chan_make 2 :: DetectionInput chan)" by (simp add: chan_make_def chan_wf_def)
  note del = monitor_delivers [OF this refl, where m = "newK8sMonitorImpl Default" and js = sample_codec and cbs = sample_callbacks]
  have "ch_buf (foldl (handleCallback sample_codec (newK8sMonitorImpl Default)) (chan_make 2) sample_callbacks)
      = ch_buf (chan_make 2) @ filter (watched (newK8sMonitorImpl Default)) (concat (map (callbackInput sample_codec) sample_callbacks))"
    by (rule mp [OF conjunct1 [OF del]]) (simp only: len, simp add: chan_make_def)
  then show ?thesis
    using len by (simp only: length_append) (simp add: chan_make_def)
qed

text \<open>
  While the channel has room, a batch of logs becomes one input for each log record, in the
  order of the batch, each for a pod or a service with a name.
\<close>

theorem logs_delivered:
  assumes "length (ch_buf ch) + length (recordsOf ld) \<le> ch_cap ch"
  shows "ch_buf (consumeLogs pv ids ld ch) = ch_buf ch
      @ map (\<lambda>(i, attrs, lr). logRecordToDetectionInput pv (ids i) attrs lr) (enumerate 0 (recordsOf ld))
    \<and> (\<forall>input \<in> set (drop (length (ch_buf ch)) (ch_buf (consumeLogs pv ids ld ch))).
         di_Source input = DetectionSourceOTel \<and> rr_Kind (di_Resource input) \<in> {''Pod'', ''Service''}
         \<and> rr_Name (di_Resource input) \<noteq> '''')"
proof -
  have buf: "ch_buf (consumeLogs pv ids ld ch) = ch_buf ch @ numbered pv ids 0 (recordsOf ld)"
    using assms by (simp add: consumeLogs_sends monitor_out.fold_send_room numbered_def)
  have "di_Source input = DetectionSourceOTel \<and> rr_Kind (di_Resource input) \<in> {''Pod'', ''Service''}
      \<and> rr_Name (di_Resource input) \<noteq> ''''" if "input = logRecordToDetectionInput pv i attrs lr" for input i attrs lr
    using that logResource_kind [of pv attrs] by (simp add: logRecordToDetectionInput_def Let_def)
  then have "\<forall>input \<in> set (numbered pv ids 0 (recordsOf ld)). di_Source input = DetectionSourceOTel
      \<and> rr_Kind (di_Resource input) \<in> {''Pod'', ''Service''} \<and> rr_Name (di_Resource input) \<noteq> ''''"
    unfolding numbered_def by fastforce
  with buf show ?thesis by (simp add: numbered_def)
qed

theorem logs_delivered_witness:
  "length (ch_buf (consumeLogs \<lparr>pv_Str = (\<lambda>s. s), pv_AsString = (\<lambda>s. s), pv_AsRaw = GString\<rparr> nat_dec
     [\<lparr>rl_Attributes = [(''k8s.pod.name'', ''p'')], rl_ScopeLogs = [[\<lparr>lr_Body = ''oom'', lr_SeverityText = ''ERROR'',
        lr_SeverityNumber = 17, lr_Attributes = [], lr_Timestamp = 0\<rparr>]]\<rparr>] (chan_make 4))) = 1"
  using logs_delivered [where ch = "chan_make 4" and pv = "\<lparr>pv_Str = (\<lambda>s. s), pv_AsString = (\<lambda>s. s), pv_AsRaw = GString\<rparr>"
      and ids = nat_dec and ld = "[\<lparr>rl_Attributes = [(''k8s.pod.name'', ''p'')], rl_ScopeLogs = [[\<lparr>lr_Body = ''oom'',
        lr_SeverityText = ''ERROR'', lr_SeverityNumber = 17, lr_Attributes = [], lr_Timestamp = 0\<rparr>]]\<rparr>]"]
  by (simp add: chan_make_def recordsOf_def)

text \<open>
  A configuration that passes validation builds at least one monitor, and exactly the enabled
  ones, Kubernetes first.
\<close>

theorem monitors_built:
  assumes "Validate cfg = None"
  shows "\<exists>ms. BuildFromConfig cfg = Inr ms \<and> ms \<noteq> []
    \<and> ms = (if kc_Enabled (cfg_Kubernetes cfg) then [K8sMonitor (newK8sMonitorImpl cfg)] else [])
         @ (if or_Enabled (ot_Receiver (cfg_OTel cfg)) then [OTelReceiver (newOTelReceiverImpl cfg)] else [])"
proof -
  have "kc_Enabled (cfg_Kubernetes cfg) \<or> or_Enabled (ot_Receiver (cfg_OTel cfg))"
    using assms by (auto simp: Validate_def Let_def split: if_splits)
  then show ?thesis
    by (auto simp: BuildFromConfig_def defaultFactories_def k8sFactory_def otelFactory_def)
qed

theorem monitors_built_witness: "\<exists>ms. BuildFromConfig Default = Inr ms \<and> ms \<noteq> []"
  using monitors_built [OF Default_valid] by blast

text \<open>
  The setting \<open>namespaces\<close> has no effect: two monitors that differ only in it react alike.
\<close>

lemma namespaces_ignored:
  "handleCallback js (m\<lparr>km_config := (km_config m)\<lparr>cfg_Kubernetes := (cfg_Kubernetes (km_config m))\<lparr>kc_Namespaces := ns\<rparr>\<rparr>\<rparr>) ch cb
     = handleCallback js m ch cb"
  by (simp add: handleCallback_sends watched_def cong: filter_cong)

end
