(* ===== verification/Handlers.thy ===== *)
theory Handlers
  imports Types
begin

text \<open>
  The action handlers of \<open>internal/action/handlers.go\<close>: scale, restart, rollback, adjust resources
  and notify, each with its \<open>Validate\<close> and \<open>Execute\<close>. The Kubernetes client is the record \<open>kubeClient\<close>
  of the calls the handlers make on a cluster of type \<open>'w\<close>; pod templates have the type \<open>'t\<close> and
  \<open>resource.Quantity\<close> the type \<open>'q\<close> with the operations of the record \<open>quantityOps\<close>. An execution that
  panics (\<open>resource.MustParse\<close> on a malformed limit) is the value \<open>None\<close>.
\<close>

section \<open>The client and the libraries\<close>

datatype apierror = Conflict string | AlreadyExists string | NotFound string | OtherError string

fun err_Error :: "apierror \<Rightarrow> string" where
  "err_Error (Conflict m) = m"
| "err_Error (AlreadyExists m) = m"
| "err_Error (NotFound m) = m"
| "err_Error (OtherError m) = m"

fun IsConflict :: "apierror \<Rightarrow> bool" where
  "IsConflict (Conflict m) = True"
| "IsConflict _ = False"

text \<open>The scale subresource: the replicas, and the rest of the object, which is sent back as read.\<close>

record Scale =
  scl_Replicas :: int
  scl_Meta :: string

record 'q Container =
  ctr_Name :: string
  ctr_Limits :: "(string, 'q) gomap"

record 'q Deployment =
  dep_UID :: string
  dep_Containers :: "'q Container list"

record 't ReplicaSet =
  rsx_OwnerReferences :: "OwnerReference list"
  rsx_Annotations :: "(string, string) gomap"
  rsx_Template :: 't

text \<open>The two patches that handlers send: a whole pod template, or limits by container name.\<close>

datatype 't patch =
    MergeTemplate 't
  | StrategicLimits string "(string \<times> string) list"

record ('w, 't, 'q) kubeClient =
  k8_GetScale :: "string \<Rightarrow> string \<Rightarrow> string \<Rightarrow> 'w \<Rightarrow> apierror + Scale"
  k8_UpdateScale :: "string \<Rightarrow> string \<Rightarrow> string \<Rightarrow> Scale \<Rightarrow> 'w \<Rightarrow> apierror option \<times> 'w"
  k8_DeletePod :: "string \<Rightarrow> string \<Rightarrow> int option \<Rightarrow> 'w \<Rightarrow> apierror option \<times> 'w"
  k8_GetDeployment :: "string \<Rightarrow> string \<Rightarrow> 'w \<Rightarrow> apierror + 'q Deployment"
  k8_ListReplicaSets :: "string \<Rightarrow> 'w \<Rightarrow> apierror + 't ReplicaSet list"
  k8_Marshal :: "'t patch \<Rightarrow> string option"
  k8_PatchDeployment :: "string \<Rightarrow> string \<Rightarrow> 't patch \<Rightarrow> 'w \<Rightarrow> apierror option \<times> 'w"

text \<open>\<open>q_Parse\<close> is \<open>resource.ParseQuantity\<close>; \<open>MustParse\<close> panics where it fails.\<close>

record 'q quantityOps =
  q_Zero :: 'q
  q_Value :: "'q \<Rightarrow> int"
  q_String :: "'q \<Rightarrow> string"
  q_Format :: "'q \<Rightarrow> string"
  q_New :: "int \<Rightarrow> string \<Rightarrow> 'q"
  q_Parse :: "string \<Rightarrow> 'q option"

text \<open>
  \<open>strconv.ParseFloat\<close> with 64 bits, and the conversions of floats that do not fit into an integer.
\<close>

record goNum =
  gn_ParseFloat :: "string \<Rightarrow> float64 option"
  gn_Convert :: "float64 \<Rightarrow> int"

section \<open>Results\<close>

definition actionOf :: "ActionType \<Rightarrow> params \<Rightarrow> ActionConfig" where
  "actionOf actionType ps = zeroAction\<lparr>ac_Type := actionType, ac_Params := ps\<rparr>"

definition failResult :: "ResourceReference \<Rightarrow> ActionType \<Rightarrow> params \<Rightarrow> string \<Rightarrow> ActionResult" where
  "failResult resource actionType ps err = zeroActionResult\<lparr>ar_Resource := resource,
     ar_Action := actionOf actionType ps, ar_Status := ActionStatusFailed, ar_Error := err\<rparr>"

definition okResult ::
  "ResourceReference \<Rightarrow> ActionType \<Rightarrow> params \<Rightarrow> string \<Rightarrow> ResourceChange list \<Rightarrow> ActionResult" where
  "okResult resource actionType ps message changes = zeroActionResult\<lparr>ar_Resource := resource,
     ar_Action := actionOf actionType ps, ar_Status := ActionStatusSucceeded, ar_Message := message,
     ar_Changes := changes\<rparr>"

type_synonym 'w outcome = "((ActionResult \<times> string option) \<times> 'w) option"

text \<open>\<open>return failResult(...), err\<close>.\<close>

definition failWith :: "ResourceReference \<Rightarrow> ActionType \<Rightarrow> params \<Rightarrow> string \<Rightarrow> 'w \<Rightarrow> 'w outcome" where
  "failWith resource actionType ps err w = Some ((failResult resource actionType ps err, Some err), w)"

definition succeedWith ::
  "ResourceReference \<Rightarrow> ActionType \<Rightarrow> params \<Rightarrow> string \<Rightarrow> ResourceChange list \<Rightarrow> 'w \<Rightarrow> 'w outcome" where
  "succeedWith resource actionType ps message changes w =
     Some ((okResult resource actionType ps message changes, None), w)"

section \<open>Scale\<close>

record ScaleHandler =
  sh_actionType :: ActionType
  sh_scaleUp :: bool

definition NewScaleHandler :: ScaleHandler where
  "NewScaleHandler = \<lparr>sh_actionType = ActionTypeScaleUp, sh_scaleUp = True\<rparr>"

definition scaleIncrement :: "goNum \<Rightarrow> ScaleHandler \<Rightarrow> params \<Rightarrow> int" where
  "scaleIncrement gn h ps =
     (let increment = (case mget ps ''increment'' of
            Some (GInt i) \<Rightarrow> wrap32 i
          | Some (GFloat f) \<Rightarrow> f64_to_int (gn_Convert gn) in32 f
          | Some (GString s) \<Rightarrow> (case ParseInt s of (parsed, True) \<Rightarrow> wrap32 parsed | (_, False) \<Rightarrow> 1)
          | _ \<Rightarrow> 1)
      in if \<not> sh_scaleUp h then wrap32 (- increment) else increment)"

definition newReplicaCount :: "int \<Rightarrow> int \<Rightarrow> int" where
  "newReplicaCount oldReplicas increment =
     (let newReplicas = wrap32 (oldReplicas + increment) in if newReplicas < 0 then 0 else newReplicas)"

definition ScaleExecute ::
  "goNum \<Rightarrow> ('w, 't, 'q) kubeClient \<Rightarrow> ScaleHandler \<Rightarrow> ResourceReference \<Rightarrow> params \<Rightarrow> 'w \<Rightarrow> 'w outcome" where
  "ScaleExecute gn client h resource ps w =
     (let increment = scaleIncrement gn h ps; aty = sh_actionType h in
      if rr_Kind resource = ''Deployment'' \<or> rr_Kind resource = ''StatefulSet'' then
        (case k8_GetScale client (rr_Kind resource) (rr_Namespace resource) (rr_Name resource) w of
           Inl err \<Rightarrow> failWith resource aty ps (err_Error err) w
         | Inr scale \<Rightarrow>
             (let oldReplicas = scl_Replicas scale; newReplicas = newReplicaCount oldReplicas increment in
              case k8_UpdateScale client (rr_Kind resource) (rr_Namespace resource) (rr_Name resource)
                     (scale\<lparr>scl_Replicas := newReplicas\<rparr>) w of
                (Some err, w') \<Rightarrow> failWith resource aty ps (err_Error err) w'
              | (None, w') \<Rightarrow>
                  succeedWith resource aty ps
                    (''Scaled '' @ rr_String resource @ '' from '' @ int_dec oldReplicas @ '' to ''
                      @ int_dec newReplicas @ '' replicas'')
                    [\<lparr>rc_Field = ''spec.replicas'', rc_OldValue = int_dec oldReplicas,
                      rc_NewValue = int_dec newReplicas\<rparr>] w'))
      else failWith resource aty ps (''unsupported kind for scale: '' @ rr_Kind resource) w)"

definition ScaleValidate :: "ResourceReference \<Rightarrow> params \<Rightarrow> string option" where
  "ScaleValidate resource ps =
     (if rr_Kind resource \<noteq> ''Deployment'' \<and> rr_Kind resource \<noteq> ''StatefulSet''
      then Some (''scale action only supports Deployment and StatefulSet, got: '' @ rr_Kind resource)
      else None)"

section \<open>Restart\<close>

definition gracePeriod :: "goNum \<Rightarrow> params \<Rightarrow> int option" where
  "gracePeriod gn ps =
     (case mget ps ''gracePeriodSeconds'' of
        Some (GInt i) \<Rightarrow> Some i
      | Some (GFloat f) \<Rightarrow> Some (f64_to_int (gn_Convert gn) in64 f)
      | _ \<Rightarrow> None)"

definition RestartExecute ::
  "goNum \<Rightarrow> ('w, 't, 'q) kubeClient \<Rightarrow> ResourceReference \<Rightarrow> params \<Rightarrow> 'w \<Rightarrow> 'w outcome" where
  "RestartExecute gn client resource ps w =
     (case k8_DeletePod client (rr_Namespace resource) (rr_Name resource) (gracePeriod gn ps) w of
        (Some err, w') \<Rightarrow> failWith resource ActionTypeRestartPod ps (err_Error err) w'
      | (None, w') \<Rightarrow>
          succeedWith resource ActionTypeRestartPod ps (''Restarted pod '' @ rr_String resource) [] w')"

definition RestartValidate :: "ResourceReference \<Rightarrow> params \<Rightarrow> string option" where
  "RestartValidate resource ps =
     (if rr_Kind resource \<noteq> ''Pod'' then Some (''restart action only supports Pod, got: '' @ rr_Kind resource)
      else None)"

section \<open>Rollback\<close>

definition parseRevision :: "'t ReplicaSet \<Rightarrow> int" where
  "parseRevision rs =
     (case mget (rsx_Annotations rs) ''deployment.kubernetes.io/revision'' of
        None \<Rightarrow> fst (ParseInt '''')
      | Some s \<Rightarrow> fst (ParseInt s))"

definition ownedBy :: "string \<Rightarrow> 't ReplicaSet list \<Rightarrow> 't ReplicaSet list" where
  "ownedBy uid items = filter (\<lambda>rs. \<exists>ref \<in> set (rsx_OwnerReferences rs). or_UID ref = uid) items"

text \<open>The loop over the owned ReplicaSets, with \<open>prevRS\<close>, \<open>maxRevision\<close> and \<open>secondMaxRevision\<close>.\<close>

fun scanRevisions ::
  "'t ReplicaSet list \<Rightarrow> 't ReplicaSet option \<Rightarrow> int \<Rightarrow> int \<Rightarrow> 't ReplicaSet option \<times> int" where
  "scanRevisions [] prevRS maxRevision secondMaxRevision = (prevRS, maxRevision)"
| "scanRevisions (rs # rest) prevRS maxRevision secondMaxRevision =
     (let rev = parseRevision rs;
          (prevRS1, max1, second1) =
            (if rev > maxRevision then (None, rev, maxRevision) else (prevRS, maxRevision, secondMaxRevision));
          prevRS2 = (if rev = second1 \<and> rev > 0 then Some rs else prevRS1)
      in scanRevisions rest prevRS2 max1 second1)"

definition previousRevision :: "'t ReplicaSet list \<Rightarrow> 't ReplicaSet option" where
  "previousRevision ownedRS =
     (let (prevRS, maxRevision) = scanRevisions ownedRS None 0 0 in
      if prevRS = None \<and> length ownedRS \<ge> 2 then
        (let first = ownedRS ! 0 in
         if parseRevision first = maxRevision \<and> length ownedRS > 1 then Some (ownedRS ! 1) else Some first)
      else prevRS)"

definition RollbackExecute ::
  "('w, 't, 'q) kubeClient \<Rightarrow> ResourceReference \<Rightarrow> params \<Rightarrow> 'w \<Rightarrow> 'w outcome" where
  "RollbackExecute client resource ps w =
     (let aty = ActionTypeRollbackToPrevious in
      case k8_GetDeployment client (rr_Namespace resource) (rr_Name resource) w of
        Inl err \<Rightarrow> failWith resource aty ps (err_Error err) w
      | Inr deploy \<Rightarrow>
          (case k8_ListReplicaSets client (rr_Namespace resource) w of
             Inl err \<Rightarrow> failWith resource aty ps (err_Error err) w
           | Inr items \<Rightarrow>
               (let ownedRS = ownedBy (dep_UID deploy) items in
                if length ownedRS < 2 then
                  failWith resource aty ps (''no previous revision found for '' @ rr_String resource
                    @ '' (only '' @ nat_dec (length ownedRS) @ '' ReplicaSet(s))'') w
                else
                  (case previousRevision ownedRS of
                     None \<Rightarrow> failWith resource aty ps (''could not determine previous revision for '' @ rr_String resource) w
                   | Some prevRS \<Rightarrow>
                       (case k8_Marshal client (MergeTemplate (rsx_Template prevRS)) of
                          Some err \<Rightarrow> failWith resource aty ps err w
                        | None \<Rightarrow>
                            (case k8_PatchDeployment client (rr_Namespace resource) (rr_Name resource)
                                    (MergeTemplate (rsx_Template prevRS)) w of
                               (Some err, w') \<Rightarrow> failWith resource aty ps (err_Error err) w'
                             | (None, w') \<Rightarrow>
                                 succeedWith resource aty ps
                                   (''Rolled back '' @ rr_String resource @ '' to previous revision'') [] w'))))))"

definition RollbackValidate :: "ResourceReference \<Rightarrow> params \<Rightarrow> string option" where
  "RollbackValidate resource ps =
     (if rr_Kind resource \<noteq> ''Deployment''
      then Some (''rollback action only supports Deployment, got: '' @ rr_Kind resource) else None)"

section \<open>Adjusting resources\<close>

definition stringParam :: "params \<Rightarrow> string \<Rightarrow> string \<Rightarrow> string" where
  "stringParam ps key dflt = (case mget ps key of Some (GString s) \<Rightarrow> s | _ \<Rightarrow> dflt)"

definition increasePercent :: "goNum \<Rightarrow> string \<Rightarrow> float64" where
  "increasePercent gn increase =
     (if increase \<noteq> [] \<and> last increase = CHR ''%'' then
        (case gn_ParseFloat gn (butlast increase) of Some v \<Rightarrow> v | None \<Rightarrow> Fin 25)
      else Fin 25)"

text \<open>The conversion \<open>float64(currentBytes)\<close> rounds as well.\<close>

definition increasedValue :: "goNum \<Rightarrow> int \<Rightarrow> string \<Rightarrow> int" where
  "increasedValue gn currentBytes increase =
     (let delta = f64_to_int (gn_Convert gn) in64
            (f64_ceil (f64_div_pos (f64_mul (f64_round (of_int currentBytes)) (increasePercent gn increase)) 100))
      in wrap64 (currentBytes + delta))"

definition applyIncrease ::
  "goNum \<Rightarrow> 'q quantityOps \<Rightarrow> 'q \<Rightarrow> string \<Rightarrow> string \<Rightarrow> 'q option" where
  "applyIncrease gn qo current increase maxValue =
     (let currentBytes = (if q_Value qo current = 0 then 128 * 1024 * 1024 else q_Value qo current);
          newValue = increasedValue gn currentBytes increase
      in if maxValue \<noteq> '''' then
           (case q_Parse qo maxValue of
              None \<Rightarrow> None
            | Some maxQ \<Rightarrow>
                Some (q_New qo (if newValue > q_Value qo maxQ then q_Value qo maxQ else newValue) (q_Format qo current)))
         else Some (q_New qo newValue (q_Format qo current)))"

text \<open>The new limit of each container, in order; a panic in one ends the computation.\<close>

fun newLimits ::
  "goNum \<Rightarrow> 'q quantityOps \<Rightarrow> string \<Rightarrow> string \<Rightarrow> string \<Rightarrow> 'q Container list \<Rightarrow> (string \<times> 'q \<times> 'q) list option" where
  "newLimits gn qo resourceName increase maxValue [] = Some []"
| "newLimits gn qo resourceName increase maxValue (c # rest) =
     (let oldLimit = (case mget (ctr_Limits c) resourceName of None \<Rightarrow> q_Zero qo | Some q \<Rightarrow> q) in
      case applyIncrease gn qo oldLimit increase maxValue of
        None \<Rightarrow> None
      | Some newLimit \<Rightarrow>
          (case newLimits gn qo resourceName increase maxValue rest of
             None \<Rightarrow> None
           | Some ls \<Rightarrow> Some ((ctr_Name c, oldLimit, newLimit) # ls)))"

definition limitChange :: "'q quantityOps \<Rightarrow> string \<Rightarrow> string \<times> 'q \<times> 'q \<Rightarrow> ResourceChange" where
  "limitChange qo resourceName l = (case l of (name, oldLimit, newLimit) \<Rightarrow>
     \<lparr>rc_Field = ''containers['' @ name @ ''].resources.limits.'' @ resourceName,
      rc_OldValue = q_String qo oldLimit, rc_NewValue = q_String qo newLimit\<rparr>)"

text \<open>The retry loop: \<open>attempts\<close> are left, \<open>lastErr\<close> is the conflict of the previous one.\<close>

fun adjustLoop ::
  "goNum \<Rightarrow> 'q quantityOps \<Rightarrow> ('w, 't, 'q) kubeClient \<Rightarrow> ActionType \<Rightarrow> ResourceReference \<Rightarrow> params \<Rightarrow> string \<Rightarrow> string
     \<Rightarrow> string \<Rightarrow> nat \<Rightarrow> string \<Rightarrow> 'w \<Rightarrow> 'w outcome" where
  "adjustLoop gn qo client aty ref ps resourceName increase maxValue 0 lastErr w = failWith ref aty ps lastErr w"
| "adjustLoop gn qo client aty ref ps resourceName increase maxValue (Suc attempts) lastErr w =
     (case k8_GetDeployment client (rr_Namespace ref) (rr_Name ref) w of
        Inl err \<Rightarrow> failWith ref aty ps (err_Error err) w
      | Inr deploy \<Rightarrow>
          (case newLimits gn qo resourceName increase maxValue (dep_Containers deploy) of
             None \<Rightarrow> None
           | Some ls \<Rightarrow>
               (let patch = StrategicLimits resourceName (map (\<lambda>(name, old, new). (name, q_String qo new)) ls) in
                case k8_Marshal client patch of
                  Some err \<Rightarrow> failWith ref aty ps err w
                | None \<Rightarrow>
                    (case k8_PatchDeployment client (rr_Namespace ref) (rr_Name ref) patch w of
                       (None, w') \<Rightarrow>
                         succeedWith ref aty ps
                           (''Adjusted '' @ resourceName @ '' limits on '' @ rr_String ref @ '' by '' @ increase)
                           (map (limitChange qo resourceName) ls) w'
                     | (Some err, w') \<Rightarrow>
                         if \<not> IsConflict err then failWith ref aty ps (err_Error err) w'
                         else adjustLoop gn qo client aty ref ps resourceName increase maxValue attempts (err_Error err) w'))))"

definition AdjustExecute ::
  "goNum \<Rightarrow> 'q quantityOps \<Rightarrow> ('w, 't, 'q) kubeClient \<Rightarrow> ActionType \<Rightarrow> ResourceReference \<Rightarrow> params \<Rightarrow> 'w \<Rightarrow> 'w outcome" where
  "AdjustExecute gn qo client aty ref ps w =
     (let increase = stringParam ps ''increase'' ''25%'';
          maxValue = stringParam ps ''maxValue'' '''';
          resourceName = (if aty = ActionTypeAdjustMemory then ''memory'' else ''cpu'')
      in adjustLoop gn qo client aty ref ps resourceName increase maxValue 3 '''' w)"

definition AdjustValidate :: "ResourceReference \<Rightarrow> params \<Rightarrow> string option" where
  "AdjustValidate resource ps =
     (if rr_Kind resource \<noteq> ''Deployment'' \<and> rr_Kind resource \<noteq> ''StatefulSet''
      then Some (''adjust resource action only supports Deployment and StatefulSet, got: '' @ rr_Kind resource)
      else None)"

section \<open>Notify\<close>

definition NotifyExecute :: "ResourceReference \<Rightarrow> params \<Rightarrow> 'w \<Rightarrow> 'w outcome" where
  "NotifyExecute resource ps w =
     (let severity = stringParam ps ''severity'' ''medium'' in
      succeedWith resource ActionTypeNotify ps
        (''Notification sent for '' @ rr_String resource @ '' (severity='' @ severity @ '')'') [] w)"

definition NotifyValidate :: "ResourceReference \<Rightarrow> params \<Rightarrow> string option" where
  "NotifyValidate resource ps = None"

section \<open>The contract of a handler\<close>

text \<open>A result names the resource and the action, and it is a failure exactly when there is an error.\<close>

definition reported ::
  "ActionType \<Rightarrow> ResourceReference \<Rightarrow> params \<Rightarrow> ActionResult \<Rightarrow> string option \<Rightarrow> bool" where
  "reported aty r ps ar err \<longleftrightarrow> ar_Resource ar = r \<and> ar_Action ar = actionOf aty ps
     \<and> (case err of None \<Rightarrow> ar_Status ar = ActionStatusSucceeded
         | Some m \<Rightarrow> ar_Status ar = ActionStatusFailed \<and> ar_Error ar = m)"

locale action_handler =
  fixes aty :: ActionType
    and execute :: "ResourceReference \<Rightarrow> params \<Rightarrow> 'w \<Rightarrow> 'w outcome"
  assumes reports: "execute r ps w = Some ((ar, err), w') \<Longrightarrow> reported aty r ps ar err"
begin

lemma failed_iff_error:
  "execute r ps w = Some ((ar, err), w') \<Longrightarrow> ar_Status ar = ActionStatusFailed \<longleftrightarrow> err \<noteq> None"
  using reports [of r ps w ar err w'] by (auto simp: reported_def split: option.splits)

lemma names_action: "execute r ps w = Some ((ar, err), w') \<Longrightarrow> ac_Type (ar_Action ar) = aty \<and> ac_Params (ar_Action ar) = ps"
  using reports [of r ps w ar err w'] by (simp add: reported_def actionOf_def)

end

lemma failWith_reported: "failWith r aty ps e w = Some ((ar, err), w') \<Longrightarrow> reported aty r ps ar err"
  by (auto simp: failWith_def failResult_def reported_def)

lemma succeedWith_reported: "succeedWith r aty ps m ch w = Some ((ar, err), w') \<Longrightarrow> reported aty r ps ar err"
  by (auto simp: succeedWith_def okResult_def reported_def)

lemmas outcome_reported = failWith_reported succeedWith_reported

lemma adjustLoop_reported:
  "adjustLoop gn qo client aty r ps rn inc mx n lastErr w = Some ((ar, err), w') \<Longrightarrow> reported aty r ps ar err"
  by (induction n arbitrary: lastErr w)
    (auto simp: Let_def dest!: outcome_reported split: sum.splits option.splits prod.splits if_splits)

interpretation scale: action_handler "sh_actionType h" "ScaleExecute gn client h"
  for h and gn and client :: "('w, 't, 'q) kubeClient"
  by unfold_locales
    (auto simp: ScaleExecute_def Let_def dest!: outcome_reported split: if_splits sum.splits prod.splits option.splits)

interpretation restart: action_handler ActionTypeRestartPod "RestartExecute gn client"
  for gn and client :: "('w, 't, 'q) kubeClient"
  by unfold_locales (auto simp: RestartExecute_def dest!: outcome_reported split: prod.splits option.splits)

interpretation rollback: action_handler ActionTypeRollbackToPrevious "RollbackExecute client"
  for client :: "('w, 't, 'q) kubeClient"
  by unfold_locales
    (auto simp: RollbackExecute_def Let_def dest!: outcome_reported
      split: if_splits sum.splits prod.splits option.splits)

interpretation adjust: action_handler aty "AdjustExecute gn qo client aty"
  for aty and gn and qo and client :: "('w, 't, 'q) kubeClient"
  by unfold_locales (auto simp: AdjustExecute_def Let_def dest!: adjustLoop_reported)

interpretation notify: action_handler ActionTypeNotify "NotifyExecute :: _ \<Rightarrow> _ \<Rightarrow> 'w \<Rightarrow> 'w outcome"
  by unfold_locales (auto simp: NotifyExecute_def Let_def dest!: outcome_reported)

section \<open>Replica counts\<close>

lemma newReplicaCount_nonneg: "0 \<le> newReplicaCount old inc \<and> in32 (newReplicaCount old inc)"
  using in32_wrap32 [of "old + inc"] by (auto simp: newReplicaCount_def Let_def in32_def)

lemma newReplicaCount_exact: "in32 (old + inc) \<Longrightarrow> newReplicaCount old inc = max 0 (old + inc)"
  by (simp add: newReplicaCount_def Let_def max_def)

lemma newReplicaCount_overflow:
  assumes "in32 old" "in32 inc" "2 ^ 31 \<le> old + inc"
  shows "newReplicaCount old inc = 0"
proof -
  have "(old + inc + 2 ^ 31) mod 2 ^ 32 = (old + inc + 2 ^ 31 - 2 ^ 32) mod 2 ^ 32"
    by (metis minus_mod_self2)
  also have "\<dots> = old + inc + 2 ^ 31 - 2 ^ 32"
    using assms by (simp add: in32_def)
  finally have "(old + inc + 2 ^ 31) mod 2 ^ 32 = old + inc + 2 ^ 31 - 2 ^ 32" .
  then show ?thesis using assms by (simp add: newReplicaCount_def wrap32_def Let_def in32_def)
qed

section \<open>The previous revision\<close>

text \<open>
  With pairwise different revisions the loop never meets the second largest one again after it
  became the second largest, and finds nothing.
\<close>

lemma Max_insert_dominated:
  fixes x :: int
  assumes "finite A" "y \<in> A" "x \<le> y"
  shows "Max (insert x A) = Max A"
proof -
  have "x \<le> Max A" using assms by (meson Max_ge order_trans)
  moreover have "A \<noteq> {}" using assms by auto
  ultimately show ?thesis using assms(1) by (simp add: max_def)
qed

lemma scanRevisions_distinct:
  assumes "distinct (map parseRevision xs)" "0 \<le> mx" "second \<le> mx"
    and "\<forall>rs \<in> set xs. parseRevision rs \<noteq> mx \<and> parseRevision rs \<noteq> second"
  shows "scanRevisions xs None mx second = (None, Max (insert mx (parseRevision ` set xs)))"
  using assms
proof (induction xs arbitrary: mx second)
  case Nil
  then show ?case by simp
next
  case (Cons rs xs)
  show ?case
  proof (cases "parseRevision rs > mx")
    case True
    have "scanRevisions xs None (parseRevision rs) mx
        = (None, Max (insert (parseRevision rs) (parseRevision ` set xs)))"
      using Cons.prems True by (intro Cons.IH) (auto simp: image_iff)
    moreover have "Max (insert mx (insert (parseRevision rs) (parseRevision ` set xs)))
        = Max (insert (parseRevision rs) (parseRevision ` set xs))"
      using True by (intro Max_insert_dominated [where y = "parseRevision rs"]) auto
    ultimately show ?thesis using True Cons.prems by (simp add: insert_commute)
  next
    case False
    have "scanRevisions xs None mx second = (None, Max (insert mx (parseRevision ` set xs)))"
      using Cons.prems by (intro Cons.IH) auto
    moreover have "Max (insert mx (insert (parseRevision rs) (parseRevision ` set xs)))
        = Max (insert mx (parseRevision ` set xs))"
      using False unfolding insert_commute [of mx] by (intro Max_insert_dominated [where y = mx]) auto
    ultimately show ?thesis using False Cons.prems by simp
  qed
qed

lemma previousRevision_distinct:
  assumes "distinct (map parseRevision xs)" "\<forall>rs \<in> set xs. 0 < parseRevision rs" "xs = a # b # rest"
  shows "previousRevision xs =
    (if parseRevision a = Max (parseRevision ` set xs) then Some b else Some a)"
proof -
  have "scanRevisions xs None 0 0 = (None, Max (insert 0 (parseRevision ` set xs)))"
    using assms(1,2) by (intro scanRevisions_distinct) auto
  moreover have "Max (insert 0 (parseRevision ` set xs)) = Max (parseRevision ` set xs)"
    using assms(2,3) by (intro Max_insert_dominated [where y = "parseRevision a"]) (auto intro: less_imp_le)
  ultimately show ?thesis using assms(3) by (simp add: previousRevision_def)
qed

section \<open>Properties\<close>

text \<open>
  A sample cluster: the replicas of its Deployment, or the last patch. Quantities are integers.
\<close>

definition int_quantity :: "int quantityOps" where
  "int_quantity = \<lparr>q_Zero = 0, q_Value = id, q_String = int_dec, q_Format = (\<lambda>_. ''''), q_New = (\<lambda>v f. v),
     q_Parse = (\<lambda>s. if s = ''bad'' then None else Some 500)\<rparr>"

definition sample_num :: goNum where
  "sample_num = \<lparr>gn_ParseFloat = (\<lambda>s. if s = ''0'' then Some (Fin 0) else None), gn_Convert = (\<lambda>_. 0)\<rparr>"

definition sample_kube :: "(int, string, int) kubeClient" where
  "sample_kube = \<lparr>k8_GetScale = (\<lambda>k ns n w. Inr \<lparr>scl_Replicas = w, scl_Meta = ''rv1''\<rparr>),
     k8_UpdateScale = (\<lambda>k ns n s w. (None, scl_Replicas s)), k8_DeletePod = (\<lambda>ns n g w. (None, w)),
     k8_GetDeployment = (\<lambda>ns n w. Inr \<lparr>dep_UID = ''u'', dep_Containers = [\<lparr>ctr_Name = ''c'', ctr_Limits = [(''memory'', 900)]\<rparr>]\<rparr>),
     k8_ListReplicaSets = (\<lambda>ns w. Inr []), k8_Marshal = (\<lambda>p. None), k8_PatchDeployment = (\<lambda>ns n p w. (None, w + 1))\<rparr>"

definition sample_deployment :: ResourceReference where
  "sample_deployment = \<lparr>rr_APIVersion = ''apps/v1'', rr_Kind = ''Deployment'', rr_Namespace = ''prod'', rr_Name = ''web'', rr_UID = ''''\<rparr>"

definition sample_rs :: "string \<Rightarrow> string ReplicaSet" where
  "sample_rs n = \<lparr>rsx_OwnerReferences = [], rsx_Annotations = [(''deployment.kubernetes.io/revision'', n)],
     rsx_Template = ''template of '' @ n\<rparr>"

text \<open>
  C15. Scaling a Deployment or StatefulSet whose scale can be read writes back the object it read
  with a replica count that is never negative and always fits into 32 bits; it is the old count
  plus the increment, or zero if that is negative, when the sum fits; and when the sum exceeds the
  32-bit range the workload is scaled to zero.
\<close>

theorem scale_bounds:
  assumes "rr_Kind r \<in> {''Deployment'', ''StatefulSet''}"
    and "k8_GetScale client (rr_Kind r) (rr_Namespace r) (rr_Name r) w = Inr scale"
    and "inc = scaleIncrement gn h ps" "in32 (scl_Replicas scale)" "in32 inc"
  shows "\<exists>n. map_option snd (ScaleExecute gn client h r ps w) =
      Some (snd (k8_UpdateScale client (rr_Kind r) (rr_Namespace r) (rr_Name r) (scale\<lparr>scl_Replicas := n\<rparr>) w))
    \<and> 0 \<le> n \<and> n < 2 ^ 31
    \<and> (scl_Replicas scale + inc < 2 ^ 31 \<and> - (2 ^ 31) \<le> scl_Replicas scale + inc \<longrightarrow> n = max 0 (scl_Replicas scale + inc))
    \<and> (2 ^ 31 \<le> scl_Replicas scale + inc \<longrightarrow> n = 0)"
proof -
  let ?n = "newReplicaCount (scl_Replicas scale) inc"
  have "map_option snd (ScaleExecute gn client h r ps w) =
      Some (snd (k8_UpdateScale client (rr_Kind r) (rr_Namespace r) (rr_Name r) (scale\<lparr>scl_Replicas := ?n\<rparr>) w))"
    using assms(1-3)
    by (auto simp: ScaleExecute_def Let_def failWith_def succeedWith_def split: prod.splits option.splits)
  then show ?thesis
    using newReplicaCount_nonneg [of "scl_Replicas scale" inc] newReplicaCount_exact [of "scl_Replicas scale" inc]
      newReplicaCount_overflow [OF assms(4,5)]
    by (intro exI [of _ ?n]) (auto simp: in32_def)
qed

theorem scale_bounds_witness:
  "map_option snd (ScaleExecute sample_num sample_kube NewScaleHandler sample_deployment [(''increment'', GInt 2147483647)] 1) = Some 0"
proof -
  have inc: "2147483647 = scaleIncrement sample_num NewScaleHandler [(''increment'', GInt 2147483647)]"
    by (simp add: scaleIncrement_def NewScaleHandler_def wrap32_def)
  show ?thesis
    using scale_bounds [of sample_deployment sample_kube 1 "\<lparr>scl_Replicas = 1, scl_Meta = ''rv1''\<rparr>" 2147483647
        sample_num NewScaleHandler "[(''increment'', GInt 2147483647)]"] inc
    by (auto simp: sample_deployment_def sample_kube_def in32_def)
qed

text \<open>
  A rollback never chooses the current revision when the revisions of the owned ReplicaSets
  are positive and pairwise different: it chooses the first ReplicaSet listed if that is not the
  current one, and the second one otherwise.
\<close>

theorem rollback_choice:
  assumes "distinct (map parseRevision xs)" "\<forall>rs \<in> set xs. 0 < parseRevision rs" "xs = a # b # rest"
    and "current = Max (parseRevision ` set xs)"
  shows "\<exists>rs. previousRevision xs = Some rs \<and> rs \<in> set xs \<and> parseRevision rs < current
    \<and> rs = (if parseRevision a = current then b else a)"
proof -
  define rs where "rs = (if parseRevision a = current then b else a)"
  have sel: "previousRevision xs = Some rs"
    using previousRevision_distinct [OF assms(1-3)] assms(4) by (simp add: rs_def)
  have mem: "rs \<in> set xs" using assms(3) by (auto simp: rs_def)
  have "parseRevision rs \<noteq> current" using assms(1,3) by (auto simp: rs_def)
  moreover have "parseRevision rs \<le> current"
    unfolding assms(4) using imageI [OF mem, of parseRevision] by (intro Max_ge) simp_all
  ultimately show ?thesis using sel mem by (intro exI [of _ rs]) (simp add: rs_def)
qed

theorem rollback_choice_witness:
  "previousRevision [sample_rs ''1'', sample_rs ''2'', sample_rs ''3''] = Some (sample_rs ''1'')"
proof -
  have parsed: "ParseInt ''1'' = (1, True)" "ParseInt ''2'' = (2, True)" "ParseInt ''3'' = (3, True)"
    by (simp_all add: ParseInt_def isDigit_def dec_val_def digit_val_def)
  have rev: "parseRevision (sample_rs ''1'') = 1" "parseRevision (sample_rs ''2'') = 2" "parseRevision (sample_rs ''3'') = 3"
    by (simp_all add: parseRevision_def sample_rs_def parsed)
  let ?xs = "[sample_rs ''1'', sample_rs ''2'', sample_rs ''3'']"
  have "distinct (map parseRevision ?xs)" "\<forall>rs \<in> set ?xs. 0 < parseRevision rs" "3 = Max (parseRevision ` set ?xs)"
    by (simp_all add: rev)
  from rollback_choice [OF this(1,2) refl this(3)] show ?thesis by (simp only: rev) auto
qed

text \<open>
  C30. A limit that an adjustment computes under a maximum never exceeds it, whatever the
  percentage and however the arithmetic rounds or overflows; a maximum that does not parse
  crashes the computation.
\<close>

theorem adjust_capped:
  assumes "\<forall>v f. q_Value qo (q_New qo v f) = v" "mx \<noteq> ''''"
  shows "(\<forall>maxQ ls. q_Parse qo mx = Some maxQ \<and> newLimits gn qo rn inc mx cs = Some ls \<longrightarrow>
      map fst ls = map ctr_Name cs \<and> (\<forall>(name, old, new) \<in> set ls. q_Value qo new \<le> q_Value qo maxQ))
    \<and> (q_Parse qo mx = None \<and> cs \<noteq> [] \<longrightarrow> newLimits gn qo rn inc mx cs = None)"
proof (intro conjI allI impI)
  fix maxQ ls
  assume "q_Parse qo mx = Some maxQ \<and> newLimits gn qo rn inc mx cs = Some ls"
  then show "map fst ls = map ctr_Name cs" "\<forall>(name, old, new) \<in> set ls. q_Value qo new \<le> q_Value qo maxQ"
    using assms
    by (induction cs arbitrary: ls) (auto simp: applyIncrease_def Let_def split: option.splits if_splits)
next
  assume "q_Parse qo mx = None \<and> cs \<noteq> []"
  then show "newLimits gn qo rn inc mx cs = None"
    using assms(2) by (cases cs) (auto simp: applyIncrease_def Let_def)
qed

theorem adjust_capped_witness:
  "newLimits sample_num int_quantity ''memory'' ''0%'' ''bad'' [\<lparr>ctr_Name = ''c'', ctr_Limits = [(''memory'', 900)]\<rparr>] = None"
  using adjust_capped [of int_quantity "''bad''" sample_num "''memory''" "''0%''" "[\<lparr>ctr_Name = ''c'', ctr_Limits = [(''memory'', 900)]\<rparr>]"]
  by (simp add: int_quantity_def)

text \<open>
  Adjusting a StatefulSet, which validation accepts, acts on the Deployment of the same name:
  the effect on the cluster is the same as for a reference to that Deployment.
\<close>

theorem adjust_ignores_kind:
  "AdjustValidate (r\<lparr>rr_Kind := ''StatefulSet''\<rparr>) ps = None
   \<and> map_option snd (AdjustExecute gn qo client aty (r\<lparr>rr_Kind := ''StatefulSet''\<rparr>) ps w)
     = map_option snd (AdjustExecute gn qo client aty (r\<lparr>rr_Kind := ''Deployment''\<rparr>) ps w)"
proof -
  have "map_option snd (adjustLoop gn qo client aty (r\<lparr>rr_Kind := ''StatefulSet''\<rparr>) ps rn inc mx n e w)
      = map_option snd (adjustLoop gn qo client aty (r\<lparr>rr_Kind := ''Deployment''\<rparr>) ps rn inc mx n e w)" for rn inc mx n e
    by (induction n arbitrary: e w)
      (auto simp: failWith_def succeedWith_def Let_def split: sum.splits option.splits prod.splits)
  then show ?thesis by (simp add: AdjustValidate_def AdjustExecute_def Let_def)
qed

end
