(* ===== verification/Executor.thy ===== *)
theory Executor
  imports Handlers
begin

text \<open>
  The action executor of \<open>internal/action/executor.go\<close>: the registry of handlers by action type and
  \<open>Execute\<close>, which looks the handler up, validates and runs it. The two instants are the readings of
  the clock at the start and at the end. The locale \<open>action_executor\<close> is the interface
  \<open>ActionExecutor\<close> of the remediation layer.
\<close>

section \<open>The registry\<close>

record 'w Handler =
  h_Type :: ActionType
  h_Validate :: "ResourceReference \<Rightarrow> params \<Rightarrow> string option"
  h_Execute :: "ResourceReference \<Rightarrow> params \<Rightarrow> 'w \<Rightarrow> 'w outcome"

record 'w executorImpl =
  ex_handlers :: "(ActionType, 'w Handler) gomap"

definition RegisterHandler :: "'w executorImpl \<Rightarrow> 'w Handler \<Rightarrow> 'w executorImpl" where
  "RegisterHandler e handler = e\<lparr>ex_handlers := mput (h_Type handler) handler (ex_handlers e)\<rparr>"

definition GetHandler :: "'w executorImpl \<Rightarrow> ActionType \<Rightarrow> 'w Handler option" where
  "GetHandler e actionType = mget (ex_handlers e) actionType"

definition scaleHandler :: "goNum \<Rightarrow> ('w, 't, 'q) kubeClient \<Rightarrow> 'w Handler" where
  "scaleHandler gn client = \<lparr>h_Type = sh_actionType NewScaleHandler, h_Validate = ScaleValidate,
     h_Execute = ScaleExecute gn client NewScaleHandler\<rparr>"

definition restartHandler :: "goNum \<Rightarrow> ('w, 't, 'q) kubeClient \<Rightarrow> 'w Handler" where
  "restartHandler gn client = \<lparr>h_Type = ActionTypeRestartPod, h_Validate = RestartValidate,
     h_Execute = RestartExecute gn client\<rparr>"

definition rollbackHandler :: "('w, 't, 'q) kubeClient \<Rightarrow> 'w Handler" where
  "rollbackHandler client = \<lparr>h_Type = ActionTypeRollbackToPrevious, h_Validate = RollbackValidate,
     h_Execute = RollbackExecute client\<rparr>"

definition adjustHandler ::
  "goNum \<Rightarrow> 'q quantityOps \<Rightarrow> ('w, 't, 'q) kubeClient \<Rightarrow> ActionType \<Rightarrow> 'w Handler" where
  "adjustHandler gn qo client actionType = \<lparr>h_Type = actionType, h_Validate = AdjustValidate,
     h_Execute = AdjustExecute gn qo client actionType\<rparr>"

definition notifyHandler :: "'w Handler" where
  "notifyHandler = \<lparr>h_Type = ActionTypeNotify, h_Validate = NotifyValidate, h_Execute = NotifyExecute\<rparr>"

definition registerDefaultHandlers ::
  "goNum \<Rightarrow> 'q quantityOps \<Rightarrow> ('w, 't, 'q) kubeClient \<Rightarrow> 'w executorImpl \<Rightarrow> 'w executorImpl" where
  "registerDefaultHandlers gn qo client e =
     (let e1 = RegisterHandler e (scaleHandler gn client);
          e2 = RegisterHandler e1 (restartHandler gn client);
          e3 = RegisterHandler e2 (rollbackHandler client);
          e4 = RegisterHandler e3 (adjustHandler gn qo client ActionTypeAdjustCPU);
          e5 = RegisterHandler e4 (adjustHandler gn qo client ActionTypeAdjustMemory)
      in RegisterHandler e5 notifyHandler)"

definition newExecutorImpl :: "goNum \<Rightarrow> 'q quantityOps \<Rightarrow> ('w, 't, 'q) kubeClient \<Rightarrow> 'w executorImpl" where
  "newExecutorImpl gn qo client = registerDefaultHandlers gn qo client \<lparr>ex_handlers = []\<rparr>"

section \<open>Execution\<close>

definition Execute ::
  "'w executorImpl \<Rightarrow> time \<times> time \<Rightarrow> ResourceReference \<Rightarrow> ActionConfig \<Rightarrow> 'w \<Rightarrow> 'w outcome" where
  "Execute e ts resource action w =
     (let failed = (\<lambda>err. zeroActionResult\<lparr>ar_Resource := resource, ar_Action := action,
            ar_Status := ActionStatusFailed, ar_StartTime := fst ts, ar_EndTime := snd ts, ar_Error := err\<rparr>)
      in case GetHandler e (ac_Type action) of
           None \<Rightarrow> Some ((failed (''no handler registered for action type: '' @ ac_Type action),
                          Some (''no handler for action type: '' @ ac_Type action)), w)
         | Some handler \<Rightarrow>
             (case h_Validate handler resource (ac_Params action) of
                Some err \<Rightarrow> Some ((failed (''validation failed: '' @ err), Some err), w)
              | None \<Rightarrow>
                  (case h_Execute handler resource (ac_Params action) w of
                     None \<Rightarrow> None
                   | Some ((result, err), w') \<Rightarrow>
                       (let result1 = result\<lparr>ar_StartTime := fst ts, ar_EndTime := snd ts\<rparr> in
                        case err of
                          Some m \<Rightarrow> Some ((result1\<lparr>ar_Status := ActionStatusFailed, ar_Error := m\<rparr>, Some m), w')
                        | None \<Rightarrow> Some ((result1, None), w')))))"

section \<open>The handlers of a new executor\<close>

lemma GetHandler_new:
  "GetHandler (newExecutorImpl gn qo client) t =
     (if t = ActionTypeNotify then Some notifyHandler
      else if t = ActionTypeAdjustMemory then Some (adjustHandler gn qo client ActionTypeAdjustMemory)
      else if t = ActionTypeAdjustCPU then Some (adjustHandler gn qo client ActionTypeAdjustCPU)
      else if t = ActionTypeRollbackToPrevious then Some (rollbackHandler client)
      else if t = ActionTypeRestartPod then Some (restartHandler gn client)
      else if t = ActionTypeScaleUp then Some (scaleHandler gn client)
      else None)"
  by (simp add: GetHandler_def newExecutorImpl_def registerDefaultHandlers_def RegisterHandler_def Let_def
      scaleHandler_def restartHandler_def rollbackHandler_def adjustHandler_def notifyHandler_def NewScaleHandler_def)

lemma handlers_report:
  assumes "GetHandler (newExecutorImpl gn qo client) t = Some h" "h_Execute h r ps w = Some ((ar, err), w')"
  shows "reported t r ps ar err"
proof -
  have "reported ActionTypeScaleUp r ps ar err" if "ScaleExecute gn client NewScaleHandler r ps w = Some ((ar, err), w')"
    using scale.reports [OF that] by (simp add: NewScaleHandler_def)
  then show ?thesis
    using assms restart.reports rollback.reports adjust.reports notify.reports
    by (auto simp: GetHandler_new notifyHandler_def adjustHandler_def rollbackHandler_def restartHandler_def
        scaleHandler_def split: if_splits)
qed

section \<open>The interface of the remediation layer\<close>

locale action_executor =
  fixes exec :: "time \<times> time \<Rightarrow> ResourceReference \<Rightarrow> ActionConfig \<Rightarrow> 'w \<Rightarrow> 'w outcome"
  assumes exec_failed: "exec ts r a w = Some ((ar, Some e), w') \<Longrightarrow> ar_Status ar = ActionStatusFailed"
    and exec_succeeded: "exec ts r a w = Some ((ar, None), w') \<Longrightarrow> ar_Status ar = ActionStatusSucceeded"
    and exec_times: "exec ts r a w = Some ((ar, err), w') \<Longrightarrow> (ar_StartTime ar, ar_EndTime ar) = ts"
    and exec_resource: "exec ts r a w = Some ((ar, err), w') \<Longrightarrow> ar_Resource ar = r"
begin

text \<open>The controller's test of the status and the executor's error agree.\<close>

lemma exec_status_iff: "exec ts r a w = Some ((ar, err), w') \<Longrightarrow> ar_Status ar = ActionStatusFailed \<longleftrightarrow> err \<noteq> None"
  using exec_failed exec_succeeded by (cases err) auto

end

interpretation executor: action_executor "Execute (newExecutorImpl gn qo client)"
  for gn and qo and client :: "('w, 't, 'q) kubeClient"
proof unfold_locales
  fix ts r a and w w' :: 'w and ar err e
  let ?ex = "Execute (newExecutorImpl gn qo client)"
  show "?ex ts r a w = Some ((ar, Some e), w') \<Longrightarrow> ar_Status ar = ActionStatusFailed"
    by (auto simp: Execute_def Let_def split: option.splits)
  show "?ex ts r a w = Some ((ar, None), w') \<Longrightarrow> ar_Status ar = ActionStatusSucceeded"
    by (auto simp: Execute_def Let_def reported_def dest!: handlers_report split: option.splits)
  show "?ex ts r a w = Some ((ar, err), w') \<Longrightarrow> (ar_StartTime ar, ar_EndTime ar) = ts"
    by (auto simp: Execute_def Let_def split: option.splits)
  show "?ex ts r a w = Some ((ar, err), w') \<Longrightarrow> ar_Resource ar = r"
    by (auto simp: Execute_def Let_def reported_def dest!: handlers_report split: option.splits)
qed

section \<open>Properties\<close>

text \<open>
  C29. What the executor with its default handlers returns: the result is a failure exactly when
  an error is returned and a success otherwise, it names the resource and carries the two
  instants; and an action without a handler or one that its handler rejects leaves the cluster
  unchanged.
\<close>

theorem executor_contract:
  assumes "Execute (newExecutorImpl gn qo client) (t, t') r a w = Some ((ar, err), w')"
  shows "(err = None \<longrightarrow> ar_Status ar = ActionStatusSucceeded) \<and> (err \<noteq> None \<longrightarrow> ar_Status ar = ActionStatusFailed)
    \<and> ar_Resource ar = r \<and> ar_StartTime ar = t \<and> ar_EndTime ar = t'
    \<and> ((\<forall>h. GetHandler (newExecutorImpl gn qo client) (ac_Type a) = Some h \<longrightarrow> h_Validate h r (ac_Params a) \<noteq> None)
        \<longrightarrow> err \<noteq> None \<and> w' = w)"
proof -
  have "err \<noteq> None \<and> w' = w"
    if "\<forall>h. GetHandler (newExecutorImpl gn qo client) (ac_Type a) = Some h \<longrightarrow> h_Validate h r (ac_Params a) \<noteq> None"
  proof (cases "GetHandler (newExecutorImpl gn qo client) (ac_Type a)")
    case None
    with assms show ?thesis by (auto simp: Execute_def Let_def)
  next
    case (Some h)
    with that obtain m where v: "h_Validate h r (ac_Params a) = Some m" by auto
    with assms Some have "Some m = err \<and> w = w'" by (simp add: Execute_def Let_def)
    then show ?thesis by blast
  qed
  moreover have "(ar_StartTime ar, ar_EndTime ar) = (t, t')" by (rule executor.exec_times [OF assms])
  ultimately show ?thesis
    using assms executor.exec_succeeded executor.exec_failed executor.exec_resource [OF assms] by auto
qed

theorem executor_contract_witness:
  "\<exists>ar e. Execute (newExecutorImpl sample_num int_quantity sample_kube) (1, 2) sample_deployment
      (zeroAction\<lparr>ac_Type := ''restartPod''\<rparr>) 7 = Some ((ar, Some e), 7) \<and> ar_Status ar = ActionStatusFailed"
proof -
  obtain ar e where "Execute (newExecutorImpl sample_num int_quantity sample_kube) (1, 2) sample_deployment
      (zeroAction\<lparr>ac_Type := ''restartPod''\<rparr>) 7 = Some ((ar, Some e), 7)"
    by (simp add: Execute_def GetHandler_new action_type_defs restartHandler_def RestartValidate_def sample_deployment_def)
  with executor_contract [OF this] show ?thesis by auto
qed

text \<open>
  Only six action types have a handler. Every other type, among them the types scaleDown,
  updateConfig and runJob that the source declares and the type rollbackToPrevious that the custom
  resource admits, fails without an effect on the cluster.
\<close>

theorem unhandled_types_fail:
  assumes "ac_Type a \<notin> {''scaleUp'', ''restartPod'', ''rollback'', ''adjustCPU'', ''adjustMemory'', ''notify''}"
  shows "\<exists>ar e. Execute (newExecutorImpl gn qo client) ts r a w = Some ((ar, Some e), w)
    \<and> ar_Status ar = ActionStatusFailed"
proof -
  have "GetHandler (newExecutorImpl gn qo client) (ac_Type a) = None"
    using assms by (simp add: GetHandler_new action_type_defs)
  then show ?thesis by (simp add: Execute_def Let_def)
qed

theorem unhandled_types_fail_witness:
  "\<exists>ar e. Execute (newExecutorImpl sample_num int_quantity sample_kube) (1, 2) sample_deployment
      (zeroAction\<lparr>ac_Type := ''rollbackToPrevious''\<rparr>) 7 = Some ((ar, Some e), 7) \<and> ar_Status ar = ActionStatusFailed"
  by (rule unhandled_types_fail) simp

lemma newLimits_panic: "newLimits gn qo rn inc mx cs = None \<Longrightarrow> mx \<noteq> '''' \<and> q_Parse qo mx = None"
  by (induction cs) (auto simp: applyIncrease_def Let_def split: option.splits if_splits)

lemma adjustLoop_panic:
  "adjustLoop gn qo client aty r ps rn inc mx n e w = None \<Longrightarrow> mx \<noteq> '''' \<and> q_Parse qo mx = None"
  by (induction n arbitrary: e w)
    (auto simp: failWith_def succeedWith_def Let_def dest: newLimits_panic
      split: sum.splits option.splits prod.splits if_splits)

lemma handler_panic:
  "ScaleExecute gn client h r ps w \<noteq> None" "RestartExecute gn client r ps w \<noteq> None"
  "RollbackExecute client r ps w \<noteq> None" "NotifyExecute r ps w \<noteq> None"
  by (auto simp: ScaleExecute_def RestartExecute_def RollbackExecute_def NotifyExecute_def failWith_def
      succeedWith_def Let_def split: sum.splits option.splits prod.splits)

text \<open>
  The executor panics only for an action that adjusts CPU or memory with a maximum that is
  not a quantity.
\<close>

theorem panic_only_bad_maximum:
  assumes "Execute (newExecutorImpl gn qo client) ts r a w = None"
  shows "ac_Type a \<in> {ActionTypeAdjustCPU, ActionTypeAdjustMemory}
    \<and> (\<exists>s. mget (ac_Params a) ''maxValue'' = Some (GString s) \<and> s \<noteq> '''' \<and> q_Parse qo s = None)"
proof -
  obtain h where h: "GetHandler (newExecutorImpl gn qo client) (ac_Type a) = Some h" "h_Execute h r (ac_Params a) w = None"
    using assms by (auto simp: Execute_def Let_def split: option.splits)
  then have t: "ac_Type a \<in> {ActionTypeAdjustCPU, ActionTypeAdjustMemory}"
    and "AdjustExecute gn qo client (ac_Type a) r (ac_Params a) w = None"
    by (auto simp: GetHandler_new handler_panic notifyHandler_def adjustHandler_def rollbackHandler_def
        restartHandler_def scaleHandler_def split: if_splits)
  then have "stringParam (ac_Params a) ''maxValue'' '''' \<noteq> ''''
      \<and> q_Parse qo (stringParam (ac_Params a) ''maxValue'' '''') = None"
    unfolding AdjustExecute_def Let_def by (rule_tac adjustLoop_panic) auto
  with t show ?thesis by (auto simp: stringParam_def split: option.splits gval.splits)
qed

theorem panic_only_bad_maximum_witness:
  "q_Parse int_quantity ''bad'' = None
   \<and> Execute (newExecutorImpl sample_num int_quantity sample_kube) (1, 2) sample_deployment
       (zeroAction\<lparr>ac_Type := ''adjustMemory'', ac_Params := [(''maxValue'', GString ''bad'')]\<rparr>) 7 = None"
proof -
  have crash: "Execute (newExecutorImpl sample_num int_quantity sample_kube) (1, 2) sample_deployment
       (zeroAction\<lparr>ac_Type := ''adjustMemory'', ac_Params := [(''maxValue'', GString ''bad'')]\<rparr>) 7 = None"
    by (simp add: Execute_def GetHandler_new action_type_defs adjustHandler_def AdjustValidate_def AdjustExecute_def
        sample_deployment_def stringParam_def sample_kube_def applyIncrease_def int_quantity_def numeral_3_eq_3)
  with panic_only_bad_maximum [OF crash] show ?thesis by simp
qed

end
