(* ===== verification/TaskQueue.thy ===== *)
theory TaskQueue
  imports Executor Config
begin

text \<open>
  The work queue of \<open>internal/taskqueue\<close>: the custom resource \<open>RemediationTask\<close>, the publisher of the
  leader, the workers that claim and execute tasks, and the janitor that expires and deletes
  them. The dynamic client is the record \<open>taskAPI\<close> of the calls on a cluster of type \<open>'w\<close>; a task is
  the record of the fields that the code reads and writes by path, with a field that is absent
  from the object empty. The actions of a task stay uninterpreted JSON values, as the worker
  reads them. Strings are ASCII.
\<close>

section \<open>The custom resource\<close>

type_synonym RemediationTaskPhase = string

definition TaskPhasePending :: RemediationTaskPhase where "TaskPhasePending = ''Pending''"
definition TaskPhaseRunning :: RemediationTaskPhase where "TaskPhaseRunning = ''Running''"
definition TaskPhaseCompleted :: RemediationTaskPhase where "TaskPhaseCompleted = ''Completed''"
definition TaskPhaseFailed :: RemediationTaskPhase where "TaskPhaseFailed = ''Failed''"
definition TaskPhaseExpired :: RemediationTaskPhase where "TaskPhaseExpired = ''Expired''"

lemmas phase_defs [go_simps] =
  TaskPhasePending_def TaskPhaseRunning_def TaskPhaseCompleted_def TaskPhaseFailed_def TaskPhaseExpired_def

record TaskTarget =
  tt_APIVersion :: string
  tt_Kind :: string
  tt_Name :: string
  tt_Namespace :: string

record RemediationTaskSpec =
  tsp_ScenarioID :: string
  tsp_ScenarioName :: string
  tsp_DetectionResultID :: string
  tsp_Severity :: string
  tsp_Target :: TaskTarget
  tsp_Actions :: "gval list"
  tsp_Timeout :: string
  tsp_MaxRetries :: int

record TaskResult =
  trs_Success :: bool
  trs_Message :: string
  trs_Error :: string

record RemediationTaskStatus =
  tst_Phase :: RemediationTaskPhase
  tst_ClaimedBy :: string
  tst_ClaimedAt :: string
  tst_CompletedAt :: string
  tst_ActionsCompleted :: int
  tst_Result :: "TaskResult option"

record RemediationTask =
  tk_Name :: string
  tk_Namespace :: string
  tk_Labels :: labels
  tk_ResourceVersion :: nat
  tk_CreationTimestamp :: time
  tk_Spec :: RemediationTaskSpec
  tk_Status :: RemediationTaskStatus

definition emptyStatus :: RemediationTaskStatus where
  "emptyStatus = \<lparr>tst_Phase = '''', tst_ClaimedBy = '''', tst_ClaimedAt = '''', tst_CompletedAt = '''',
     tst_ActionsCompleted = 0, tst_Result = None\<rparr>"

text \<open>The phase as every reader takes it: a task without one is pending.\<close>

definition phaseOf :: "RemediationTask \<Rightarrow> RemediationTaskPhase" where
  "phaseOf obj = (if tst_Phase (tk_Status obj) = '''' then TaskPhasePending else tst_Phase (tk_Status obj))"

section \<open>The client\<close>

record 'w taskAPI =
  ta_Get :: "string \<Rightarrow> 'w \<Rightarrow> apierror + RemediationTask"
  ta_List :: "'w \<Rightarrow> apierror + RemediationTask list"
  ta_Create :: "RemediationTask \<Rightarrow> 'w \<Rightarrow> apierror option \<times> 'w"
  ta_UpdateStatus :: "RemediationTask \<Rightarrow> 'w \<Rightarrow> apierror option \<times> 'w"
  ta_Delete :: "string \<Rightarrow> 'w \<Rightarrow> apierror option \<times> 'w"

section \<open>Publisher\<close>

text \<open>\<open>Time.UnixMilli\<close>; the epoch is 719162 days after the zero instant.\<close>

definition UnixMilli :: "time \<Rightarrow> int" where
  "UnixMilli t = t div 1000000 - 719162 * 86400 * 1000"

definition toLower :: "string \<Rightarrow> string" where
  "toLower s = map (\<lambda>c. if of_char c \<ge> (65 :: nat) \<and> of_char c \<le> (90 :: nat) then char_of (of_char c + 32 :: nat) else c) s"

definition rfc1123Valid :: "char \<Rightarrow> bool" where
  "rfc1123Valid c \<longleftrightarrow> c \<in> set ''abcdefghijklmnopqrstuvwxyz0123456789.-''"

definition trimDashes :: "string \<Rightarrow> string" where
  "trimDashes s = rev (dropWhile (\<lambda>c. c = CHR ''-'') (rev (dropWhile (\<lambda>c. c = CHR ''-'') s)))"

text \<open>After the replacement no white space is left for \<open>strings.TrimSpace\<close> to remove.\<close>

definition sanitizeForRFC1123 :: "string \<Rightarrow> string" where
  "sanitizeForRFC1123 s =
     (let out = trimDashes (map (\<lambda>c. if rfc1123Valid c then c else CHR ''-'') (toLower s))
      in if out = '''' then ''unknown'' else out)"

definition taskName :: "time \<Rightarrow> DetectionResult \<Rightarrow> ResourceReference \<Rightarrow> string" where
  "taskName now result resource = ''task-'' @ sanitizeForRFC1123 (dr_ScenarioID result) @ ''-''
     @ sanitizeForRFC1123 (rr_Name resource) @ ''-'' @ int_dec (UnixMilli now)"

text \<open>\<open>fmtv\<close> is the verb \<open>%v\<close>.\<close>

definition crdAction :: "(gval \<Rightarrow> string) \<Rightarrow> ActionConfig \<Rightarrow> gval" where
  "crdAction fmtv a = GMap [(''type'', GString (ac_Type a)), (''order'', GInt (ac_Order a)),
     (''params'', GMap (map (\<lambda>(k, v). (k, GString (fmtv v))) (ac_Params a)))]"

definition taskObject ::
  "(ActionConfig list \<Rightarrow> ActionConfig list) \<Rightarrow> (gval \<Rightarrow> string) \<Rightarrow> string \<Rightarrow> time \<Rightarrow> DetectionResult \<Rightarrow> ResourceReference
     \<Rightarrow> RemediationTask" where
  "taskObject srt fmtv namespace now result resource =
     \<lparr>tk_Name = taskName now result resource, tk_Namespace = namespace,
      tk_Labels = [(''ariadna-ops.com/scenario'', dr_ScenarioID result)],
      tk_ResourceVersion = 0, tk_CreationTimestamp = 0,
      tk_Spec = \<lparr>tsp_ScenarioID = dr_ScenarioID result, tsp_ScenarioName = dr_ScenarioName result,
        tsp_DetectionResultID = dr_ID result, tsp_Severity = dr_Severity result,
        tsp_Target = \<lparr>tt_APIVersion = rr_APIVersion resource, tt_Kind = rr_Kind resource,
          tt_Name = rr_Name resource, tt_Namespace = rr_Namespace resource\<rparr>,
        tsp_Actions = map (crdAction fmtv) (srt (dr_RecommendedActions result)),
        tsp_Timeout = ''60s'', tsp_MaxRetries = 3\<rparr>,
      tk_Status = emptyStatus\<rparr>"

definition Publish ::
  "'w taskAPI \<Rightarrow> (ActionConfig list \<Rightarrow> ActionConfig list) \<Rightarrow> (gval \<Rightarrow> string) \<Rightarrow> string \<Rightarrow> time \<Rightarrow> DetectionResult
     \<Rightarrow> ResourceReference \<Rightarrow> 'w \<Rightarrow> string option \<times> 'w" where
  "Publish api srt fmtv namespace now result resource w =
     (case ta_Create api (taskObject srt fmtv namespace now result resource) w of
        (Some err, w') \<Rightarrow> (Some (''create RemediationTask: '' @ err_Error err), w')
      | (None, w') \<Rightarrow> (None, w'))"

section \<open>Worker\<close>

fun extractAction :: "gval \<Rightarrow> ActionConfig option" where
  "extractAction (GMap m) = Some (zeroAction\<lparr>
     ac_Type := (case mget m ''type'' of Some (GString t) \<Rightarrow> t | _ \<Rightarrow> ''''),
     ac_Order := (case mget m ''order'' of Some (GInt i) \<Rightarrow> i | _ \<Rightarrow> 0),
     ac_Params := (case mget m ''params'' of Some (GMap pm) \<Rightarrow> pm | _ \<Rightarrow> [])\<rparr>)"
| "extractAction _ = None"

definition extractFromTask :: "RemediationTask \<Rightarrow> ResourceReference \<times> ActionConfig list" where
  "extractFromTask obj =
     (let target = tsp_Target (tk_Spec obj) in
      (zeroResource\<lparr>rr_APIVersion := tt_APIVersion target, rr_Kind := tt_Kind target,
         rr_Name := tt_Name target, rr_Namespace := tt_Namespace target\<rparr>,
       List.map_filter extractAction (tsp_Actions (tk_Spec obj))))"

text \<open>The test of the watch loop, and the status with which a worker claims a task.\<close>

definition claimable :: "RemediationTask \<Rightarrow> bool" where
  "claimable obj \<longleftrightarrow> phaseOf obj = TaskPhasePending"

definition claimStatus :: "location \<Rightarrow> time \<Rightarrow> string \<Rightarrow> RemediationTask \<Rightarrow> RemediationTask" where
  "claimStatus loc now identity obj = obj\<lparr>tk_Status := (tk_Status obj)\<lparr>tst_Phase := TaskPhaseRunning,
     tst_ClaimedBy := identity, tst_ClaimedAt := format_RFC3339 loc now\<rparr>\<rparr>"

text \<open>
  The action loop: the number of completed actions, whether all went well, and the last result
  and error. The executor is the interface \<open>action.Executor\<close>, with a pair of clock readings for
  each action.
\<close>

type_synonym 'w TaskExecutor =
  "time \<times> time \<Rightarrow> ResourceReference \<Rightarrow> ActionConfig \<Rightarrow> 'w \<Rightarrow> (ActionResult \<times> string option) \<times> 'w"

fun runTask ::
  "'w TaskExecutor \<Rightarrow> (nat \<Rightarrow> time \<times> time) \<Rightarrow> ResourceReference \<Rightarrow> nat \<Rightarrow> ActionConfig list \<Rightarrow> ActionResult \<Rightarrow> 'w
     \<Rightarrow> (nat \<times> bool \<times> ActionResult \<times> string option) \<times> 'w" where
  "runTask exec clk resource completed [] lastResult w = ((completed, True, lastResult, None), w)"
| "runTask exec clk resource completed (actionCfg # rest) lastResult w =
     (let ((result, err), w') = exec (clk completed) resource actionCfg w in
      if err \<noteq> None \<or> ar_Status result = ActionStatusFailed then ((completed, False, result, err), w')
      else runTask exec clk resource (Suc completed) rest result w')"

definition finalStatus ::
  "location \<Rightarrow> time \<Rightarrow> nat \<Rightarrow> bool \<Rightarrow> ActionResult \<Rightarrow> string option \<Rightarrow> RemediationTask \<Rightarrow> RemediationTask" where
  "finalStatus loc now completed success result execErr obj =
     obj\<lparr>tk_Status := (tk_Status obj)\<lparr>
       tst_Phase := (if \<not> success then TaskPhaseFailed else TaskPhaseCompleted),
       tst_CompletedAt := format_RFC3339 loc now, tst_ActionsCompleted := int completed,
       tst_Result := Some \<lparr>trs_Success = success, trs_Message = ar_Message result,
         trs_Error = (case execErr of Some e \<Rightarrow> e | None \<Rightarrow> ar_Error result)\<rparr>\<rparr>\<rparr>"

definition updateTaskStatus ::
  "'w taskAPI \<Rightarrow> location \<Rightarrow> time \<Rightarrow> string \<Rightarrow> nat \<Rightarrow> bool \<Rightarrow> ActionResult \<Rightarrow> string option \<Rightarrow> 'w \<Rightarrow> 'w" where
  "updateTaskStatus api loc now name completed success result execErr w =
     (case ta_Get api name w of
        Inl err \<Rightarrow> w
      | Inr obj \<Rightarrow> snd (ta_UpdateStatus api (finalStatus loc now completed success result execErr obj) w))"

record task_clock =
  tc_claim :: time
  tc_action :: "nat \<Rightarrow> time \<times> time"
  tc_done :: time

text \<open>The result says whether the task was claimed.\<close>

definition claimAndExecute ::
  "'w taskAPI \<Rightarrow> 'w TaskExecutor \<Rightarrow> (ActionConfig list \<Rightarrow> ActionConfig list) \<Rightarrow> location \<Rightarrow> task_clock \<Rightarrow> string
     \<Rightarrow> RemediationTask \<Rightarrow> 'w \<Rightarrow> bool \<times> 'w" where
  "claimAndExecute api exec srt loc clk identity obj w =
     (case ta_UpdateStatus api (claimStatus loc (tc_claim clk) identity obj) w of
        (Some err, w1) \<Rightarrow> (False, w1)
      | (None, w1) \<Rightarrow>
          (let (resource, actions) = extractFromTask obj;
               ((completed, overallOK, lastResult, lastErr), w2) =
                 runTask exec (tc_action clk) resource 0 (srt actions) zeroActionResult w1
           in (True, updateTaskStatus api loc (tc_done clk) (tk_Name obj) completed overallOK lastResult lastErr w2)))"

text \<open>What the watch loop does with one event: only added or modified pending tasks are claimed.\<close>

datatype taskEventType = TaskAdded | TaskModified | TaskDeleted | TaskBookmark | TaskError

definition onWatchEvent :: "taskEventType \<Rightarrow> RemediationTask \<Rightarrow> bool" where
  "onWatchEvent t obj \<longleftrightarrow> (t = TaskAdded \<or> t = TaskModified) \<and> claimable obj"

text \<open>
  The watch loop on what the channel of its watcher delivers, with the tasks for which it starts
  \<open>claimAndExecute\<close>. An event may carry another object than a task.
\<close>

datatype taskWatchInput = WatcherCtxDone | WatcherClosed | TaskEvent taskEventType "RemediationTask option"

fun taskWatchSelect :: "taskWatchInput list \<Rightarrow> RemediationTask list \<Rightarrow> RemediationTask list option" where
  "taskWatchSelect [] started = None"
| "taskWatchSelect (WatcherCtxDone # _) started = Some started"
| "taskWatchSelect (WatcherClosed # _) started = Some started"
| "taskWatchSelect (TaskEvent t obj # rest) started =
     (case obj of
        None \<Rightarrow> taskWatchSelect rest started
      | Some task \<Rightarrow> taskWatchSelect rest (if onWatchEvent t task then started @ [task] else started))"

text \<open>\<open>listed\<close> is the resource version of the list call, \<open>newWatcher\<close> makes a \<open>RetryWatcher\<close>.\<close>

definition watchLoop ::
  "string + string \<Rightarrow> (string \<Rightarrow> string + taskWatchInput list) \<Rightarrow> (string option \<times> RemediationTask list) option" where
  "watchLoop listed newWatcher =
     (case listed of
        Inl err \<Rightarrow> Some (Some (''list for resource version: '' @ err), [])
      | Inr version \<Rightarrow>
          (let rv = (if version = '''' then ''1'' else version) in
           case newWatcher rv of
             Inl err \<Rightarrow> Some (Some (''create retry watcher: '' @ err), [])
           | Inr inputs \<Rightarrow> map_option (\<lambda>tasks. (None, tasks)) (taskWatchSelect inputs [])))"

text \<open>\<open>Run\<close> after it has set the worker ready: the tasks started in all sessions.\<close>

definition workerRun :: "((string option \<times> RemediationTask list) \<times> bool \<times> bool) list \<Rightarrow> RemediationTask list option" where
  "workerRun sessions = map_option concat (retryLoop sessions [])"

lemma taskWatchSelect_started:
  "taskWatchSelect ins acc = Some tasks \<Longrightarrow>
     \<exists>evs ending rest. ins = map (\<lambda>(t, obj). TaskEvent t obj) evs @ ending # rest
       \<and> ending \<in> {WatcherCtxDone, WatcherClosed}
       \<and> tasks = acc @ List.map_filter (\<lambda>(t, obj). case obj of Some task \<Rightarrow> if onWatchEvent t task then Some task else None | None \<Rightarrow> None) evs"
proof (induction ins acc rule: taskWatchSelect.induct)
  case (2 rest acc)
  then show ?case by (intro exI [of _ "[]"]) (simp add: List.map_filter_simps)
next
  case (3 rest acc)
  then show ?case by (intro exI [of _ "[]"]) (simp add: List.map_filter_simps)
next
  case (4 t obj rest acc)
  let ?acc = "case obj of None \<Rightarrow> acc | Some task \<Rightarrow> if onWatchEvent t task then acc @ [task] else acc"
  have "taskWatchSelect rest ?acc = Some tasks" using 4(3) by (cases obj) simp_all
  then obtain evs ending rest' where e: "rest = map (\<lambda>(t, obj). TaskEvent t obj) evs @ ending # rest'"
      "ending \<in> {WatcherCtxDone, WatcherClosed}"
      "tasks = ?acc @ List.map_filter (\<lambda>(t, obj). case obj of Some task \<Rightarrow> if onWatchEvent t task then Some task else None | None \<Rightarrow> None) evs"
    using 4(1, 2) by (cases obj) auto
  then show ?case
    by (intro exI [of _ "(t, obj) # evs"] exI [of _ ending] exI [of _ rest'])
      (auto simp: List.map_filter_simps split: option.splits)
qed simp

record Worker =
  wk_namespace :: string
  wk_identity :: string
  wk_ready :: bool

definition NewWorker :: "string \<Rightarrow> string \<Rightarrow> Worker" where
  "NewWorker namespace identity = \<lparr>wk_namespace = namespace, wk_identity = identity, wk_ready = False\<rparr>"

definition workerSetReady :: "Worker \<Rightarrow> bool \<Rightarrow> Worker" where
  "workerSetReady wk ready = wk\<lparr>wk_ready := ready\<rparr>"

definition workerStart :: "Worker \<Rightarrow> Worker" where
  "workerStart wk = workerSetReady wk True"

definition workerStop :: "Worker \<Rightarrow> Worker" where
  "workerStop wk = workerSetReady wk False"

definition workerReady :: "Worker \<Rightarrow> bool" where
  "workerReady wk = wk_ready wk"

section \<open>Janitor\<close>

text \<open>\<open>parse339\<close> is \<open>time.Parse(time.RFC3339, s)\<close>.\<close>

type_synonym parser = "string \<Rightarrow> time option"

definition isStuck :: "parser \<Rightarrow> TaskQueueConfig \<Rightarrow> RemediationTask \<Rightarrow> time \<Rightarrow> bool" where
  "isStuck parse339 cfg obj now =
     (let claimedAtStr = tst_ClaimedAt (tk_Status obj) in
      if claimedAtStr = '''' then False
      else case parse339 claimedAtStr of
        None \<Rightarrow> False
      | Some claimedAt \<Rightarrow> time_After now (time_Add claimedAt (tq_ActiveDeadline cfg)))"

definition terminalTime :: "parser \<Rightarrow> RemediationTask \<Rightarrow> time" where
  "terminalTime parse339 obj =
     (let s = tst_CompletedAt (tk_Status obj) in
      if s = '''' then 0 else case parse339 s of None \<Rightarrow> 0 | Some t \<Rightarrow> t)"

definition endTime :: "parser \<Rightarrow> RemediationTask \<Rightarrow> time" where
  "endTime parse339 obj =
     (let ts = terminalTime parse339 obj in if time_IsZero ts then tk_CreationTimestamp obj else ts)"

definition isPastRetention :: "parser \<Rightarrow> TaskQueueConfig \<Rightarrow> RemediationTask \<Rightarrow> time \<Rightarrow> bool" where
  "isPastRetention parse339 cfg obj now =
     (let ts = terminalTime parse339 obj in
      if \<not> time_IsZero ts then time_After now (time_Add ts (tq_RetentionPeriod cfg))
      else time_After now (time_Add (tk_CreationTimestamp obj) (tq_RetentionPeriod cfg)))"

definition shouldDeleteTerminal :: "parser \<Rightarrow> TaskQueueConfig \<Rightarrow> RemediationTask \<Rightarrow> time \<Rightarrow> time \<Rightarrow> bool" where
  "shouldDeleteTerminal parse339 cfg obj now tLast =
     (if tq_TrailingRetention cfg > 0 \<and> \<not> time_IsZero tLast then
        time_Before (endTime parse339 obj) (time_Add tLast (- tq_TrailingRetention cfg))
      else isPastRetention parse339 cfg obj now)"

definition isTerminal :: "RemediationTask \<Rightarrow> bool" where
  "isTerminal obj \<longleftrightarrow> phaseOf obj = TaskPhaseCompleted \<or> phaseOf obj = TaskPhaseFailed \<or> phaseOf obj = TaskPhaseExpired"

fun lastTerminal :: "parser \<Rightarrow> RemediationTask list \<Rightarrow> time \<Rightarrow> time" where
  "lastTerminal parse339 [] tLast = tLast"
| "lastTerminal parse339 (obj # rest) tLast =
     (if \<not> isTerminal obj then lastTerminal parse339 rest tLast
      else lastTerminal parse339 rest
             (if time_After (endTime parse339 obj) tLast then endTime parse339 obj else tLast))"

text \<open>\<open>deadline\<close> is the printed \<open>ActiveDeadline\<close>.\<close>

definition expireStatus :: "location \<Rightarrow> time \<Rightarrow> string \<Rightarrow> RemediationTask \<Rightarrow> RemediationTask" where
  "expireStatus loc now deadline obj = obj\<lparr>tk_Status := (tk_Status obj)\<lparr>tst_Phase := TaskPhaseExpired,
     tst_CompletedAt := format_RFC3339 loc now,
     tst_Result := Some \<lparr>trs_Success = False,
       trs_Message = ''Expired: stuck in Running for longer than '' @ deadline, trs_Error = ''''\<rparr>\<rparr>\<rparr>"

definition expireTask :: "'w taskAPI \<Rightarrow> location \<Rightarrow> time \<Rightarrow> string \<Rightarrow> RemediationTask \<Rightarrow> 'w \<Rightarrow> 'w" where
  "expireTask api loc now deadline obj w = snd (ta_UpdateStatus api (expireStatus loc now deadline obj) w)"

definition deleteTask :: "'w taskAPI \<Rightarrow> RemediationTask \<Rightarrow> 'w \<Rightarrow> 'w" where
  "deleteTask api obj w = snd (ta_Delete api (tk_Name obj) w)"

text \<open>The gauges that a sweep publishes, and how many tasks it expired and deleted.\<close>

record gauges =
  ga_pending :: int
  ga_running :: int
  ga_completed :: int
  ga_failed :: int
  ga_expired :: int
  ga_expiredCount :: int
  ga_deletedCount :: int

definition zeroGauges :: gauges where
  "zeroGauges = \<lparr>ga_pending = 0, ga_running = 0, ga_completed = 0, ga_failed = 0, ga_expired = 0,
     ga_expiredCount = 0, ga_deletedCount = 0\<rparr>"

definition sweepTask ::
  "'w taskAPI \<Rightarrow> parser \<Rightarrow> TaskQueueConfig \<Rightarrow> location \<Rightarrow> string \<Rightarrow> time \<Rightarrow> time \<Rightarrow> time \<Rightarrow> RemediationTask
     \<Rightarrow> gauges \<times> 'w \<Rightarrow> gauges \<times> 'w" where
  "sweepTask api parse339 cfg loc deadline now tLast expNow obj s =
     (let (g, w) = s; phase = phaseOf obj; del = shouldDeleteTerminal parse339 cfg obj now tLast in
      if phase = TaskPhasePending then (g\<lparr>ga_pending := ga_pending g + 1\<rparr>, w)
      else if phase = TaskPhaseRunning then
        (if isStuck parse339 cfg obj now
         then (g\<lparr>ga_expired := ga_expired g + 1, ga_expiredCount := ga_expiredCount g + 1\<rparr>,
               expireTask api loc expNow deadline obj w)
         else (g\<lparr>ga_running := ga_running g + 1\<rparr>, w))
      else if phase = TaskPhaseCompleted then
        (if del then (g\<lparr>ga_deletedCount := ga_deletedCount g + 1\<rparr>, deleteTask api obj w)
         else (g\<lparr>ga_completed := ga_completed g + 1\<rparr>, w))
      else if phase = TaskPhaseFailed then
        (if del then (g\<lparr>ga_deletedCount := ga_deletedCount g + 1\<rparr>, deleteTask api obj w)
         else (g\<lparr>ga_failed := ga_failed g + 1\<rparr>, w))
      else if phase = TaskPhaseExpired then
        (if del then (g\<lparr>ga_deletedCount := ga_deletedCount g + 1\<rparr>, deleteTask api obj w)
         else (g\<lparr>ga_expired := ga_expired g + 1\<rparr>, w))
      else (g, w))"

fun sweepAll ::
  "'w taskAPI \<Rightarrow> parser \<Rightarrow> TaskQueueConfig \<Rightarrow> location \<Rightarrow> string \<Rightarrow> time \<Rightarrow> time \<Rightarrow> (nat \<Rightarrow> time) \<Rightarrow> nat
     \<Rightarrow> RemediationTask list \<Rightarrow> gauges \<times> 'w \<Rightarrow> gauges \<times> 'w" where
  "sweepAll api parse339 cfg loc deadline now tLast clk i [] s = s"
| "sweepAll api parse339 cfg loc deadline now tLast clk i (obj # rest) s =
     sweepAll api parse339 cfg loc deadline now tLast clk (Suc i) rest
       (sweepTask api parse339 cfg loc deadline now tLast (clk i) obj s)"

text \<open>A sweep whose listing fails publishes no gauges.\<close>

definition sweep ::
  "'w taskAPI \<Rightarrow> parser \<Rightarrow> TaskQueueConfig \<Rightarrow> location \<Rightarrow> string \<Rightarrow> time \<Rightarrow> (nat \<Rightarrow> time) \<Rightarrow> 'w \<Rightarrow> gauges option \<times> 'w" where
  "sweep api parse339 cfg loc deadline now clk w =
     (case ta_List api w of
        Inl err \<Rightarrow> (None, w)
      | Inr items \<Rightarrow>
          (let tLast = (if tq_TrailingRetention cfg > 0 then lastTerminal parse339 items 0 else 0);
               (g, w') = sweepAll api parse339 cfg loc deadline now tLast clk 0 items (zeroGauges, w)
           in (Some g, w')))"

section \<open>Names of tasks\<close>

lemma set_trimDashes: "set (trimDashes s) \<subseteq> set s"
proof
  fix c assume "c \<in> set (trimDashes s)"
  then have "c \<in> set (dropWhile (\<lambda>c. c = CHR ''-'') (rev (dropWhile (\<lambda>c. c = CHR ''-'') s)))" by (simp add: trimDashes_def)
  then have "c \<in> set (dropWhile (\<lambda>c. c = CHR ''-'') s)" by (auto dest!: set_dropWhileD)
  then show "c \<in> set s" by (auto dest!: set_dropWhileD)
qed

lemma hd_dropWhile_neq: "dropWhile P xs \<noteq> [] \<Longrightarrow> \<not> P (hd (dropWhile P xs))"
  by (rule hd_dropWhile)

lemma dropWhile_keeps_last: "dropWhile P xs \<noteq> [] \<Longrightarrow> last (dropWhile P xs) = last xs"
  by (induction xs) auto

lemma trimDashes_ends:
  assumes "trimDashes s \<noteq> []"
  shows "hd (trimDashes s) \<noteq> CHR ''-''" "last (trimDashes s) \<noteq> CHR ''-''"
proof -
  define d where "d = dropWhile (\<lambda>c. c = CHR ''-'') s"
  define b where "b = dropWhile (\<lambda>c. c = CHR ''-'') (rev d)"
  have t: "trimDashes s = rev b" by (simp only: trimDashes_def d_def b_def)
  have b: "b \<noteq> []" using assms by (simp add: t)
  then have d: "d \<noteq> []" by (auto simp: b_def)
  have "hd b \<noteq> CHR ''-''" using hd_dropWhile_neq b unfolding b_def by fast
  then show "last (trimDashes s) \<noteq> CHR ''-''" using b by (simp add: t last_rev)
  have "last b = hd d" using dropWhile_keeps_last b d unfolding b_def by (metis last_rev)
  moreover have "hd d \<noteq> CHR ''-''" using hd_dropWhile_neq d unfolding d_def by fast
  ultimately show "hd (trimDashes s) \<noteq> CHR ''-''" using b by (simp add: t hd_rev)
qed

lemma sanitize_ok:
  "sanitizeForRFC1123 s \<noteq> [] \<and> list_all rfc1123Valid (sanitizeForRFC1123 s)
   \<and> hd (sanitizeForRFC1123 s) \<noteq> CHR ''-'' \<and> last (sanitizeForRFC1123 s) \<noteq> CHR ''-''"
proof -
  define m where "m = map (\<lambda>c. if rfc1123Valid c then c else CHR ''-'') (toLower s)"
  have dash: "rfc1123Valid (CHR ''-'')" by (simp add: rfc1123Valid_def)
  have "\<forall>c \<in> set m. rfc1123Valid c" using dash by (auto simp: m_def)
  then have valid: "list_all rfc1123Valid (trimDashes m)"
    using set_trimDashes [of m] by (auto simp: list_all_iff)
  have s: "sanitizeForRFC1123 s = (if trimDashes m = [] then ''unknown'' else trimDashes m)"
    by (simp add: sanitizeForRFC1123_def Let_def m_def)
  show ?thesis
  proof (cases "trimDashes m = []")
    case True
    then show ?thesis by (simp add: s rfc1123Valid_def)
  next
    case False
    then show ?thesis using valid trimDashes_ends [OF False] by (simp add: s)
  qed
qed

lemma nat_dec_valid: "list_all rfc1123Valid (nat_dec n)"
proof (induction n rule: nat_dec.induct)
  case (1 n)
  have digit: "rfc1123Valid (''0123456789'' ! d)" if "d < 10" for d
  proof -
    from that have "d \<in> {0, 1, 2, 3, 4, 5, 6, 7, 8, 9}" by auto
    then show ?thesis by (auto simp: rfc1123Valid_def)
  qed
  show ?case
    using 1 digit [of n] digit [of "n mod 10"] by (cases "n < 10") (simp_all add: nat_dec.simps [of n])
qed

lemma int_dec_valid: "list_all rfc1123Valid (int_dec i)"
  using nat_dec_valid by (simp add: int_dec_def rfc1123Valid_def)

section \<open>Running the actions of a task\<close>

lemma runTask_completed:
  assumes "runTask exec clk r n as lr w = ((completed, ok, result, err), w')"
  shows "n \<le> completed \<and> completed \<le> n + length as \<and> (ok \<longleftrightarrow> completed = n + length as)
    \<and> (ok \<longrightarrow> err = None) \<and> (\<not> ok \<longrightarrow> err \<noteq> None \<or> ar_Status result = ActionStatusFailed)"
  using assms
proof (induction as arbitrary: n lr w)
  case Nil
  then show ?case by auto
next
  case (Cons a as)
  obtain result' err' w1 where ex: "exec (clk n) r a w = ((result', err'), w1)" by (metis surj_pair)
  show ?case
  proof (cases "err' \<noteq> None \<or> ar_Status result' = ActionStatusFailed")
    case True
    with Cons.prems ex show ?thesis by auto
  next
    case False
    with Cons.prems ex have "runTask exec clk r (Suc n) as result' w1 = ((completed, ok, result, err), w')" by simp
    from Cons.IH [OF this] show ?thesis by auto
  qed
qed

text \<open>The actions that a run completed, executed one after the other.\<close>

fun executed ::
  "'w TaskExecutor \<Rightarrow> (nat \<Rightarrow> time \<times> time) \<Rightarrow> ResourceReference \<Rightarrow> nat \<Rightarrow> ActionConfig list \<Rightarrow> 'w \<Rightarrow> 'w" where
  "executed exec clk r n [] w = w"
| "executed exec clk r n (a # as) w = executed exec clk r (Suc n) as (snd (exec (clk n) r a w))"

lemma runTask_world:
  assumes "runTask exec clk r n as lr w = ((completed, ok, result, err), w')"
  shows "w' = executed exec clk r n (take (if ok then length as else Suc (completed - n)) as) w"
  using assms
proof (induction as arbitrary: n lr w)
  case Nil
  then show ?case by simp
next
  case (Cons a as)
  obtain result' err' w1 where ex: "exec (clk n) r a w = ((result', err'), w1)" by (metis surj_pair)
  show ?case
  proof (cases "err' \<noteq> None \<or> ar_Status result' = ActionStatusFailed")
    case True
    with Cons.prems ex show ?thesis by auto
  next
    case False
    with Cons.prems ex have run: "runTask exec clk r (Suc n) as result' w1 = ((completed, ok, result, err), w')" by simp
    from runTask_completed [OF run] have "Suc n \<le> completed" by simp
    then have "Suc (completed - n) = Suc (Suc (completed - Suc n))" by simp
    with Cons.IH [OF run] ex show ?thesis by simp
  qed
qed

section \<open>Sweeping\<close>

lemma lastTerminal_ge: "tLast \<le> lastTerminal parse339 objs tLast"
  by (induction objs arbitrary: tLast)
    (auto simp: time_defs intro: order_trans less_imp_le split: if_splits elim: order_trans [rotated])

lemma lastTerminal_upper:
  "obj \<in> set objs \<Longrightarrow> isTerminal obj \<Longrightarrow> endTime parse339 obj \<le> lastTerminal parse339 objs tLast"
proof (induction objs arbitrary: tLast)
  case Nil
  then show ?case by simp
next
  case (Cons x xs)
  show ?case
  proof (cases "obj = x")
    case True
    then show ?thesis
      using Cons.prems lastTerminal_ge [of "if time_After (endTime parse339 x) tLast then endTime parse339 x else tLast" parse339 xs]
      by (auto simp: time_defs split: if_splits)
  next
    case False
    then show ?thesis using Cons by auto
  qed
qed

text \<open>The tasks that a sweep expires, the ones it deletes, and the others.\<close>

definition sweepExpires :: "parser \<Rightarrow> TaskQueueConfig \<Rightarrow> time \<Rightarrow> RemediationTask \<Rightarrow> bool" where
  "sweepExpires parse339 cfg now obj \<longleftrightarrow> phaseOf obj = TaskPhaseRunning \<and> isStuck parse339 cfg obj now"

definition sweepDeletes :: "parser \<Rightarrow> TaskQueueConfig \<Rightarrow> time \<Rightarrow> time \<Rightarrow> RemediationTask \<Rightarrow> bool" where
  "sweepDeletes parse339 cfg now tLast obj \<longleftrightarrow> isTerminal obj \<and> shouldDeleteTerminal parse339 cfg obj now tLast"

lemma sweepTask_world:
  "snd (sweepTask api parse339 cfg loc d now tLast t obj (g, w)) =
     (if sweepExpires parse339 cfg now obj then expireTask api loc t d obj w
      else if sweepDeletes parse339 cfg now tLast obj then deleteTask api obj w
      else w)"
  by (auto simp: sweepTask_def sweepExpires_def sweepDeletes_def isTerminal_def Let_def phase_defs)

definition gaugeTotal :: "gauges \<Rightarrow> int" where
  "gaugeTotal g = ga_pending g + ga_running g + ga_completed g + ga_failed g + ga_expired g + ga_deletedCount g"

definition knownPhase :: "RemediationTask \<Rightarrow> bool" where
  "knownPhase obj \<longleftrightarrow> phaseOf obj \<in> {TaskPhasePending, TaskPhaseRunning, TaskPhaseCompleted, TaskPhaseFailed, TaskPhaseExpired}"

lemma sweepTask_total:
  "gaugeTotal (fst (sweepTask api parse339 cfg loc d now tLast t obj (g, w))) = gaugeTotal g + (if knownPhase obj then 1 else 0)"
  by (simp add: sweepTask_def knownPhase_def gaugeTotal_def Let_def)

lemma sweepAll_total:
  "gaugeTotal (fst (sweepAll api parse339 cfg loc d now tLast clk i objs s)) =
     gaugeTotal (fst s) + int (length (filter knownPhase objs))"
proof (induction objs arbitrary: i s)
  case Nil
  then show ?case by simp
next
  case (Cons obj objs)
  then show ?case
    using sweepTask_total [of api parse339 cfg loc d now tLast "clk i" obj "fst s" "snd s"] by simp
qed

section \<open>Properties\<close>

definition stripped :: "(gval \<Rightarrow> string) \<Rightarrow> ActionConfig \<Rightarrow> ActionConfig" where
  "stripped fmtv a = a\<lparr>ac_Params := map (\<lambda>(k, v). (k, GString (fmtv v))) (ac_Params a), ac_Conditions := []\<rparr>"

lemma extract_crdAction: "extractAction (crdAction fmtv a) = Some (stripped fmtv a)"
  by (cases a) (simp add: crdAction_def stripped_def zeroAction_def)

definition loadedAction :: "ActionConfig \<Rightarrow> bool" where
  "loadedAction a \<longleftrightarrow> ac_Conditions a = [] \<and> (\<forall>(k, v) \<in> set (ac_Params a). \<exists>s. v = GString s)"

text \<open>The round trip through the custom resource.\<close>

lemma extract_published:
  assumes "slice_sorter ac_Order srt" "\<forall>s. fmtv (GString s) = s"
    and "\<forall>a \<in> set (dr_RecommendedActions result). loadedAction a"
  shows "extractFromTask (taskObject srt fmtv namespace now result resource)
      = (resource\<lparr>rr_UID := ''''\<rparr>, srt (dr_RecommendedActions result))
    \<and> mset (srt (dr_RecommendedActions result)) = mset (dr_RecommendedActions result)
    \<and> sorted (map ac_Order (srt (dr_RecommendedActions result)))"
proof -
  have same: "stripped fmtv a = a" if a: "loadedAction a" for a
  proof -
    have "map (\<lambda>(k, v). (k, GString (fmtv v))) (ac_Params a) = ac_Params a"
      using a assms(2) by (intro map_idI) (auto simp: loadedAction_def)
    with a show ?thesis by (cases a) (simp add: stripped_def loadedAction_def)
  qed
  have filt: "List.map_filter extractAction (map (crdAction fmtv) as) = map (stripped fmtv) as" for as
    by (induction as) (simp_all add: extract_crdAction List.map_filter_simps)
  have "map (stripped fmtv) (srt (dr_RecommendedActions result)) = srt (dr_RecommendedActions result)"
    using assms(3) slice_sorterD(3) [OF assms(1), of "dr_RecommendedActions result"] same by (intro map_idI) auto
  then show ?thesis
    using slice_sorterD [OF assms(1), of "dr_RecommendedActions result"]
    by (cases resource) (simp add: extractFromTask_def taskObject_def filt zeroResource_def)
qed

text \<open>
  C24. What a worker extracts from a published task is what the leader put in: the target without
  its UID, and the recommended actions in ascending order with their types, orders and
  parameters, for actions whose parameters are strings, as those loaded from custom resources are.
\<close>

theorem publish_extract:
  assumes "slice_sorter ac_Order srt" "\<forall>s. fmtv (GString s) = s"
    and "\<forall>a \<in> set (dr_RecommendedActions result). loadedAction a"
  shows "extractFromTask (taskObject srt fmtv namespace now result resource)
      = (resource\<lparr>rr_UID := ''''\<rparr>, srt (dr_RecommendedActions result))
    \<and> mset (srt (dr_RecommendedActions result)) = mset (dr_RecommendedActions result)
    \<and> sorted (map ac_Order (srt (dr_RecommendedActions result)))"
  by (rule extract_published [OF assms])

theorem publish_extract_witness:
  "extractFromTask (taskObject (sort_key ac_Order) (\<lambda>v. case v of GString s \<Rightarrow> s | _ \<Rightarrow> '''') ''ns'' 0
     \<lparr>dr_ID = ''d'', dr_ScenarioID = ''S1'', dr_ScenarioName = '''', dr_Resource = zeroResource, dr_Severity = '''',
      dr_FirstDetected = 0, dr_LastDetected = 0, dr_DetectionCount = 1, dr_ThresholdMet = True, dr_Message = '''', dr_Context = [],
      dr_RecommendedActions = [zeroAction\<lparr>ac_Type := ''b'', ac_Order := 2\<rparr>, zeroAction\<lparr>ac_Type := ''a'', ac_Order := 1\<rparr>]\<rparr>
     (zeroResource\<lparr>rr_Kind := ''Pod'', rr_UID := ''u''\<rparr>))
   = (zeroResource\<lparr>rr_Kind := ''Pod''\<rparr>, [zeroAction\<lparr>ac_Type := ''a'', ac_Order := 1\<rparr>, zeroAction\<lparr>ac_Type := ''b'', ac_Order := 2\<rparr>])"
  using publish_extract [of "sort_key ac_Order" "\<lambda>v. case v of GString s \<Rightarrow> s | _ \<Rightarrow> ''''"
      "\<lparr>dr_ID = ''d'', dr_ScenarioID = ''S1'', dr_ScenarioName = '''', dr_Resource = zeroResource, dr_Severity = '''',
      dr_FirstDetected = 0, dr_LastDetected = 0, dr_DetectionCount = 1, dr_ThresholdMet = True, dr_Message = '''', dr_Context = [],
      dr_RecommendedActions = [zeroAction\<lparr>ac_Type := ''b'', ac_Order := 2\<rparr>, zeroAction\<lparr>ac_Type := ''a'', ac_Order := 1\<rparr>]\<rparr>"
      "''ns''" 0 "zeroResource\<lparr>rr_Kind := ''Pod'', rr_UID := ''u''\<rparr>"]
  by (simp add: slice_sorter_sort_key loadedAction_def zeroAction_def zeroResource_def)

text \<open>
  The name of a task consists of lower-case letters, digits, dots and dashes only, starts
  with a letter and ends with a digit, whatever the scenario and the resource are called.
\<close>

theorem taskName_valid:
  "list_all rfc1123Valid (taskName now result resource) \<and> hd (taskName now result resource) = CHR ''t''
   \<and> isDigit (last (taskName now result resource))"
proof -
  have dec: "int_dec i \<noteq> [] \<and> isDigit (last (int_dec i))" for i
  proof -
    have "nat_dec n \<noteq> [] \<and> isDigit (last (nat_dec n))" for n
    proof -
      have "isDigit (''0123456789'' ! d)" if "d < 10" for d
      proof -
        from that have "d \<in> {0, 1, 2, 3, 4, 5, 6, 7, 8, 9}" by auto
        then show ?thesis by (auto simp: isDigit_def)
      qed
      then have "isDigit (''0123456789'' ! (n mod 10))" by simp
      then show ?thesis by (cases "n < 10") (simp_all add: nat_dec.simps [of n])
    qed
    then show ?thesis by (simp add: int_dec_def)
  qed
  have "rfc1123Valid c" if "c \<in> set ''task-''" for c
    using that by (auto simp: rfc1123Valid_def)
  then show ?thesis
    using sanitize_ok [of "dr_ScenarioID result"] sanitize_ok [of "rr_Name resource"] int_dec_valid [of "UnixMilli now"]
      dec [of "UnixMilli now"]
    by (simp add: taskName_def)
qed

text \<open>
  A worker executes the actions of a task in order up to and including the first that
  fails: the count it reports is the number that succeeded before, the task is reported as
  successful exactly when all succeeded, and nothing else is executed.
\<close>

theorem runTask_exact:
  assumes "runTask exec clk r 0 as zeroActionResult w = ((completed, ok, result, err), w')"
  shows "completed \<le> length as \<and> (ok \<longleftrightarrow> completed = length as)
    \<and> (\<not> ok \<longrightarrow> err \<noteq> None \<or> ar_Status result = ActionStatusFailed)
    \<and> w' = executed exec clk r 0 (take (if ok then length as else Suc completed) as) w"
  using runTask_completed [OF assms] runTask_world [OF assms] by auto

theorem runTask_exact_witness:
  "fst (fst (runTask (\<lambda>ts r a w. if ac_Type a = ''bad'' then ((zeroActionResult, Some ''no''), w) else ((zeroActionResult, None), w + (1 :: nat)))
     (\<lambda>_. (0, 0)) zeroResource 0 [zeroAction, zeroAction\<lparr>ac_Type := ''bad''\<rparr>, zeroAction] zeroActionResult 0)) \<le> 3"
proof -
  let ?ex = "\<lambda>ts r a w. if ac_Type a = ''bad'' then ((zeroActionResult, Some ''no''), w) else ((zeroActionResult, None), w + (1 :: nat))"
  have run: "runTask ?ex (\<lambda>_. (0, 0)) zeroResource 0 [zeroAction, zeroAction\<lparr>ac_Type := ''bad''\<rparr>, zeroAction] zeroActionResult 0
      = ((1, False, zeroActionResult, Some ''no''), 1)"
    by (simp add: zeroAction_def zeroActionResult_def action_status_defs)
  from runTask_exact [OF run] run show ?thesis by simp
qed

text \<open>
  C25. A sweep of the janitor changes the cluster only for running tasks that were claimed longer
  ago than the deadline, which it expires, and for finished tasks past their retention, which it
  deletes; the gauges it publishes and the deletions it counts add up to the listed tasks.
\<close>

theorem sweep_exact:
  assumes "ta_List api w = Inr items"
    and "tLast = (if tq_TrailingRetention cfg > 0 then lastTerminal parse339 items 0 else 0)"
  shows "\<exists>g. fst (sweep api parse339 cfg loc d now clk w) = Some g
      \<and> gaugeTotal g = int (length (filter knownPhase items))
    \<and> snd (sweep api parse339 cfg loc d now clk w) =
        foldl (\<lambda>w (i, obj). if sweepExpires parse339 cfg now obj then expireTask api loc (clk i) d obj w
             else if sweepDeletes parse339 cfg now tLast obj then deleteTask api obj w else w)
          w (enumerate 0 items)"
proof -
  have world: "snd (sweepAll api parse339 cfg loc d now tLast clk n objs (g, v)) =
      foldl (\<lambda>w (i, obj). if sweepExpires parse339 cfg now obj then expireTask api loc (clk i) d obj w
           else if sweepDeletes parse339 cfg now tLast obj then deleteTask api obj w else w) v (enumerate n objs)" for n objs g v
  proof (induction objs arbitrary: n g v)
    case Nil
    then show ?case by simp
  next
    case (Cons obj objs)
    then show ?case
      using sweepTask_world [of api parse339 cfg loc d now tLast "clk n" obj g v]
      by (cases "sweepTask api parse339 cfg loc d now tLast (clk n) obj (g, v)") auto
  qed
  have "gaugeTotal (fst (sweepAll api parse339 cfg loc d now tLast clk 0 items (zeroGauges, w)))
      = int (length (filter knownPhase items))"
    by (simp add: sweepAll_total) (simp add: gaugeTotal_def zeroGauges_def)
  then show ?thesis
    using assms world [of 0 items zeroGauges w] by (auto simp: sweep_def Let_def split: prod.splits)
qed

definition sample_items :: "RemediationTask list" where
  "sample_items = [\<lparr>tk_Name = ''a'', tk_Namespace = '''', tk_Labels = [], tk_ResourceVersion = 1, tk_CreationTimestamp = 5,
     tk_Spec = \<lparr>tsp_ScenarioID = '''', tsp_ScenarioName = '''', tsp_DetectionResultID = '''', tsp_Severity = '''',
       tsp_Target = \<lparr>tt_APIVersion = '''', tt_Kind = '''', tt_Name = '''', tt_Namespace = ''''\<rparr>,
       tsp_Actions = [], tsp_Timeout = '''', tsp_MaxRetries = 3\<rparr>, tk_Status = emptyStatus\<lparr>tst_Phase := ''Completed''\<rparr>\<rparr>]"

definition sample_api :: "string list taskAPI" where
  "sample_api = \<lparr>ta_Get = (\<lambda>n w. Inl (NotFound n)), ta_List = (\<lambda>w. Inr sample_items), ta_Create = (\<lambda>t w. (None, w)),
     ta_UpdateStatus = (\<lambda>t w. (None, w)), ta_Delete = (\<lambda>n w. (None, w @ [n]))\<rparr>"

theorem sweep_exact_witness:
  "snd (sweep sample_api (\<lambda>_. None) (cfg_TaskQueue Default) UTC ''5m0s'' (2 * Hour) (\<lambda>_. 0) []) = [''a'']"
proof -
  have list: "ta_List sample_api [] = Inr sample_items" by (simp add: sample_api_def)
  note ex = sweep_exact [OF list refl, where cfg = "cfg_TaskQueue Default" and ?parse339.0 = "\<lambda>_. None" and loc = UTC
      and d = "''5m0s''" and now = "2 * Hour" and clk = "\<lambda>_. 0"]
  then obtain g where "snd (sweep sample_api (\<lambda>_. None) (cfg_TaskQueue Default) UTC ''5m0s'' (2 * Hour) (\<lambda>_. 0) []) =
      foldl (\<lambda>w (i, obj). if sweepExpires (\<lambda>_. None) (cfg_TaskQueue Default) (2 * Hour) obj
               then expireTask sample_api UTC 0 ''5m0s'' obj w
             else if sweepDeletes (\<lambda>_. None) (cfg_TaskQueue Default) (2 * Hour)
               (if tq_TrailingRetention (cfg_TaskQueue Default) > 0 then lastTerminal (\<lambda>_. None) sample_items 0 else 0) obj
               then deleteTask sample_api obj w else w) [] (enumerate 0 sample_items)"
    by blast
  also have "\<dots> = [''a'']"
    by (simp add: sample_items_def sweepExpires_def sweepDeletes_def isTerminal_def phaseOf_def phase_defs deleteTask_def
        shouldDeleteTerminal_def isPastRetention_def terminalTime_def Default_def emptyStatus_def sample_api_def go_simps)
  finally show ?thesis .
qed

text \<open>
  With a trailing retention configured, a sweep never deletes a finished task that ended
  within that window before the end of the last one; in particular it keeps the last one.
\<close>

theorem trailing_retention_keeps:
  assumes "0 < tq_TrailingRetention cfg" "tLast = lastTerminal parse339 items 0" "tLast \<noteq> 0"
    and "tLast - tq_TrailingRetention cfg \<le> endTime parse339 obj"
  shows "\<not> sweepDeletes parse339 cfg now tLast obj
    \<and> (\<forall>x \<in> set items. isTerminal x \<longrightarrow> endTime parse339 x \<le> tLast)"
  using assms lastTerminal_upper
  by (auto simp: sweepDeletes_def shouldDeleteTerminal_def time_defs)

theorem trailing_retention_keeps_witness:
  "\<not> sweepDeletes (\<lambda>_. None) ((cfg_TaskQueue Default)\<lparr>tq_TrailingRetention := Hour\<rparr>) (9 * Hour)
      (lastTerminal (\<lambda>_. None) sample_items 0) (hd sample_items)"
proof -
  have e: "endTime (\<lambda>_. None) (hd sample_items) = 5"
    by (simp add: endTime_def terminalTime_def sample_items_def emptyStatus_def time_defs)
  have l: "lastTerminal (\<lambda>_. None) sample_items 0 = 5"
    by (simp add: sample_items_def endTime_def terminalTime_def emptyStatus_def isTerminal_def phaseOf_def go_simps)
  show ?thesis
    using trailing_retention_keeps [of "(cfg_TaskQueue Default)\<lparr>tq_TrailingRetention := Hour\<rparr>"
        "lastTerminal (\<lambda>_. None) sample_items 0" "\<lambda>_. None" sample_items "hd sample_items" "9 * Hour"] e l
    by (simp add: go_simps)
qed

end
