(* ===== verification/Pipeline.thy ===== *)
theory Pipeline
  imports Detection Remediation Policy CRDLoader Monitor TaskQueue
begin

text \<open>
  The pipeline of \<open>internal/pipeline/pipeline.go\<close>: construction of the layers and the channels between
  them, start-up with the idle mode, hot reload, readiness and shutdown. The channel between the
  engine and the controller is the engine's output channel. Clients that the constructor builds
  from cluster credentials are arguments. While the pipeline runs, its goroutines interleave: a run
  is a list of events, each one operation of one layer.
\<close>

section \<open>The pipeline\<close>

record ('a, 'p, 'w, 'l) Pipeline =
  pl_config :: Config
  pl_role :: InstanceRole
  pl_monitors :: "MonitorImpl list"
  pl_detector :: "('a, 'p, 'w) engineImpl"
  pl_remediator :: "'w controllerImpl"
  pl_policyMgr :: "'l managerImpl"
  pl_taskWorker :: "Worker option"
  pl_detectionInputCh :: "DetectionInput chan"
  pl_monitorsStarted :: bool
  pl_monitorRuns :: nat
  pl_crdLoad :: "('w, 'l) crd_client option"
  pl_stopped :: bool
  pl_closed :: bool

text \<open>
  \<open>pl_monitorRuns\<close> counts how often the goroutines of the monitors were launched; \<open>pl_closed\<close> says that
  the channels are closed.
\<close>

record 'w pipelineOpts =
  po_role :: InstanceRole
  po_taskPublisher :: "'w TaskPublisher option"
  po_taskWorker :: "Worker option"

text \<open>The options, which \<open>New\<close> applies in order to empty settings.\<close>

definition WithRole :: "InstanceRole \<Rightarrow> 'w pipelineOpts \<Rightarrow> 'w pipelineOpts" where
  "WithRole role po = po\<lparr>po_role := role\<rparr>"

definition WithTaskPublisher :: "'w TaskPublisher \<Rightarrow> 'w pipelineOpts \<Rightarrow> 'w pipelineOpts" where
  "WithTaskPublisher tp po = po\<lparr>po_taskPublisher := Some tp\<rparr>"

definition WithTaskWorker :: "Worker \<Rightarrow> 'w pipelineOpts \<Rightarrow> 'w pipelineOpts" where
  "WithTaskWorker tw po = po\<lparr>po_taskWorker := Some tw\<rparr>"

definition applyOptions :: "('w pipelineOpts \<Rightarrow> 'w pipelineOpts) list \<Rightarrow> 'w pipelineOpts" where
  "applyOptions opts = foldl (\<lambda>po opt. opt po) \<lparr>po_role = '''', po_taskPublisher = None, po_taskWorker = None\<rparr> opts"

definition Role :: "('a, 'p, 'w, 'l) Pipeline \<Rightarrow> InstanceRole" where
  "Role p = pl_role p"

definition SetTaskWorker :: "('a, 'p, 'w, 'l) Pipeline \<Rightarrow> Worker \<Rightarrow> ('a, 'p, 'w, 'l) Pipeline" where
  "SetTaskWorker p tw = p\<lparr>pl_taskWorker := Some tw\<rparr>"

text \<open>What the constructor builds from the cluster credentials, and \<open>action.NewExecutor\<close>.\<close>

record ('w, 'l, 'c) pipelineEnv =
  pe_newCRDLoader :: "string + ('w, 'l) crd_client"
  pe_actionClient :: "string + 'c"
  pe_newExecutor :: "'c option \<Rightarrow> 'w ActionExecutor"
  pe_ownerResolver :: "string + 'w OwnerResolver"

datatype PipelineError = MonitorsFailed string | EngineFailed EngineError

definition okOf :: "'e + 'a \<Rightarrow> 'a option" where
  "okOf r = (case r of Inl _ \<Rightarrow> None | Inr x \<Rightarrow> Some x)"

definition checkerOf :: "'l asSelector \<Rightarrow> 'l managerImpl \<Rightarrow> 'w PolicyChecker" where
  "checkerOf asSel mgr = \<lparr>pc_IsPaused = (\<lambda>w. IsPaused mgr), pc_IsResourceCovered = (\<lambda>w. IsResourceCovered asSel mgr)\<rparr>"

text \<open>
  All layers hold the same pointer to the configuration: a policy that enables dry-run changes it
  for the monitors and the engine that were built before.
\<close>

fun monitorWithConfig :: "Config \<Rightarrow> MonitorImpl \<Rightarrow> MonitorImpl" where
  "monitorWithConfig cfg (K8sMonitor m) = K8sMonitor (m\<lparr>km_config := cfg\<rparr>)"
| "monitorWithConfig cfg (OTelReceiver r) = OTelReceiver (r\<lparr>ov_config := cfg\<rparr>)"

text \<open>
  In leader mode the source passes a nil executor to the controller, which never calls it then;
  the model passes the local one in both modes.
\<close>

definition NewPipeline ::
  "((string \<times> string) list \<Rightarrow> string + ('a, 'p) celenv) \<Rightarrow> 'l asSelector \<Rightarrow> ('w, 'l, 'c) pipelineEnv \<Rightarrow> 'w \<Rightarrow> Config
     \<Rightarrow> 'w pipelineOpts \<Rightarrow> PipelineError + ('a, 'p, 'w, 'l) Pipeline" where
  "NewPipeline newEnv asSel env w cfg po =
     (case BuildFromConfig cfg of
        Inl err \<Rightarrow> Inl (MonitorsFailed err)
      | Inr monitors \<Rightarrow>
          (let crdLoad = (if kc_Enabled (cfg_Kubernetes cfg) then okOf (pe_newCRDLoader env) else None) in
           case newEngineImpl newEnv cfg (chan_make (nat (pc_DetectionResultBufferSize (cfg_Pipeline cfg))))
                  (map_option LoadCRDScenarios crdLoad) of
             Inl err \<Rightarrow> Inl (EngineFailed err)
           | Inr detector \<Rightarrow>
               (let mgr = (case crdLoad of None \<Rightarrow> NewManager
                      | Some l \<Rightarrow> snd (LoadPolicies (LoadRemediationPolicies l) w NewManager));
                    cfg' = (if IsDryRun mgr then set_DryRun cfg else cfg);
                    client = (if kc_Enabled (cfg_Kubernetes cfg) then okOf (pe_actionClient env) else None);
                    checker = (if PolicyCount mgr > 0 then Some (checkerOf asSel mgr) else None);
                    resolver = (if kc_Enabled (cfg_Kubernetes cfg) then okOf (pe_ownerResolver env) else None);
                    remediator = newControllerImpl cfg' (pe_newExecutor env client)
                      (chan_make (nat (pc_ActionResultBufferSize (cfg_Pipeline cfg)))) (po_taskPublisher po) resolver checker
                in Inr \<lparr>pl_config = cfg', pl_role = po_role po, pl_monitors = map (monitorWithConfig cfg') monitors,
                     pl_detector = detector\<lparr>en_config := cfg'\<rparr>, pl_remediator = remediator, pl_policyMgr = mgr,
                     pl_taskWorker = po_taskWorker po,
                     pl_detectionInputCh = chan_make (nat (pc_DetectionInputBufferSize (cfg_Pipeline cfg))),
                     pl_monitorsStarted = False, pl_monitorRuns = 0, pl_crdLoad = crdLoad, pl_stopped = False,
                     pl_closed = False\<rparr>)))"

section \<open>Running\<close>

text \<open>The goroutines that \<open>Run\<close> starts before it waits for the engine.\<close>

definition startLayers :: "'w \<Rightarrow> ('a, 'p, 'w, 'l) Pipeline \<Rightarrow> ('a, 'p, 'w, 'l) Pipeline" where
  "startLayers w p = p\<lparr>pl_taskWorker := map_option workerStart (pl_taskWorker p),
     pl_remediator := Remediation.startRun (pl_remediator p), pl_detector := Detection.startRun w (pl_detector p)\<rparr>"

definition launchMonitors :: "('a, 'p, 'w, 'l) Pipeline \<Rightarrow> ('a, 'p, 'w, 'l) Pipeline" where
  "launchMonitors p = p\<lparr>pl_monitorsStarted := True, pl_monitorRuns := Suc (pl_monitorRuns p)\<rparr>"

text \<open>After the engine is ready, or the deadline has passed.\<close>

definition afterReady :: "('a, 'p, 'w, 'l) Pipeline \<Rightarrow> ('a, 'p, 'w, 'l) Pipeline" where
  "afterReady p = (if GetLoadedScenarios (pl_detector p) = 0 then p else launchMonitors p)"

text \<open>The callback of the watcher of scenario libraries.\<close>

definition onReload :: "'w \<Rightarrow> ('a, 'p, 'w, 'l) Pipeline \<Rightarrow> ('a, 'p, 'w, 'l) Pipeline" where
  "onReload w p =
     (case ReloadScenarios w (pl_detector p) of
        (Some err, detector) \<Rightarrow> p\<lparr>pl_detector := detector\<rparr>
      | (None, detector) \<Rightarrow>
          (let p' = p\<lparr>pl_detector := detector\<rparr> in
           if \<not> pl_monitorsStarted p' \<and> GetLoadedScenarios (pl_detector p') > 0 then launchMonitors p' else p'))"

datatype 'w pipelineEvent =
    Observed DetectionInput
  | EngineTakes "nat \<Rightarrow> time"
  | EngineCleanup time
  | LibraryChanged
  | ControllerTakes result_clock
  | ControllerCleanup "time \<times> (string \<Rightarrow> time)"
  | ClusterChanges 'w

fun pipelineStep ::
  "(ActionConfig list \<Rightarrow> ActionConfig list) \<Rightarrow> location \<Rightarrow> ('a, 'p, 'w, 'l) Pipeline \<times> 'w \<Rightarrow> 'w pipelineEvent
     \<Rightarrow> ('a, 'p, 'w, 'l) Pipeline \<times> 'w" where
  "pipelineStep srt loc (p, w) (Observed input) =
     (p\<lparr>pl_detectionInputCh := sendDetectionInput (pl_detectionInputCh p) input\<rparr>, w)"
| "pipelineStep srt loc (p, w) (EngineTakes clk) =
     (case chan_recv (pl_detectionInputCh p) of
        None \<Rightarrow> (p, w)
      | Some (input, ch) \<Rightarrow>
          (p\<lparr>pl_detectionInputCh := ch, pl_detector := processInput loc clk (pl_detector p) input\<rparr>, w))"
| "pipelineStep srt loc (p, w) (EngineCleanup now) = (p\<lparr>pl_detector := Detection.cleanupTick now (pl_detector p)\<rparr>, w)"
| "pipelineStep srt loc (p, w) LibraryChanged = (onReload w p, w)"
| "pipelineStep srt loc (p, w) (ControllerTakes clk) =
     (case chan_recv (en_outputCh (pl_detector p)) of
        None \<Rightarrow> (p, w)
      | Some (result, ch) \<Rightarrow>
          (let (remediator, w') = processResult srt loc clk (pl_remediator p) result w
           in (p\<lparr>pl_detector := (pl_detector p)\<lparr>en_outputCh := ch\<rparr>, pl_remediator := remediator\<rparr>, w')))"
| "pipelineStep srt loc (p, w) (ControllerCleanup clk) =
     (p\<lparr>pl_remediator := Remediation.cleanupTick clk (pl_remediator p)\<rparr>, w)"
| "pipelineStep srt loc (p, w) (ClusterChanges w') = (p, w')"

definition pipelineRun ::
  "(ActionConfig list \<Rightarrow> ActionConfig list) \<Rightarrow> location \<Rightarrow> ('a, 'p, 'w, 'l) Pipeline \<times> 'w \<Rightarrow> 'w pipelineEvent list
     \<Rightarrow> ('a, 'p, 'w, 'l) Pipeline \<times> 'w" where
  "pipelineRun srt loc s evs = foldl (pipelineStep srt loc) s evs"

section \<open>Readiness and shutdown\<close>

fun monitorReady :: "MonitorImpl \<Rightarrow> bool" where
  "monitorReady (K8sMonitor m) = k8sReady m"
| "monitorReady (OTelReceiver r) = otelReady r"

definition pipelineReady :: "('a, 'p, 'w, 'l) Pipeline \<Rightarrow> bool" where
  "pipelineReady p =
     (if pl_monitorsStarted p \<and> \<not> list_all monitorReady (pl_monitors p) then False
      else if \<not> Detection.Ready (pl_detector p) then False
      else if \<not> Remediation.Ready (pl_remediator p) then False
      else if (case pl_taskWorker p of None \<Rightarrow> False | Some tw \<Rightarrow> \<not> workerReady tw) then False
      else True)"

definition Healthy :: "('a, 'p, 'w, 'l) Pipeline \<Rightarrow> bool" where
  "Healthy p = True"

text \<open>\<open>shutdownErr\<close> is the outcome of shutting the OTLP receiver down.\<close>

fun monitorStop :: "string option \<Rightarrow> MonitorImpl \<Rightarrow> string option \<times> MonitorImpl" where
  "monitorStop shutdownErr (K8sMonitor m) = (None, K8sMonitor (k8sStop m))"
| "monitorStop shutdownErr (OTelReceiver r) = (let (e, r') = otelStop shutdownErr r in (e, OTelReceiver r'))"

text \<open>The loop from the last monitor to the first; an error replaces the one before.\<close>

fun stopMonitors :: "string option \<Rightarrow> MonitorImpl list \<Rightarrow> string option \<Rightarrow> MonitorImpl list \<times> string option" where
  "stopMonitors shutdownErr [] acc = ([], acc)"
| "stopMonitors shutdownErr (m # ms) acc =
     (let (ms', acc') = stopMonitors shutdownErr ms acc;
          (e, m') = monitorStop shutdownErr m
      in (m' # ms', if e \<noteq> None then e else acc'))"

text \<open>
  \<open>timedOut\<close> says that the context ended before the goroutines did.
\<close>

definition Shutdown ::
  "string option \<Rightarrow> bool \<Rightarrow> ('a, 'p, 'w, 'l) Pipeline \<Rightarrow> string option \<times> ('a, 'p, 'w, 'l) Pipeline" where
  "Shutdown shutdownErr timedOut p =
     (if pl_stopped p then (None, p)
      else
        (let (ms, err) = (if pl_monitorsStarted p then stopMonitors shutdownErr (pl_monitors p) None
               else (pl_monitors p, None))
         in (if timedOut then Some ''context deadline exceeded'' else err,
             p\<lparr>pl_monitors := ms, pl_detector := Detection.Stop (pl_detector p),
               pl_remediator := Remediation.Stop (pl_remediator p),
               pl_taskWorker := map_option workerStop (pl_taskWorker p), pl_closed := True, pl_stopped := True\<rparr>)))"

section \<open>Stopping\<close>

text \<open>
  What the pipeline relies on when it stops a layer: the first call leaves it stopped and not
  ready, and a further call does nothing.
\<close>

locale stoppable =
  fixes stop :: "'s \<Rightarrow> 's" and ready :: "'s \<Rightarrow> bool" and stopped :: "'s \<Rightarrow> bool"
  assumes stop_stops: "stopped (stop s)"
    and stop_unready: "\<not> stopped s \<Longrightarrow> \<not> ready (stop s)"
    and stop_again: "stopped s \<Longrightarrow> stop s = s"
begin

lemma stop_idem: "stop (stop s) = stop s"
  by (simp add: stop_stops stop_again)

lemma stop_quiet: "(stopped s \<Longrightarrow> \<not> ready s) \<Longrightarrow> \<not> ready (stop s)"
  using stop_unready stop_again by (cases "stopped s") auto

end

interpretation engine_stop: stoppable Detection.Stop Detection.Ready en_stopped
  by unfold_locales (auto simp: Detection.Stop_def Detection.Ready_def Detection.setReady_def)

interpretation controller_stop: stoppable Remediation.Stop Remediation.Ready co_stopped
  by unfold_locales (auto simp: Remediation.Stop_def Remediation.Ready_def Remediation.setReady_def)

interpretation k8s_stop: stoppable k8sStop k8sReady km_stopped
  by unfold_locales (auto simp: k8sStop_def k8sReady_def)

interpretation otel_stop: stoppable "\<lambda>r. snd (otelStop err r)" otelReady ov_stopped for err
  by unfold_locales (auto simp: otelStop_def otelReady_def)

section \<open>The run of each layer\<close>

text \<open>The events of the engine and of the controller that an event of the pipeline consists of.\<close>

fun engineEvents :: "('a, 'p, 'w, 'l) Pipeline \<times> 'w \<Rightarrow> 'w pipelineEvent \<Rightarrow> 'w engineEvent list" where
  "engineEvents (p, w) (EngineTakes clk) =
     (case chan_recv (pl_detectionInputCh p) of None \<Rightarrow> [] | Some (input, ch) \<Rightarrow> [Input input clk])"
| "engineEvents (p, w) (EngineCleanup now) = [engineEvent.CleanupTick now]"
| "engineEvents (p, w) LibraryChanged = [Reload w]"
| "engineEvents (p, w) (ControllerTakes clk) = [Take]"
| "engineEvents (p, w) _ = []"

fun resultsTaken :: "('a, 'p, 'w, 'l) Pipeline \<times> 'w \<Rightarrow> 'w pipelineEvent \<Rightarrow> DetectionResult list" where
  "resultsTaken (p, w) (ControllerTakes clk) =
     (case chan_recv (en_outputCh (pl_detector p)) of None \<Rightarrow> [] | Some (r, ch) \<Rightarrow> [r])"
| "resultsTaken (p, w) _ = []"

fun controllerEvents :: "('a, 'p, 'w, 'l) Pipeline \<times> 'w \<Rightarrow> 'w pipelineEvent \<Rightarrow> 'w controllerEvent list" where
  "controllerEvents (p, w) (ControllerTakes clk) = map (Result clk) (resultsTaken (p, w) (ControllerTakes clk))"
| "controllerEvents (p, w) (ControllerCleanup clk) = [controllerEvent.CleanupTick clk]"
| "controllerEvents (p, w) (ClusterChanges w') = [ClusterChange w']"
| "controllerEvents (p, w) _ = []"

text \<open>Along a run.\<close>

fun along ::
  "(ActionConfig list \<Rightarrow> ActionConfig list) \<Rightarrow> location \<Rightarrow> (('a, 'p, 'w, 'l) Pipeline \<times> 'w \<Rightarrow> 'w pipelineEvent \<Rightarrow> 'x list)
     \<Rightarrow> ('a, 'p, 'w, 'l) Pipeline \<times> 'w \<Rightarrow> 'w pipelineEvent list \<Rightarrow> 'x list" where
  "along srt loc f s [] = []"
| "along srt loc f s (ev # evs) = f s ev @ along srt loc f (pipelineStep srt loc s ev) evs"

lemma onReload_detector [simp]: "pl_detector (onReload w p) = snd (ReloadScenarios w (pl_detector p))"
  by (simp add: onReload_def launchMonitors_def Let_def split: prod.splits option.splits)

lemma onReload_frame [simp]:
  "pl_remediator (onReload w p) = pl_remediator p" "pl_detectionInputCh (onReload w p) = pl_detectionInputCh p"
  "pl_config (onReload w p) = pl_config p"
  by (simp_all add: onReload_def launchMonitors_def Let_def split: prod.splits option.splits)

lemma step_engine:
  "(pl_detector (fst (pipelineStep srt loc s ev)), taken @ resultsTaken s ev) =
     engineRun loc (pl_detector (fst s), taken) (engineEvents s ev)"
  by (cases s; cases ev) (auto simp: engineRun_def split: option.splits prod.splits)

lemma step_controller:
  "(pl_remediator (fst (pipelineStep srt loc s ev)), snd (pipelineStep srt loc s ev)) =
     controllerRun srt loc (pl_remediator (fst s), snd s) (controllerEvents s ev)"
  by (cases s; cases ev) (auto simp: controllerRun_def split: option.splits prod.splits)

lemma run_engine:
  "(pl_detector (fst (pipelineRun srt loc s evs)), taken @ along srt loc resultsTaken s evs) =
     engineRun loc (pl_detector (fst s), taken) (along srt loc engineEvents s evs)"
proof (induction evs arbitrary: s taken)
  case Nil
  then show ?case by (simp add: pipelineRun_def engineRun_def)
next
  case (Cons ev evs)
  from Cons [of "pipelineStep srt loc s ev" "taken @ resultsTaken s ev"] step_engine [of srt loc s ev taken]
  show ?case by (simp add: pipelineRun_def engineRun_def)
qed

lemma run_controller:
  "(pl_remediator (fst (pipelineRun srt loc s evs)), snd (pipelineRun srt loc s evs)) =
     controllerRun srt loc (pl_remediator (fst s), snd s) (along srt loc controllerEvents s evs)"
proof (induction evs arbitrary: s)
  case Nil
  then show ?case by (simp add: pipelineRun_def controllerRun_def)
next
  case (Cons ev evs)
  from Cons [of "pipelineStep srt loc s ev"] step_controller [of srt loc s ev]
  show ?case by (simp add: pipelineRun_def controllerRun_def)
qed

lemma controllerRun_append:
  "controllerRun srt loc s (xs @ ys) = controllerRun srt loc (controllerRun srt loc s xs) ys"
  by (simp add: controllerRun_def)

lemma acted_append:
  "acted srt loc k s (xs @ ys) = acted srt loc k s xs + acted srt loc k (controllerRun srt loc s xs) ys"
  by (induction xs arbitrary: s) (simp_all add: controllerRun_def)

text \<open>Every remediation of a key consumes a result for the key.\<close>

lemma acted_le_taken:
  "acted srt loc k (pl_remediator (fst s), snd s) (along srt loc controllerEvents s evs)
     \<le> length (filter (forKey k) (along srt loc resultsTaken s evs))"
proof (induction evs arbitrary: s)
  case (Cons ev evs)
  have "acted srt loc k (pl_remediator (fst s), snd s) (controllerEvents s ev) \<le> length (filter (forKey k) (resultsTaken s ev))"
    by (cases s; cases ev) (auto simp: forKey_def split: option.splits)
  with Cons [of "pipelineStep srt loc s ev"] step_controller [of srt loc s ev]
  show ?case by (simp add: acted_append)
qed simp

definition engineCleanups :: "'w pipelineEvent list \<Rightarrow> nat" where
  "engineCleanups evs = length (filter (\<lambda>ev. \<exists>now. ev = EngineCleanup now) evs)"

lemma cleanups_append: "cleanups (xs @ ys) = cleanups xs + cleanups ys"
  by (simp add: cleanups_def)

lemma along_cleanups: "cleanups (along srt loc engineEvents s evs) = engineCleanups evs"
proof (induction evs arbitrary: s)
  case (Cons ev evs)
  have "cleanups (engineEvents s ev) = engineCleanups [ev]"
    by (cases s; cases ev) (auto simp: cleanups_def engineCleanups_def split: option.splits)
  with Cons show ?case by (simp add: cleanups_append engineCleanups_def)
qed (simp add: cleanups_def engineCleanups_def)

section \<open>What the constructor builds\<close>

lemma NewPipeline_parts:
  assumes "NewPipeline newEnv asSel env w cfg po = Inr p"
  shows "\<exists>e loader mgr ch client resolver. newEngineImpl newEnv cfg (chan_make ch) loader = Inr e
    \<and> pl_detector p = e\<lparr>en_config := pl_config p\<rparr>
    \<and> pl_remediator p = newControllerImpl (pl_config p) (pe_newExecutor env client)
        (chan_make (nat (pc_ActionResultBufferSize (cfg_Pipeline cfg)))) (po_taskPublisher po) resolver
        (if PolicyCount mgr > 0 then Some (checkerOf asSel mgr) else None)
    \<and> pl_config p = (if IsDryRun mgr then set_DryRun cfg else cfg) \<and> pl_policyMgr p = mgr
    \<and> mgr = (case pl_crdLoad p of None \<Rightarrow> NewManager | Some l \<Rightarrow> snd (LoadPolicies (LoadRemediationPolicies l) w NewManager))
    \<and> pl_crdLoad p = (if kc_Enabled (cfg_Kubernetes cfg) then okOf (pe_newCRDLoader env) else None)
    \<and> \<not> pl_monitorsStarted p \<and> pl_monitorRuns p = 0 \<and> \<not> pl_stopped p"
proof -
  obtain monitors where m: "BuildFromConfig cfg = Inr monitors"
    using assms by (cases "BuildFromConfig cfg") (auto simp: NewPipeline_def)
  let ?l = "if kc_Enabled (cfg_Kubernetes cfg) then okOf (pe_newCRDLoader env) else None"
  obtain e where e: "newEngineImpl newEnv cfg (chan_make (nat (pc_DetectionResultBufferSize (cfg_Pipeline cfg))))
      (map_option LoadCRDScenarios ?l) = Inr e"
    using assms m by (cases "newEngineImpl newEnv cfg (chan_make (nat (pc_DetectionResultBufferSize (cfg_Pipeline cfg))))
      (map_option LoadCRDScenarios ?l)") (auto simp: NewPipeline_def Let_def)
  from assms m e show ?thesis
    by (intro exI [of _ e] exI [of _ "map_option LoadCRDScenarios ?l"] exI [of _ "pl_policyMgr p"]
        exI [of _ "nat (pc_DetectionResultBufferSize (cfg_Pipeline cfg))"]
        exI [of _ "if kc_Enabled (cfg_Kubernetes cfg) then okOf (pe_actionClient env) else None"]
        exI [of _ "if kc_Enabled (cfg_Kubernetes cfg) then okOf (pe_ownerResolver env) else None"])
      (auto simp: NewPipeline_def Let_def)
qed

lemma afterReady_parts [simp]:
  "pl_detector (afterReady p) = pl_detector p" "pl_remediator (afterReady p) = pl_remediator p"
  "pl_config (afterReady p) = pl_config p" "pl_taskWorker (afterReady p) = pl_taskWorker p"
  by (simp_all add: afterReady_def launchMonitors_def)

lemma startLayers_parts [simp]:
  "pl_detector (startLayers w p) = Detection.startRun w (pl_detector p)"
  "pl_remediator (startLayers w p) = Remediation.startRun (pl_remediator p)"
  "pl_monitorsStarted (startLayers w p) = pl_monitorsStarted p" "pl_monitorRuns (startLayers w p) = pl_monitorRuns p"
  by (simp_all add: startLayers_def)

lemma startRun_engine:
  assumes "newEngineImpl newEnv cfg (chan_make n) loader = Inr e"
  shows "engine_inv (Detection.startRun w (e\<lparr>en_config := cfg'\<rparr>))"
    and "ch_buf (en_outputCh (Detection.startRun w (e\<lparr>en_config := cfg'\<rparr>))) = []"
proof -
  have "engine_inv e" by (rule newEngineImpl_inv [OF assms]) (simp add: chan_wf_def chan_make_def)
  then have e: "engine_inv (e\<lparr>en_config := cfg'\<rparr>)"
    by (simp add: engine_inv_def cel_ok_def registered_ok_def en_env_def)
  then have "engine_inv (snd (loadScenarios w (e\<lparr>en_config := cfg'\<rparr>) False))" by (rule loadScenarios_inv)
  then show "engine_inv (Detection.startRun w (e\<lparr>en_config := cfg'\<rparr>))"
    by (simp add: Detection.startRun_def Detection.setReady_def LoadScenarios_def engine_inv_def cel_ok_def registered_ok_def en_env_def)
  have "en_outputCh e = chan_make n" using assms by (auto simp: newEngineImpl_def split: sum.splits)
  then show "ch_buf (en_outputCh (Detection.startRun w (e\<lparr>en_config := cfg'\<rparr>))) = []"
    using loadScenarios_store(2) [of "e\<lparr>en_config := cfg'\<rparr>" w False] e
    by (simp add: Detection.startRun_def Detection.setReady_def LoadScenarios_def engine_inv_def chan_make_def)
qed

lemma startRun_controller:
  "Remediation.startRun (newControllerImpl cfg ex ch pub res pol) = (newControllerImpl cfg ex ch pub res pol)\<lparr>co_ready := True\<rparr>"
  by (simp add: Remediation.startRun_def Remediation.setReady_def)

lemma controllerRun_fields:
  "co_config (fst (controllerRun srt loc s evs)) = co_config (fst s)"
  "co_publisher (fst (controllerRun srt loc s evs)) = co_publisher (fst s)"
proof -
  have step: "co_publisher (fst (controllerStep srt loc s ev)) = co_publisher (fst s)" for s ev
    by (cases s; cases ev) (auto simp: processResult_frame Remediation.cleanupTick_def chan_recv_def split: list.splits)
  show "co_config (fst (controllerRun srt loc s evs)) = co_config (fst s)"
    "co_publisher (fst (controllerRun srt loc s evs)) = co_publisher (fst s)"
    unfolding controllerRun_def by (induction evs arbitrary: s) (simp_all add: controllerStep_config step)
qed

lemma dry_run_controller:
  assumes "rm_DryRun (cfg_Remediation (co_config (fst s)))" "co_publisher (fst s) = None" "slice_sorter ac_Order srt"
    and "\<forall>ev \<in> set evs. \<forall>w. ev \<noteq> ClusterChange w"
  shows "snd (controllerRun srt loc s evs) = snd s"
  using assms
proof (induction evs arbitrary: s)
  case Nil
  then show ?case by (simp add: controllerRun_def)
next
  case (Cons ev evs)
  obtain c w where s: "s = (c, w)" by force
  have "snd (controllerStep srt loc s ev) = w"
    using Cons.prems s by (cases ev) (auto simp: dry_run_world chan_recv_def split: list.splits)
  moreover have "co_config (fst (controllerStep srt loc s ev)) = co_config c"
    "co_publisher (fst (controllerStep srt loc s ev)) = co_publisher c"
    using controllerRun_fields [of srt loc s "[ev]"] s by (simp_all add: controllerRun_def)
  ultimately show ?case
    using Cons.IH [of "controllerStep srt loc s ev"] Cons.prems s by (simp add: controllerRun_def)
qed

lemma along_no_change:
  "\<forall>ev \<in> set evs. \<forall>w. ev \<noteq> ClusterChanges w \<Longrightarrow> \<forall>ev \<in> set (along srt loc controllerEvents s evs). \<forall>w. ev \<noteq> ClusterChange w"
proof (induction evs arbitrary: s)
  case (Cons ev evs)
  have "\<forall>x \<in> set (controllerEvents s ev). \<forall>w. x \<noteq> ClusterChange w"
    using Cons.prems by (cases s; cases ev) auto
  with Cons.IH [of "pipelineStep srt loc s ev"] Cons.prems show ?case by auto
qed simp

section \<open>Idle mode\<close>

definition started_once :: "('a, 'p, 'w, 'l) Pipeline \<Rightarrow> bool" where
  "started_once p \<longleftrightarrow> pl_monitorRuns p = (if pl_monitorsStarted p then 1 else 0)"

lemma step_started:
  assumes "started_once (fst s)"
  shows "started_once (fst (pipelineStep srt loc s ev))"
    and "pl_monitorsStarted (fst (pipelineStep srt loc s ev)) \<Longrightarrow> \<not> pl_monitorsStarted (fst s)
      \<Longrightarrow> 0 < GetLoadedScenarios (pl_detector (fst (pipelineStep srt loc s ev)))"
  using assms
  by (cases s; cases ev; auto simp: started_once_def onReload_def launchMonitors_def Let_def
      split: option.splits prod.splits if_splits)+

lemma run_started:
  assumes "started_once (fst s)" "\<not> pl_monitorsStarted (fst s)"
  shows "started_once (fst (pipelineRun srt loc s evs))
    \<and> (pl_monitorsStarted (fst (pipelineRun srt loc s evs)) \<longrightarrow>
        (\<exists>n \<le> length evs. 0 < GetLoadedScenarios (pl_detector (fst (pipelineRun srt loc s (take n evs))))))"
proof (induction evs rule: rev_induct)
  case Nil
  then show ?case using assms by (simp add: pipelineRun_def)
next
  case (snoc ev evs)
  let ?s = "pipelineRun srt loc s evs"
  have run: "pipelineRun srt loc s (evs @ [ev]) = pipelineStep srt loc ?s ev" by (simp add: pipelineRun_def)
  have "\<exists>n \<le> length (evs @ [ev]). 0 < GetLoadedScenarios (pl_detector (fst (pipelineRun srt loc s (take n (evs @ [ev])))))"
    if "pl_monitorsStarted (fst (pipelineStep srt loc ?s ev))"
  proof (cases "pl_monitorsStarted (fst ?s)")
    case True
    with snoc obtain n where "n \<le> length evs" "0 < GetLoadedScenarios (pl_detector (fst (pipelineRun srt loc s (take n evs))))"
      by blast
    then show ?thesis by (intro exI [of _ n]) simp
  next
    case False
    with snoc that step_started(2) [of ?s srt loc ev] have "0 < GetLoadedScenarios (pl_detector (fst (pipelineRun srt loc s (evs @ [ev]))))"
      by (simp add: run)
    then show ?thesis by (intro exI [of _ "length (evs @ [ev])"]) simp
  qed
  then show ?case using snoc step_started(1) [of ?s srt loc ev] by (simp add: run)
qed

section \<open>Properties\<close>

text \<open>A small pipeline for the examples: one cluster with two scenarios and one dry-run policy.\<close>

definition sample_policy :: "unit ClusterRemediationPolicy" where
  "sample_policy = \<lparr>crp_Name = ''p'', crp_Spec = \<lparr>crps_TargetSelector = \<lparr>ts_Namespaces = [], ts_ExcludedNamespaces = [],
       ts_LabelSelector = None, ts_ResourceTypes = []\<rparr>, crps_ScenarioLibraryRef = \<lparr>slr_Name = ''lib''\<rparr>, crps_ScenarioConfigs = [],
     crps_GlobalConfig = \<lparr>gpc_DryRun = True, gpc_Paused = False, gpc_DefaultCooldown = None, gpc_DefaultMaxRetries = None,
       gpc_Escalation = None, gpc_NotificationChannels = []\<rparr>\<rparr>\<rparr>"

definition sample_crds :: "(string list, unit) crd_client" where
  "sample_crds = \<lparr>cl_ListScenarioLibraries = (\<lambda>_. cl_ListScenarioLibraries sample_client ()),
     cl_ListPolicies = (\<lambda>_. Inr [sample_policy])\<rparr>"

definition sample_env :: "(string list, unit, unit) pipelineEnv" where
  "sample_env = \<lparr>pe_newCRDLoader = Inr sample_crds, pe_actionClient = Inr (),
     pe_newExecutor = (\<lambda>_ ts r a w. ((zeroActionResult\<lparr>ar_Status := ActionStatusSucceeded\<rparr>, None), w @ [ac_Type a])),
     pe_ownerResolver = Inl ''none''\<rparr>"

definition sample_opts :: "string list pipelineOpts" where
  "sample_opts = \<lparr>po_role = '''', po_taskPublisher = None, po_taskWorker = None\<rparr>"

lemma sample_pipeline_built:
  "\<exists>p. NewPipeline (\<lambda>_. Inr literal_env) (\<lambda>_. Inl ''none'') sample_env [] Default sample_opts = Inr p"
  by (simp add: NewPipeline_def BuildFromConfig_def defaultFactories_def k8sFactory_def otelFactory_def Let_def
      newEngineImpl_def NewCELEvaluator_def Default_def)

definition sample_events :: "string list pipelineEvent list" where
  "sample_events = [Observed (sample_input 10), EngineTakes (\<lambda>_. 0), Observed (sample_input 20), EngineTakes (\<lambda>_. 0),
     EngineCleanup 30, LibraryChanged]"

text \<open>
  C3. End to end, a scenario remediates a resource at most once, plus once for each tick of the
  engine's cleanup, however the observations, reloads, cleanups and the two loops interleave.
\<close>

theorem remediation_bound:
  assumes "NewPipeline newEnv asSel env w cfg po = Inr p" "p1 = afterReady (startLayers w p)"
  shows "acted srt loc k (pl_remediator p1, w1) (along srt loc controllerEvents (p1, w1) evs) \<le> 1 + engineCleanups evs"
proof -
  obtain e loader n where e: "newEngineImpl newEnv cfg (chan_make n) loader = Inr e" "pl_detector p = e\<lparr>en_config := pl_config p\<rparr>"
    using NewPipeline_parts [OF assms(1)] by blast
  let ?d = "pl_detector p1"
  have d: "engine_inv ?d" "ch_buf (en_outputCh ?d) = []"
    using startRun_engine [OF e(1), of w "pl_config p"] e(2) assms(2) by simp_all
  have "credit k (engineRun loc (?d, []) (along srt loc engineEvents (p1, w1) evs)) \<le> 1 + engineCleanups evs"
    using engineRun_credit [of "(?d, [])" k loc "along srt loc engineEvents (p1, w1) evs"] d
    by (simp add: along_cleanups credit_def split: if_splits)
  then have "length (filter (forKey k) (along srt loc resultsTaken (p1, w1) evs)) \<le> 1 + engineCleanups evs"
    unfolding run_engine [of srt loc "(p1, w1)" evs "[]", simplified, symmetric] by (simp add: credit_def)
  with acted_le_taken [of srt loc k "(p1, w1)" evs] show ?thesis by simp
qed

theorem remediation_bound_witness:
  "\<exists>p. NewPipeline (\<lambda>_. Inr literal_env) (\<lambda>_. Inl ''none'') sample_env [] Default sample_opts = Inr p
    \<and> acted (sort_key ac_Order) UTC (StateKey ''S1001'' sample_resource) (pl_remediator (afterReady (startLayers [] p)), [])
        (along (sort_key ac_Order) UTC controllerEvents (afterReady (startLayers [] p), []) sample_events) \<le> 2"
proof -
  obtain p where p: "NewPipeline (\<lambda>_. Inr literal_env) (\<lambda>_. Inl ''none'') sample_env [] Default sample_opts = Inr p"
    using sample_pipeline_built by blast
  have "engineCleanups sample_events = 1" by (simp add: engineCleanups_def sample_events_def)
  with p remediation_bound [OF p refl, of "sort_key ac_Order" UTC "StateKey ''S1001'' sample_resource" "[]" sample_events]
  show ?thesis by auto
qed

text \<open>A standalone pipeline whose configuration asks for dry-run leaves the cluster alone.\<close>

lemma dry_run_pipeline:
  assumes "NewPipeline newEnv asSel env w cfg po = Inr p" "p1 = afterReady (startLayers w p)"
    and "rm_DryRun (cfg_Remediation (pl_config p))" "po_taskPublisher po = None"
    and "slice_sorter ac_Order srt" "\<forall>ev \<in> set evs. \<forall>w. ev \<noteq> ClusterChanges w"
  shows "snd (pipelineRun srt loc (p1, w1) evs) = w1"
proof -
  have "rm_DryRun (cfg_Remediation (co_config (pl_remediator p1)))" "co_publisher (pl_remediator p1) = None"
    using NewPipeline_parts [OF assms(1)] assms(2-4)
    by (auto simp: newControllerImpl_def Remediation.startRun_def Remediation.setReady_def)
  then have "snd (controllerRun srt loc (pl_remediator p1, w1) (along srt loc controllerEvents (p1, w1) evs)) = w1"
    using dry_run_controller [OF _ _ assms(5) along_no_change [OF assms(6)], of "(pl_remediator p1, w1)" loc srt loc "(p1, w1)"]
    by simp
  then show ?thesis
    using run_controller [of srt loc "(p1, w1)" evs] by (metis fst_conv snd_conv)
qed

text \<open>
  C18. When a policy that is not paused asks for dry-run as the pipeline is built, a standalone
  pipeline never changes the cluster, whatever it observes.
\<close>

theorem policy_dry_run:
  assumes "NewPipeline newEnv asSel env w cfg po = Inr p" "p1 = afterReady (startLayers w p)"
    and "kc_Enabled (cfg_Kubernetes cfg)" "pe_newCRDLoader env = Inr l" "cl_ListPolicies l w = Inr policies"
    and "pol \<in> set policies" "\<not> paused pol" "gpc_DryRun (crps_GlobalConfig (crp_Spec pol))"
    and "po_taskPublisher po = None" "slice_sorter ac_Order srt" "\<forall>ev \<in> set evs. \<forall>w. ev \<noteq> ClusterChanges w"
  shows "snd (pipelineRun srt loc (p1, w1) evs) = w1"
proof -
  obtain mgr where c: "pl_config p = (if IsDryRun mgr then set_DryRun cfg else cfg)"
      "mgr = (case pl_crdLoad p of None \<Rightarrow> NewManager | Some l \<Rightarrow> snd (LoadPolicies (LoadRemediationPolicies l) w NewManager))"
      "pl_crdLoad p = (if kc_Enabled (cfg_Kubernetes cfg) then okOf (pe_newCRDLoader env) else None)"
    using NewPipeline_parts [OF assms(1)] by blast
  have "anyDryRun ps" if "pol \<in> set ps" for ps
    using that assms(7, 8) by (induction ps) auto
  then have "IsDryRun mgr"
    using c(2, 3) assms(3-6) by (simp add: okOf_def LoadPolicies_def LoadRemediationPolicies_def LoadManager_def IsDryRun_def)
  then have "rm_DryRun (cfg_Remediation (pl_config p))" using c(1) by (simp add: set_DryRun_def)
  from dry_run_pipeline [OF assms(1, 2) this assms(9-11)] show ?thesis .
qed

theorem policy_dry_run_witness:
  "\<exists>p. NewPipeline (\<lambda>_. Inr literal_env) (\<lambda>_. Inl ''none'') sample_env [] Default sample_opts = Inr p
    \<and> snd (pipelineRun (sort_key ac_Order) UTC (afterReady (startLayers [] p), []) sample_events) = []"
proof -
  obtain p where p: "NewPipeline (\<lambda>_. Inr literal_env) (\<lambda>_. Inl ''none'') sample_env [] Default sample_opts = Inr p"
    using sample_pipeline_built by blast
  have "snd (pipelineRun (sort_key ac_Order) UTC (afterReady (startLayers [] p), []) sample_events) = []"
    by (rule policy_dry_run [OF p refl, where pol = sample_policy and policies = "[sample_policy]" and l = sample_crds])
      (simp_all add: Default_def sample_env_def sample_crds_def sample_policy_def sample_opts_def slice_sorter_sort_key
        sample_events_def)
  with p show ?thesis by blast
qed

text \<open>
  The monitors are launched at most once, and only after a state in which at least one scenario
  was loaded: without scenarios the pipeline stays idle.
\<close>

theorem idle_until_scenarios:
  assumes "NewPipeline newEnv asSel env w cfg po = Inr p" "p1 = startLayers w p"
    and "p2 = fst (pipelineRun srt loc (afterReady p1, w1) evs)"
  shows "pl_monitorRuns p2 = (if pl_monitorsStarted p2 then 1 else 0)
    \<and> (pl_monitorsStarted p2 \<longrightarrow>
        (\<exists>n \<le> length evs. 0 < GetLoadedScenarios (pl_detector (fst (pipelineRun srt loc (afterReady p1, w1) (take n evs))))))"
proof (cases "GetLoadedScenarios (pl_detector p1) = 0")
  case True
  have "started_once p1" "\<not> pl_monitorsStarted p1"
    using NewPipeline_parts [OF assms(1)] assms(2) by (auto simp: started_once_def)
  moreover have "afterReady p1 = p1" using True by (simp add: afterReady_def)
  ultimately show ?thesis
    using run_started [of "(p1, w1)" srt loc evs] assms(3) by (simp add: started_once_def)
next
  case False
  have once: "started_once (afterReady p1)"
    using False NewPipeline_parts [OF assms(1)] assms(2) by (auto simp: started_once_def afterReady_def launchMonitors_def)
  have "started_once (fst (pipelineRun srt loc s evs))" if "started_once (fst s)" for s
    using that unfolding pipelineRun_def by (induction evs arbitrary: s) (simp_all add: step_started)
  from this [of "(afterReady p1, w1)"] once assms(3) have "started_once p2" by simp
  moreover have "0 < GetLoadedScenarios (pl_detector (fst (pipelineRun srt loc (afterReady p1, w1) (take 0 evs))))"
    using False by (simp add: pipelineRun_def)
  ultimately show ?thesis unfolding started_once_def by blast
qed

theorem idle_until_scenarios_witness:
  "\<exists>p. NewPipeline (\<lambda>_. Inr literal_env) (\<lambda>_. Inl ''none'') sample_env [] Default sample_opts = Inr p
    \<and> pl_monitorRuns (fst (pipelineRun (sort_key ac_Order) UTC (afterReady (startLayers [] p), []) sample_events)) \<le> 1"
proof -
  obtain p where p: "NewPipeline (\<lambda>_. Inr literal_env) (\<lambda>_. Inl ''none'') sample_env [] Default sample_opts = Inr p"
    using sample_pipeline_built by blast
  with idle_until_scenarios [OF p refl refl, of "sort_key ac_Order" UTC "[]" sample_events] show ?thesis by auto
qed

lemma stopMonitors_ok: "snd (stopMonitors None ms None) = None"
proof (induction ms)
  case (Cons m ms)
  have "fst (monitorStop None m) = None" by (cases m) (simp_all add: otelStop_def)
  with Cons show ?case by (simp add: case_prod_beta)
qed simp

text \<open>
  Shutting down a running pipeline leaves every layer stopped and not ready and the channels
  closed; the error is the timeout, or else the last error of stopping the monitors; a second call
  does nothing and reports no error.
\<close>

theorem shutdown_quiet:
  assumes "\<not> pl_stopped p" "\<not> en_stopped (pl_detector p)" "\<not> co_stopped (pl_remediator p)"
    and "Shutdown shutdownErr timedOut p = (err, p')"
  shows "\<not> pipelineReady p' \<and> \<not> Detection.Ready (pl_detector p') \<and> \<not> Remediation.Ready (pl_remediator p')
    \<and> en_stopped (pl_detector p') \<and> co_stopped (pl_remediator p') \<and> pl_closed p'
    \<and> (\<forall>tw. pl_taskWorker p' = Some tw \<longrightarrow> \<not> workerReady tw)
    \<and> (timedOut \<longrightarrow> err \<noteq> None) \<and> (\<not> timedOut \<and> shutdownErr = None \<longrightarrow> err = None)
    \<and> Shutdown shutdownErr' timedOut' p' = (None, p')"
proof -
  have "pl_detector p' = Detection.Stop (pl_detector p)" "pl_remediator p' = Remediation.Stop (pl_remediator p)"
    "pl_closed p'" "pl_stopped p'" "pl_taskWorker p' = map_option workerStop (pl_taskWorker p)"
    "timedOut \<longrightarrow> err \<noteq> None" "\<not> timedOut \<and> shutdownErr = None \<longrightarrow> err = None"
    using assms(1, 4) stopMonitors_ok [of "pl_monitors p"] by (auto simp: Shutdown_def Let_def split: prod.splits if_splits)
  moreover have "\<not> Detection.Ready (Detection.Stop (pl_detector p))" "\<not> Remediation.Ready (Remediation.Stop (pl_remediator p))"
    using assms(2, 3) by (simp_all add: engine_stop.stop_unready controller_stop.stop_unready)
  moreover have "Shutdown shutdownErr' timedOut' p' = (None, p')" using calculation(4) by (simp add: Shutdown_def)
  ultimately show ?thesis
    by (auto simp: engine_stop.stop_stops controller_stop.stop_stops pipelineReady_def workerReady_def workerStop_def workerSetReady_def)
qed

theorem shutdown_quiet_witness:
  "\<exists>p. NewPipeline (\<lambda>_. Inr literal_env) (\<lambda>_. Inl ''none'') sample_env [] Default sample_opts = Inr p
    \<and> \<not> pipelineReady (snd (Shutdown (Some ''busy'') False p))"
proof -
  obtain p where p: "NewPipeline (\<lambda>_. Inr literal_env) (\<lambda>_. Inl ''none'') sample_env [] Default sample_opts = Inr p"
    using sample_pipeline_built by blast
  have new: "\<not> en_stopped e" if "newEngineImpl newEnv cfg ch loader = Inr e"
    for newEnv cfg ch loader and e :: "(string, string, string list) engineImpl"
    using that by (auto simp: newEngineImpl_def split: sum.splits)
  have stop: "\<not> pl_stopped p" "\<not> en_stopped (pl_detector p)" "\<not> co_stopped (pl_remediator p)"
    using NewPipeline_parts [OF p] new by (fastforce simp: newControllerImpl_def)+
  from shutdown_quiet [OF stop, of "Some ''busy''" False "fst (Shutdown (Some ''busy'') False p)" "snd (Shutdown (Some ''busy'') False p)"] p
  show ?thesis by simp
qed

end
