(* ===== verification/Health.thy ===== *)
theory Health
  imports Prelude
begin

text \<open>
  The health server of \<open>internal/health/health.go\<close>: registration of liveness and readiness checks and
  the handlers of \<open>/healthz\<close> and \<open>/readyz\<close>. A check is a function of the process state \<open>'w\<close> that
  returns an error message or nothing. The \<open>http.ResponseWriter\<close> is a record that knows which headers
  had been set when the status line was written; headers set later are not sent. Listening on the
  address is I/O.
\<close>

section \<open>The server\<close>

type_synonym 'w Checker = "'w \<Rightarrow> string option"

record 'w Server =
  sv_addr :: string
  sv_livenessChecks :: "(string, 'w Checker) gomap"
  sv_readinessChecks :: "(string, 'w Checker) gomap"

definition NewServer :: "string \<Rightarrow> 'w Server" where
  "NewServer addr = \<lparr>sv_addr = addr, sv_livenessChecks = [], sv_readinessChecks = []\<rparr>"

definition AddLivenessCheck :: "'w Server \<Rightarrow> string \<Rightarrow> 'w Checker \<Rightarrow> 'w Server" where
  "AddLivenessCheck s name check = s\<lparr>sv_livenessChecks := mput name check (sv_livenessChecks s)\<rparr>"

definition AddReadinessCheck :: "'w Server \<Rightarrow> string \<Rightarrow> 'w Checker \<Rightarrow> 'w Server" where
  "AddReadinessCheck s name check = s\<lparr>sv_readinessChecks := mput name check (sv_readinessChecks s)\<rparr>"

section \<open>Responses\<close>

record healthResponse =
  hr_Status :: string
  hr_Checks :: "(string, string) gomap"

record ResponseWriter =
  rw_Header :: "(string, string) gomap"
  rw_Code :: "int option"
  rw_SentHeader :: "(string, string) gomap"
  rw_Body :: "healthResponse list"

definition newWriter :: ResponseWriter where
  "newWriter = \<lparr>rw_Header = [], rw_Code = None, rw_SentHeader = [], rw_Body = []\<rparr>"

definition WriteHeader :: "int \<Rightarrow> ResponseWriter \<Rightarrow> ResponseWriter" where
  "WriteHeader code rw = (if rw_Code rw = None then rw\<lparr>rw_Code := Some code, rw_SentHeader := rw_Header rw\<rparr> else rw)"

definition HeaderSet :: "string \<Rightarrow> string \<Rightarrow> ResponseWriter \<Rightarrow> ResponseWriter" where
  "HeaderSet k v rw = rw\<lparr>rw_Header := mput k v (rw_Header rw)\<rparr>"

text \<open>\<open>json.NewEncoder(w).Encode\<close>; writing a body without a status line sends 200 first.\<close>

definition EncodeTo :: "healthResponse \<Rightarrow> ResponseWriter \<Rightarrow> ResponseWriter" where
  "EncodeTo r rw = (let rw' = WriteHeader 200 rw in rw'\<lparr>rw_Body := rw_Body rw' @ [r]\<rparr>)"

section \<open>Handlers\<close>

fun checkLoop ::
  "'w \<Rightarrow> (string \<times> 'w Checker) list \<Rightarrow> (string, string) gomap \<Rightarrow> bool \<Rightarrow> (string, string) gomap \<times> bool" where
  "checkLoop w [] results allHealthy = (results, allHealthy)"
| "checkLoop w ((name, check) # rest) results allHealthy =
     (case check w of
        Some err \<Rightarrow> checkLoop w rest (mput name err results) False
      | None \<Rightarrow> checkLoop w rest (mput name ''ok'' results) allHealthy)"

definition runChecks :: "'w \<Rightarrow> (string, 'w Checker) gomap \<Rightarrow> ResponseWriter \<Rightarrow> ResponseWriter" where
  "runChecks w checks rw =
     (let (results, allHealthy) = checkLoop w checks [] True;
          results' = (if checks = [] then mput ''default'' ''ok'' results else results);
          rw1 = WriteHeader (if allHealthy then 200 else 503) rw;
          rw2 = HeaderSet ''Content-Type'' ''application/json'' rw1
      in EncodeTo \<lparr>hr_Status = (if allHealthy then ''ok'' else ''unhealthy''), hr_Checks = results'\<rparr> rw2)"

text \<open>The copy of the map is in the order of a range loop over it.\<close>

definition handleHealthz :: "'w Server \<Rightarrow> 'w \<Rightarrow> ResponseWriter \<Rightarrow> ResponseWriter" where
  "handleHealthz s w rw = runChecks w (foldl (\<lambda>m (k, v). mput k v m) [] (sv_livenessChecks s)) rw"

definition handleReadyz :: "'w Server \<Rightarrow> 'w \<Rightarrow> ResponseWriter \<Rightarrow> ResponseWriter" where
  "handleReadyz s w rw = runChecks w (foldl (\<lambda>m (k, v). mput k v m) [] (sv_readinessChecks s)) rw"

text \<open>
  The multiplexer that \<open>NewServer\<close> builds: its two patterns match exactly these paths, any other path
  is answered with 404.
\<close>

definition serveHTTP :: "'w Server \<Rightarrow> string \<Rightarrow> 'w \<Rightarrow> ResponseWriter \<Rightarrow> ResponseWriter" where
  "serveHTTP s path w rw =
     (if path = ''/healthz'' then handleHealthz s w rw
      else if path = ''/readyz'' then handleReadyz s w rw
      else WriteHeader 404 rw)"

text \<open>
  \<open>Run\<close>: how \<open>ListenAndServe\<close> ended, if it did, and whether the context is done; the values are the
  results that \<open>select\<close> can choose, none while it blocks.
\<close>

datatype listenResult = Listening | ServerClosed | ListenFailed string

definition healthRun :: "listenResult \<Rightarrow> bool \<Rightarrow> string option \<Rightarrow> string option set" where
  "healthRun listen ctxDone shutdownErr =
     (if ctxDone then {shutdownErr} else {}) \<union> (case listen of ListenFailed err \<Rightarrow> {Some err} | _ \<Rightarrow> {})"

lemma healthRun_blocks: "healthRun listen ctxDone shutdownErr = {} \<longleftrightarrow> \<not> ctxDone \<and> (\<forall>err. listen \<noteq> ListenFailed err)"
  by (cases listen) (auto simp: healthRun_def)

section \<open>What the loop computes\<close>

lemma mput_new: "k \<notin> fst ` set m \<Longrightarrow> mput k v m = m @ [(k, v)]"
  by (induction m) auto

lemma copy_map:
  "distinct (map fst (m @ xs)) \<Longrightarrow> foldl (\<lambda>m (k, v). mput k v m) m xs = m @ xs"
proof (induction xs arbitrary: m)
  case (Cons x xs)
  obtain k v where x: "x = (k, v)" by force
  have "mput k v m = m @ [(k, v)]"
    using Cons.prems x by (intro mput_new) auto
  then show ?case using Cons x by simp
qed simp

lemma checkLoop_healthy:
  "snd (checkLoop w checks results ok) \<longleftrightarrow> ok \<and> (\<forall>(n, check) \<in> set checks. check w = None)"
  by (induction w checks results ok rule: checkLoop.induct) (auto split: option.splits)

definition outcomeOf :: "string option \<Rightarrow> string" where
  "outcomeOf r = (case r of None \<Rightarrow> ''ok'' | Some err \<Rightarrow> err)"

lemma checkLoop_results:
  "distinct (map fst checks) \<Longrightarrow>
   mget (fst (checkLoop w checks results ok)) name =
     (case mget checks name of None \<Rightarrow> mget results name | Some check \<Rightarrow> Some (outcomeOf (check w)))"
proof (induction checks arbitrary: results ok)
  case (Cons x checks)
  obtain n check where x: "x = (n, check)" by force
  have "mget checks n = None" using Cons.prems x by (simp add: map_of_eq_None_iff)
  with Cons x show ?case by (auto simp: outcomeOf_def split: option.splits)
qed simp

section \<open>Properties\<close>

definition checks_wf :: "'w Server \<Rightarrow> bool" where
  "checks_wf s \<longleftrightarrow> map_wf (sv_livenessChecks s) \<and> map_wf (sv_readinessChecks s)"

lemma checks_wf_ops [simp]:
  "checks_wf (NewServer addr)" "checks_wf s \<Longrightarrow> checks_wf (AddLivenessCheck s n c)"
  "checks_wf s \<Longrightarrow> checks_wf (AddReadinessCheck s n c)"
  by (simp_all add: checks_wf_def NewServer_def AddLivenessCheck_def AddReadinessCheck_def)

lemma runChecks_response:
  assumes "map_wf checks" "rw = runChecks w checks newWriter" "healthy = (\<forall>(n, check) \<in> set checks. check w = None)"
  shows "rw_Code rw = Some (if healthy then 200 else 503)
    \<and> (\<exists>body. rw_Body rw = [body] \<and> hr_Status body = (if healthy then ''ok'' else ''unhealthy'')
        \<and> (\<forall>name. mget (hr_Checks body) name =
             (if checks = [] then (if name = ''default'' then Some ''ok'' else None)
              else map_option (\<lambda>check. outcomeOf (check w)) (mget checks name))))
    \<and> rw_SentHeader rw = []"
proof -
  obtain results ok where loop: "checkLoop w checks [] True = (results, ok)" by force
  have "ok = healthy" using checkLoop_healthy [of w checks "[]" True] loop assms(3) by simp
  moreover have "mget results name = map_option (\<lambda>check. outcomeOf (check w)) (mget checks name)" for name
    using checkLoop_results [of checks w "[]" True name] loop assms(1) by (simp add: map_wf_def split: option.splits)
  moreover have "checks = [] \<Longrightarrow> results = []" using loop by auto
  ultimately show ?thesis
    using loop by (simp add: assms(2) runChecks_def Let_def WriteHeader_def HeaderSet_def EncodeTo_def newWriter_def)
qed

text \<open>
  The readiness endpoint answers 200 when every registered check passes and 503 otherwise; the
  body lists each check once with \<open>ok\<close> or its error, and the header that declares the body to be JSON
  is set too late to be sent.
\<close>

theorem readyz_response:
  assumes "checks_wf s" "rw = handleReadyz s w newWriter"
    and "healthy = (\<forall>(n, check) \<in> set (sv_readinessChecks s). check w = None)"
  shows "rw_Code rw = Some (if healthy then 200 else 503)
    \<and> (\<exists>body. rw_Body rw = [body] \<and> hr_Status body = (if healthy then ''ok'' else ''unhealthy'')
        \<and> (\<forall>name. mget (hr_Checks body) name =
             (if sv_readinessChecks s = [] then (if name = ''default'' then Some ''ok'' else None)
              else map_option (\<lambda>check. outcomeOf (check w)) (mget (sv_readinessChecks s) name))))
    \<and> mget (rw_SentHeader rw) ''Content-Type'' = None"
proof -
  have wf: "map_wf (sv_readinessChecks s)" using assms(1) by (simp add: checks_wf_def)
  then have "foldl (\<lambda>m (k, v). mput k v m) [] (sv_readinessChecks s) = sv_readinessChecks s"
    using copy_map [of "[]" "sv_readinessChecks s"] by (simp add: map_wf_def)
  then have "rw = runChecks w (sv_readinessChecks s) newWriter" using assms(2) by (simp add: handleReadyz_def)
  from runChecks_response [OF wf this assms(3)] show ?thesis by auto
qed

theorem readyz_response_witness:
  "rw_Code (handleReadyz (AddReadinessCheck (NewServer '':8081'') ''operator'' (\<lambda>ready. if ready then None else Some ''pipeline not ready''))
     False newWriter) = Some 503"
proof -
  have wf: "checks_wf (AddReadinessCheck (NewServer '':8081'') ''operator''
      (\<lambda>ready. if ready then None else Some ''pipeline not ready''))" by simp
  from readyz_response [OF wf refl refl, of False]
  show ?thesis by (simp add: AddReadinessCheck_def NewServer_def)
qed

end
