(* ===== verification/Operator.thy ===== *)
theory Operator
  imports Pipeline Health
begin

text \<open>
  The process of \<open>cmd/operator/main.go\<close>: flags and start-up configuration, the role-aware health
  checks, the leader label of the pod, and the three ways to run, standalone, worker and leader.
  Leader election itself is client-go's; its callbacks are operations here. \<open>os.Exit\<close> is the result
  \<open>Exited code\<close>.
\<close>

section \<open>Start-up configuration\<close>

record flags =
  fl_config :: string
  fl_metricsAddr :: string
  fl_healthAddr :: string
  fl_dryRun :: bool
  fl_leaderElect :: bool
  fl_logLevel :: string
  fl_shutdownTimeout :: duration

definition flagDefaults :: flags where
  "flagDefaults = \<lparr>fl_config = '''', fl_metricsAddr = '':8080'', fl_healthAddr = '':8081'', fl_dryRun = False,
     fl_leaderElect = False, fl_logLevel = ''info'', fl_shutdownTimeout = 30 * Second\<rparr>"

definition buildFlagOverrides :: "flags \<Rightarrow> FlagOverrides" where
  "buildFlagOverrides f = \<lparr>fo_ConfigPath = fl_config f, fo_LogLevel = fl_logLevel f, fo_ShutdownTimeout = fl_shutdownTimeout f,
     fo_DryRun = fl_dryRun f, fo_LeaderElectionEnabled = fl_leaderElect f, fo_MetricsAddress = fl_metricsAddr f,
     fo_HealthAddress = fl_healthAddr f\<rparr>"

datatype 'e startError = LoadFailed 'e | InvalidConfig ConfigError

text \<open>Load, then the flags, then validation; both errors end the process with code 1.\<close>

definition startConfig ::
  "(string \<Rightarrow> 'e + 'b) \<Rightarrow> ('b \<Rightarrow> Config \<Rightarrow> 'e + Config) \<Rightarrow> flags \<Rightarrow> 'e startError + Config" where
  "startConfig readFile unmarshal f =
     (case Load readFile unmarshal (fl_config f) of
        Inl err \<Rightarrow> Inl (LoadFailed err)
      | Inr cfg \<Rightarrow>
          (let cfg' = ApplyFlagOverrides cfg (buildFlagOverrides f) in
           case Validate cfg' of Some err \<Rightarrow> Inl (InvalidConfig err) | None \<Rightarrow> Inr cfg'))"

definition identity :: "string \<Rightarrow> string \<Rightarrow> string" where
  "identity podName hostname = (if podName = '''' then hostname else podName)"

section \<open>The process\<close>

text \<open>The two references that the health checks read, both nil at first.\<close>

record ('a, 'p, 'w, 'l) process =
  ps_pipelineRef :: "('a, 'p, 'w, 'l) Pipeline option"
  ps_taskWorkerRef :: "Worker option"

definition newProcess :: "('a, 'p, 'w, 'l) process" where
  "newProcess = \<lparr>ps_pipelineRef = None, ps_taskWorkerRef = None\<rparr>"

definition readinessCheck :: "('a, 'p, 'w, 'l) process Checker" where
  "readinessCheck ps =
     (case ps_taskWorkerRef ps of
        Some tw \<Rightarrow>
          (if \<not> workerReady tw then Some ''task worker not ready''
           else case ps_pipelineRef ps of
             Some p \<Rightarrow> if \<not> pipelineReady p then Some ''pipeline not ready'' else None
           | None \<Rightarrow> None)
      | None \<Rightarrow>
          (case ps_pipelineRef ps of
             None \<Rightarrow> Some ''pipeline not ready''
           | Some p \<Rightarrow> if \<not> pipelineReady p then Some ''pipeline not ready'' else None))"

definition livenessCheck :: "('a, 'p, 'w, 'l) process Checker" where
  "livenessCheck ps =
     (case ps_pipelineRef ps of
        Some p \<Rightarrow> if \<not> Healthy p then Some ''pipeline not healthy'' else None
      | None \<Rightarrow> None)"

definition healthServer :: "Config \<Rightarrow> ('a, 'p, 'w, 'l) process Server" where
  "healthServer cfg = AddLivenessCheck
     (AddReadinessCheck (NewServer (hc_Address (cfg_Health cfg))) ''operator'' readinessCheck) ''process'' livenessCheck"

section \<open>The leader label\<close>

definition LeaderLabelKey :: string where
  "LeaderLabelKey = ''ariadna-ops.com/leader''"

text \<open>A merge patch of the labels of a pod: a value sets the label, \<open>None\<close> (null) removes it.\<close>

type_synonym 'w podPatch = "string \<Rightarrow> string \<Rightarrow> (string \<times> string option) list \<Rightarrow> 'w \<Rightarrow> string option \<times> 'w"

definition patchPodLeaderLabel :: "'w podPatch \<Rightarrow> string \<Rightarrow> string \<Rightarrow> bool \<Rightarrow> 'w \<Rightarrow> string option \<times> 'w" where
  "patchPodLeaderLabel patch namespace podName isLeader w =
     (if podName = '''' then (Some ''pod name empty'', w)
      else patch namespace podName [(LeaderLabelKey, if isLeader then Some ''true'' else None)] w)"

section \<open>Running the pipeline\<close>

text \<open>
  What surrounds a pipeline: the compiler environment, label selectors, sorting, the time zone and
  the clients of the cluster.
\<close>

record ('a, 'p, 'w, 'l, 'c) setting =
  st_newEnv :: "(string \<times> string) list \<Rightarrow> string + ('a, 'p) celenv"
  st_asSel :: "'l asSelector"
  st_env :: "('w, 'l, 'c) pipelineEnv"
  st_sort :: "ActionConfig list \<Rightarrow> ActionConfig list"
  st_loc :: location

text \<open>
  \<open>runPipeline\<close> up to the moment when a signal arrives or \<open>Run\<close> returns, which it only does without
  an error: the events are what the pipeline did meanwhile. The worker that the pipeline was given
  is the one that the process refers to.
\<close>

definition launchPipeline ::
  "('a, 'p, 'w, 'l, 'c) setting \<Rightarrow> Config \<Rightarrow> 'w pipelineOpts \<Rightarrow> 'w pipelineEvent list \<Rightarrow> ('a, 'p, 'w, 'l) process \<Rightarrow> 'w
     \<Rightarrow> PipelineError + ('a, 'p, 'w, 'l) process \<times> 'w" where
  "launchPipeline st cfg po evs ps w =
     (case NewPipeline (st_newEnv st) (st_asSel st) (st_env st) w cfg po of
        Inl err \<Rightarrow> Inl err
      | Inr p \<Rightarrow>
          (let (p', w') = pipelineRun (st_sort st) (st_loc st) (afterReady (startLayers w p), w) evs
           in Inr (\<lparr>ps_pipelineRef = Some p',
                 ps_taskWorkerRef = (if pl_taskWorker p' = None then ps_taskWorkerRef ps else pl_taskWorker p')\<rparr>, w')))"

text \<open>The remaining part of \<open>runPipeline\<close>.\<close>

definition stopPipeline ::
  "string option \<Rightarrow> bool \<Rightarrow> ('a, 'p, 'w, 'l) process \<Rightarrow> string option \<times> ('a, 'p, 'w, 'l) process" where
  "stopPipeline shutdownErr timedOut ps =
     (case ps_pipelineRef ps of
        None \<Rightarrow> (None, ps)
      | Some p \<Rightarrow>
          (let (err, p') = Shutdown shutdownErr timedOut p
           in (err, \<lparr>ps_pipelineRef = Some p',
                ps_taskWorkerRef = (if pl_taskWorker p' = None then ps_taskWorkerRef ps else pl_taskWorker p')\<rparr>)))"

definition runPipeline ::
  "('a, 'p, 'w, 'l, 'c) setting \<Rightarrow> Config \<Rightarrow> 'w pipelineOpts \<Rightarrow> 'w pipelineEvent list \<Rightarrow> string option \<Rightarrow> bool
     \<Rightarrow> ('a, 'p, 'w, 'l) process \<Rightarrow> 'w \<Rightarrow> bool \<times> ('a, 'p, 'w, 'l) process \<times> 'w" where
  "runPipeline st cfg po evs shutdownErr timedOut ps w =
     (case launchPipeline st cfg po evs ps w of
        Inl err \<Rightarrow> (False, ps, w)
      | Inr (ps1, w1) \<Rightarrow> (let (err, ps2) = stopPipeline shutdownErr timedOut ps1 in (err = None, ps2, w1)))"

section \<open>Standalone mode\<close>

definition operatorNamespace :: "Config \<Rightarrow> string" where
  "operatorNamespace cfg =
     (if oc_Namespace (cfg_Operator cfg) = '''' then ''selfhealing-system'' else oc_Namespace (cfg_Operator cfg))"

definition standaloneOpts :: "'w pipelineOpts" where
  "standaloneOpts = \<lparr>po_role = '''', po_taskPublisher = None, po_taskWorker = None\<rparr>"

definition standaloneLabel :: "string + 'w podPatch \<Rightarrow> Config \<Rightarrow> string \<Rightarrow> 'w \<Rightarrow> 'w" where
  "standaloneLabel client cfg ident w =
     (case client of
        Inl err \<Rightarrow> w
      | Inr patch \<Rightarrow> snd (patchPodLeaderLabel patch (operatorNamespace cfg) ident True w))"

text \<open>The result is the exit code of the process.\<close>

definition runStandalone ::
  "('a, 'p, 'w, 'l, 'c) setting \<Rightarrow> string + 'w podPatch \<Rightarrow> Config \<Rightarrow> string \<Rightarrow> 'w pipelineEvent list \<Rightarrow> string option \<Rightarrow> bool
     \<Rightarrow> 'w \<Rightarrow> int \<times> ('a, 'p, 'w, 'l) process \<times> 'w" where
  "runStandalone st client cfg ident evs shutdownErr timedOut w =
     (let (ok, ps, w') = runPipeline st cfg standaloneOpts evs shutdownErr timedOut newProcess
            (standaloneLabel client cfg ident w)
      in (if ok then 0 else 1, ps, w'))"

section \<open>Leader and worker\<close>

definition leaseNamespace :: "Config \<Rightarrow> string" where
  "leaseNamespace cfg = le_LeaseNamespace (oc_LeaderElection (cfg_Operator cfg))"

text \<open>Every pod starts a worker, whether it becomes the leader or not.\<close>

definition startWorkerMode :: "Config \<Rightarrow> string \<Rightarrow> ('a, 'p, 'w, 'l) process \<Rightarrow> ('a, 'p, 'w, 'l) process" where
  "startWorkerMode cfg ident ps =
     ps\<lparr>ps_taskWorkerRef := Some (workerStart (NewWorker (leaseNamespace cfg) ident))\<rparr>"

definition leaderOpts :: "'w taskAPI \<Rightarrow> (ActionConfig list \<Rightarrow> ActionConfig list) \<Rightarrow> (gval \<Rightarrow> string) \<Rightarrow> Config \<Rightarrow> Worker option
     \<Rightarrow> 'w pipelineOpts" where
  "leaderOpts api srt fmtv cfg tw =
     \<lparr>po_role = RoleLeader, po_taskPublisher = Some (Publish api srt fmtv (leaseNamespace cfg)), po_taskWorker = tw\<rparr>"

definition onStartedLeading ::
  "('a, 'p, 'w, 'l, 'c) setting \<Rightarrow> 'w podPatch \<Rightarrow> 'w taskAPI \<Rightarrow> (gval \<Rightarrow> string) \<Rightarrow> Config \<Rightarrow> string \<Rightarrow> 'w pipelineEvent list
     \<Rightarrow> ('a, 'p, 'w, 'l) process \<Rightarrow> 'w \<Rightarrow> PipelineError + ('a, 'p, 'w, 'l) process \<times> 'w" where
  "onStartedLeading st patch api fmtv cfg ident evs ps w =
     launchPipeline st cfg (leaderOpts api (st_sort st) fmtv cfg (ps_taskWorkerRef ps)) evs ps
       (snd (patchPodLeaderLabel patch (leaseNamespace cfg) ident True w))"

text \<open>The process ends with code 0 after the label is removed.\<close>

definition onStoppedLeading :: "'w podPatch \<Rightarrow> Config \<Rightarrow> string \<Rightarrow> 'w \<Rightarrow> int \<times> 'w" where
  "onStoppedLeading patch cfg ident w = (0, snd (patchPodLeaderLabel patch (leaseNamespace cfg) ident False w))"

text \<open>Both modes build their options from those of the pipeline.\<close>

lemma opts_applied:
  "standaloneOpts = applyOptions []"
  "leaderOpts api srt fmtv cfg (Some tw)
     = applyOptions [WithRole RoleLeader, WithTaskPublisher (Publish api srt fmtv (leaseNamespace cfg)), WithTaskWorker tw]"
  by (simp_all add: standaloneOpts_def leaderOpts_def applyOptions_def WithRole_def WithTaskPublisher_def WithTaskWorker_def)

section \<open>Readiness of the running layers\<close>

lemma evaluateScenario_ready [simp]: "en_ready (snd (evaluateScenario e sc i)) = en_ready e"
  by (simp add: evaluateScenario_def split: option.splits prod.splits sum.splits)

lemma processInput_ready [simp]: "en_ready (processInput loc clk e i) = en_ready e"
  by (rule processInput_inv [where P = "\<lambda>e'. en_ready e' = en_ready e"]) (simp_all add: scenarioStep_def Let_def)

lemma RegisterScenario_ready [simp]: "en_ready (snd (RegisterScenario e sc)) = en_ready e"
  by (simp add: RegisterScenario_def split: option.splits prod.splits sum.splits)

lemma registerAll_ready [simp]: "en_ready (fst (registerAll e scs n)) = en_ready e"
proof (induction scs arbitrary: e n)
  case (Cons sc scs)
  then show ?case using RegisterScenario_ready [of e sc] by (cases "RegisterScenario e sc") (simp split: option.splits)
qed simp

lemma loadScenarios_ready [simp]: "en_ready (snd (loadScenarios w e b)) = en_ready e"
  by (simp add: loadScenarios_def Let_def split: option.splits sum.splits)

lemma processResult_ready [simp]:
  "co_ready (fst (processResult srt loc clk c r w)) = co_ready c \<and> co_stopped (fst (processResult srt loc clk c r w)) = co_stopped c"
proof (cases rule: processResult_cases [where c = c and clk = clk and r = r and w = w and srt = srt and loc = loc])
  case 1
  obtain ars status w' where "remediate srt loc clk c r w = (ars, status, w')" by (metis surj_pair)
  with 1 show ?thesis by (simp add: processResult_acts)
qed (simp_all add: processResult_escalates escalate_def recordSkipped_def Remediation.sendResult_def)

lemma onReload_more [simp]:
  "pl_taskWorker (onReload w p) = pl_taskWorker p" "pl_stopped (onReload w p) = pl_stopped p"
  by (simp_all add: onReload_def launchMonitors_def Let_def case_prod_beta split: option.splits)

lemma pipelineStep_ready:
  "en_ready (pl_detector (fst (pipelineStep srt loc s ev))) = en_ready (pl_detector (fst s))"
  "co_ready (pl_remediator (fst (pipelineStep srt loc s ev))) = co_ready (pl_remediator (fst s))"
  "co_stopped (pl_remediator (fst (pipelineStep srt loc s ev))) = co_stopped (pl_remediator (fst s))"
  "pl_taskWorker (fst (pipelineStep srt loc s ev)) = pl_taskWorker (fst s)"
  "pl_stopped (fst (pipelineStep srt loc s ev)) = pl_stopped (fst s)"
  by (cases s; cases ev; simp add: ReloadScenarios_def Detection.cleanupTick_def Remediation.cleanupTick_def
      Let_def case_prod_beta split: option.splits)+


lemma pipelineRun_ready:
  "en_ready (pl_detector (fst (pipelineRun srt loc s evs))) = en_ready (pl_detector (fst s))
   \<and> co_ready (pl_remediator (fst (pipelineRun srt loc s evs))) = co_ready (pl_remediator (fst s))
   \<and> co_stopped (pl_remediator (fst (pipelineRun srt loc s evs))) = co_stopped (pl_remediator (fst s))
   \<and> pl_taskWorker (fst (pipelineRun srt loc s evs)) = pl_taskWorker (fst s)
   \<and> pl_stopped (fst (pipelineRun srt loc s evs)) = pl_stopped (fst s)"
  unfolding pipelineRun_def by (induction evs arbitrary: s) (simp_all add: pipelineStep_ready)

lemma readyz_code:
  "rw_Code (handleReadyz (healthServer cfg) ps newWriter) = Some (if readinessCheck ps = None then 200 else 503)"
  by (simp add: handleReadyz_def healthServer_def AddReadinessCheck_def AddLivenessCheck_def NewServer_def runChecks_def
      WriteHeader_def HeaderSet_def EncodeTo_def newWriter_def Let_def split: option.splits)

text \<open>The state of a pipeline that \<open>runPipeline\<close> has launched, whatever happened meanwhile.\<close>

lemma launched:
  assumes "launchPipeline st cfg po evs ps0 w = Inr (ps, w')"
  shows "\<exists>p. ps_pipelineRef ps = Some p \<and> Detection.Ready (pl_detector p) \<and> Remediation.Ready (pl_remediator p)
    \<and> \<not> co_stopped (pl_remediator p) \<and> \<not> pl_stopped p \<and> pl_taskWorker p = map_option workerStart (po_taskWorker po)
    \<and> ps_taskWorkerRef ps = (if po_taskWorker po = None then ps_taskWorkerRef ps0 else pl_taskWorker p)"
proof -
  obtain p0 where p0: "NewPipeline (st_newEnv st) (st_asSel st) (st_env st) w cfg po = Inr p0"
    using assms by (auto simp: launchPipeline_def split: sum.splits)
  let ?p1 = "afterReady (startLayers w p0)"
  have start: "en_ready (pl_detector ?p1)" "co_ready (pl_remediator ?p1)" "\<not> co_stopped (pl_remediator ?p1)" "\<not> pl_stopped ?p1"
    "pl_taskWorker ?p1 = map_option workerStart (pl_taskWorker p0)"
    using NewPipeline_parts [OF p0]
    by (auto simp: Detection.startRun_def Detection.setReady_def Remediation.startRun_def Remediation.setReady_def
        newControllerImpl_def startLayers_def afterReady_def launchMonitors_def)
  have tw: "pl_taskWorker p0 = po_taskWorker po"
    using p0 by (auto simp: NewPipeline_def Let_def split: sum.splits)
  obtain p w2 where run: "pipelineRun (st_sort st) (st_loc st) (?p1, w) evs = (p, w2)" by force
  have ps: "ps = \<lparr>ps_pipelineRef = Some p, ps_taskWorkerRef = (if pl_taskWorker p = None then ps_taskWorkerRef ps0 else pl_taskWorker p)\<rparr>"
    using assms p0 run by (simp add: launchPipeline_def)
  show ?thesis
    using pipelineRun_ready [of "st_sort st" "st_loc st" "(?p1, w)" evs] run start tw ps
    by (simp add: Detection.Ready_def Remediation.Ready_def)
qed

lemma launched_readiness:
  assumes "launchPipeline st cfg po evs ps0 w = Inr (ps, w')" "ps_taskWorkerRef ps0 = po_taskWorker po"
    and "ps_pipelineRef ps = Some p"
  shows "readinessCheck ps = None \<longleftrightarrow> (pl_monitorsStarted p \<longrightarrow> (\<forall>m \<in> set (pl_monitors p). monitorReady m))"
proof -
  have up: "Detection.Ready (pl_detector p)" "Remediation.Ready (pl_remediator p)"
    and tw: "pl_taskWorker p = map_option workerStart (po_taskWorker po)" "ps_taskWorkerRef ps = map_option workerStart (po_taskWorker po)"
    using launched [OF assms(1)] assms(2, 3) by auto
  have started: "workerReady (workerStart t)" for t by (simp add: workerReady_def workerStart_def workerSetReady_def)
  have "pipelineReady p \<longleftrightarrow> (pl_monitorsStarted p \<longrightarrow> (\<forall>m \<in> set (pl_monitors p). monitorReady m))"
    unfolding pipelineReady_def list_all_iff tw(1) using up started by (cases "po_taskWorker po") simp_all
  then show ?thesis
    unfolding readinessCheck_def tw(2) assms(3) using started by (cases "po_taskWorker po") simp_all
qed

section \<open>Properties\<close>



definition sample_setting :: "(string, string, string list, unit, unit) setting" where
  "sample_setting = \<lparr>st_newEnv = (\<lambda>_. Inr literal_env), st_asSel = (\<lambda>_. Inl ''none''), st_env = sample_env,
     st_sort = sort_key ac_Order, st_loc = UTC\<rparr>"

lemma sample_launch:
  "\<exists>ps w'. launchPipeline sample_setting Default standaloneOpts sample_events newProcess [] = Inr (ps, w') \<and> (\<exists>p. ps_pipelineRef ps = Some p)"
proof -
  obtain p where "NewPipeline (\<lambda>_. Inr literal_env) (\<lambda>_. Inl ''none'') sample_env [] Default sample_opts = Inr p"
    using sample_pipeline_built by blast
  moreover have "sample_opts = standaloneOpts" by (simp add: sample_opts_def standaloneOpts_def)
  ultimately show ?thesis
    by (cases "pipelineRun (sort_key ac_Order) UTC (afterReady (startLayers [] p), []) sample_events")
      (simp add: launchPipeline_def sample_setting_def)
qed


text \<open>
  C17. With the flag for dry-run, a standalone operator changes nothing in the cluster except the
  leader label of its own pod, whatever it observes and however it ends.
\<close>

theorem dry_run_flag_harmless:
  assumes "startConfig readFile unmarshal f = Inr cfg" "fl_dryRun f" "slice_sorter ac_Order (st_sort st)"
    and "\<forall>ev \<in> set evs. \<forall>w. ev \<noteq> ClusterChanges w"
  shows "snd (snd (runStandalone st client cfg ident evs shutdownErr timedOut w)) = standaloneLabel client cfg ident w"
proof -
  let ?w = "standaloneLabel client cfg ident w"
  have dry: "rm_DryRun (cfg_Remediation cfg)"
    using assms(1, 2) by (auto simp: startConfig_def buildFlagOverrides_def ApplyFlagOverrides_fields Let_def
        split: sum.splits option.splits)
  show ?thesis
  proof (cases "NewPipeline (st_newEnv st) (st_asSel st) (st_env st) ?w cfg standaloneOpts")
    case (Inl err)
    then show ?thesis by (simp add: runStandalone_def runPipeline_def launchPipeline_def)
  next
    case (Inr p)
    have "rm_DryRun (cfg_Remediation (pl_config p))"
      using NewPipeline_parts [OF Inr] dry by (auto simp: set_DryRun_def)
    then have "snd (pipelineRun (st_sort st) (st_loc st) (afterReady (startLayers ?w p), ?w) evs) = ?w"
      using dry_run_pipeline [OF Inr refl _ _ assms(3, 4)] by (simp add: standaloneOpts_def)
    with Inr show ?thesis
      by (simp add: runStandalone_def runPipeline_def launchPipeline_def Let_def case_prod_beta)
  qed
qed

theorem dry_run_flag_harmless_witness:
  "\<exists>cfg. startConfig (\<lambda>_. Inl ''no file'') (\<lambda>(_ :: unit) cfg. Inr cfg) (flagDefaults\<lparr>fl_dryRun := True\<rparr>) = Inr cfg
    \<and> snd (snd (runStandalone sample_setting (Inl ''local'') cfg ''pod-0'' sample_events None False [])) = []"
proof -
  let ?f = "flagDefaults\<lparr>fl_dryRun := True\<rparr>"
  have "Validate (ApplyFlagOverrides Default (buildFlagOverrides ?f)) = None"
    by (rule Validate_flags [OF Default_valid]) (simp add: Default_def)
  then have s: "startConfig (\<lambda>_. Inl ''no file'') (\<lambda>(_ :: unit) cfg. Inr cfg) ?f = Inr (ApplyFlagOverrides Default (buildFlagOverrides ?f))"
    by (simp add: startConfig_def Load_def flagDefaults_def Let_def)
  have "snd (snd (runStandalone sample_setting (Inl ''local'') (ApplyFlagOverrides Default (buildFlagOverrides ?f)) ''pod-0'' sample_events
      None False [])) = standaloneLabel (Inl ''local'') (ApplyFlagOverrides Default (buildFlagOverrides ?f)) ''pod-0'' []"
    by (rule dry_run_flag_harmless [OF s])
      (simp_all add: sample_setting_def slice_sorter_sort_key sample_events_def)
  with s show ?thesis by (simp add: standaloneLabel_def)
qed

text \<open>
  C33. A configuration that survives start-up is valid, its flags override what was loaded (dry-run
  and leader election can only be switched on, an address given by a flag always wins), and a
  pipeline built from it fails only when no CEL environment can be created; it then has at least
  one monitor and room in each of its channels.
\<close>

theorem start_up_sound:
  assumes "startConfig readFile unmarshal f = Inr cfg"
  shows "Validate cfg = None
    \<and> (\<exists>loaded. Load readFile unmarshal (fl_config f) = Inr loaded
        \<and> (rm_DryRun (cfg_Remediation cfg) \<longleftrightarrow> rm_DryRun (cfg_Remediation loaded) \<or> fl_dryRun f)
        \<and> (le_Enabled (oc_LeaderElection (cfg_Operator cfg)) \<longleftrightarrow>
             le_Enabled (oc_LeaderElection (cfg_Operator loaded)) \<or> fl_leaderElect f)
        \<and> (fl_metricsAddr f \<noteq> '''' \<longrightarrow> mc_Address (cfg_Metrics cfg) = fl_metricsAddr f)
        \<and> (fl_healthAddr f \<noteq> '''' \<longrightarrow> hc_Address (cfg_Health cfg) = fl_healthAddr f))
    \<and> (case NewPipeline newEnv asSel env w cfg po of
         Inl err \<Rightarrow> \<exists>e. err = EngineFailed (EvaluatorCreation e)
       | Inr p \<Rightarrow> pl_monitors p \<noteq> [] \<and> 0 < ch_cap (pl_detectionInputCh p) \<and> 0 < ch_cap (en_outputCh (pl_detector p))
           \<and> 0 < ch_cap (co_outputCh (pl_remediator p)))"
proof -
  obtain loaded where l: "Load readFile unmarshal (fl_config f) = Inr loaded"
    and c: "cfg = ApplyFlagOverrides loaded (buildFlagOverrides f)" "Validate cfg = None"
    using assms by (auto simp: startConfig_def Let_def split: sum.splits option.splits)
  have ok: "runtime_ok cfg" by (rule Validate_runtime_ok [OF c(2)])
  have "kc_Enabled (cfg_Kubernetes cfg) \<or> or_Enabled (ot_Receiver (cfg_OTel cfg))"
    using c(2) by (auto simp: Validate_def Let_def split: if_splits)
  then have "\<exists>ms. BuildFromConfig cfg = Inr ms \<and> ms \<noteq> []"
    by (auto simp: BuildFromConfig_def defaultFactories_def k8sFactory_def otelFactory_def)
  then obtain ms where ms: "BuildFromConfig cfg = Inr ms" "ms \<noteq> []" by blast
  have "case NewPipeline newEnv asSel env w cfg po of
         Inl err \<Rightarrow> \<exists>e. err = EngineFailed (EvaluatorCreation e)
       | Inr p \<Rightarrow> pl_monitors p \<noteq> [] \<and> 0 < ch_cap (pl_detectionInputCh p) \<and> 0 < ch_cap (en_outputCh (pl_detector p))
           \<and> 0 < ch_cap (co_outputCh (pl_remediator p))"
    using ms ok
    by (cases "NewCELEvaluator newEnv")
      (simp_all add: NewPipeline_def newEngineImpl_def newControllerImpl_def Let_def chan_make_def runtime_ok_def)
  with l c show ?thesis
    by (auto simp: ApplyFlagOverrides_fields buildFlagOverrides_def)
qed

theorem start_up_sound_witness:
  "\<exists>cfg. startConfig (\<lambda>_. Inl ''no file'') (\<lambda>(_ :: unit) cfg. Inr cfg) flagDefaults = Inr cfg \<and> Validate cfg = None
    \<and> hc_Address (cfg_Health cfg) = '':8081''"
proof -
  have "Validate (ApplyFlagOverrides Default (buildFlagOverrides flagDefaults)) = None"
    by (rule Validate_flags [OF Default_valid]) (simp add: Default_def)
  then have s: "startConfig (\<lambda>_. Inl ''no file'') (\<lambda>(_ :: unit) cfg. Inr cfg) flagDefaults
      = Inr (ApplyFlagOverrides Default (buildFlagOverrides flagDefaults))"
    by (simp add: startConfig_def Load_def flagDefaults_def Let_def)
  have "fl_healthAddr flagDefaults = '':8081''" by (simp add: flagDefaults_def)
  with start_up_sound [OF s] s show ?thesis by (metis list.distinct(1))
qed

end
