(* ===== verification/Clients.thy ===== *)
theory Clients
  imports Operator OwnerResolver
begin

text \<open>
  How the operator gets its clients of the cluster: the credentials of the pod, or else those of a
  kubeconfig file, resolved anew by every component (\<open>cmd/operator/main.go\<close>, \<open>internal/pipeline\<close>,
  \<open>internal/monitor\<close>, \<open>internal/crdloader\<close>), and what a pipeline is built from when they are missing.
  The constructors of client-go and controller-runtime are the fields of the record \<open>credentials\<close>.
\<close>

record ('k, 'c, 'd, 'w, 'l) credentials =
  kr_InClusterConfig :: "string + 'k"
  kr_ClientConfig :: "string + 'k"
  kr_NewClientset :: "'k \<Rightarrow> string + 'c"
  kr_NewDynamic :: "'k \<Rightarrow> string + 'd"
  kr_AddToScheme :: "string option"
  kr_NewWithWatch :: "'k \<Rightarrow> string + ('w, 'l) crd_client"
  kr_owners :: "'c \<Rightarrow> 'w owner_api"

text \<open>The fallback that each component writes out, with a message of its own.\<close>

definition restConfig :: "string \<Rightarrow> ('k, 'c, 'd, 'w, 'l) credentials \<Rightarrow> string + 'k" where
  "restConfig message cr =
     (case kr_InClusterConfig cr of
        Inr cfg \<Rightarrow> Inr cfg
      | Inl _ \<Rightarrow> (case kr_ClientConfig cr of Inr cfg \<Rightarrow> Inr cfg | Inl err \<Rightarrow> Inl (message @ err)))"

section \<open>The clients of the process\<close>

definition loadK8sRestConfig :: "('k, 'c, 'd, 'w, 'l) credentials \<Rightarrow> string + 'k" where
  "loadK8sRestConfig cr = restConfig ''build kubeconfig: '' cr"

definition buildLeaderElectionClient :: "('k, 'c, 'd, 'w, 'l) credentials \<Rightarrow> string + 'c" where
  "buildLeaderElectionClient cr =
     (case loadK8sRestConfig cr of Inl err \<Rightarrow> Inl err | Inr cfg \<Rightarrow> kr_NewClientset cr cfg)"

definition buildDynamicClient :: "('k, 'c, 'd, 'w, 'l) credentials \<Rightarrow> string + 'd" where
  "buildDynamicClient cr =
     (case loadK8sRestConfig cr of Inl err \<Rightarrow> Inl err | Inr cfg \<Rightarrow> kr_NewDynamic cr cfg)"

definition buildWorkerActionClient :: "('k, 'c, 'd, 'w, 'l) credentials \<Rightarrow> string + 'c" where
  "buildWorkerActionClient cr =
     (case loadK8sRestConfig cr of Inl err \<Rightarrow> Inl err | Inr cfg \<Rightarrow> kr_NewClientset cr cfg)"

section \<open>The clients of the pipeline\<close>

definition buildActionClient :: "('k, 'c, 'd, 'w, 'l) credentials \<Rightarrow> string + 'c" where
  "buildActionClient cr =
     (case restConfig ''unable to load K8s config for action client: '' cr of
        Inl err \<Rightarrow> Inl err
      | Inr cfg \<Rightarrow> kr_NewClientset cr cfg)"

definition buildOwnerResolver :: "('k, 'c, 'd, 'w, 'l) credentials \<Rightarrow> string + 'w OwnerResolver" where
  "buildOwnerResolver cr =
     (case restConfig ''unable to load K8s config for owner resolver: '' cr of
        Inl err \<Rightarrow> Inl err
      | Inr cfg \<Rightarrow>
          (case kr_NewClientset cr cfg of
             Inl err \<Rightarrow> Inl (''failed to create K8s clientset for owner resolver: '' @ err)
           | Inr cs \<Rightarrow> Inr (ResolveWorkloadOwner (kr_owners cr cs))))"

definition buildClientset :: "('k, 'c, 'd, 'w, 'l) credentials \<Rightarrow> string + 'c" where
  "buildClientset cr =
     (case restConfig ''unable to load K8s config: '' cr of
        Inl err \<Rightarrow> Inl err
      | Inr cfg \<Rightarrow> kr_NewClientset cr cfg)"

definition newCRDLoaderWithConfig :: "('k, 'c, 'd, 'w, 'l) credentials \<Rightarrow> 'k \<Rightarrow> string + ('w, 'l) crd_client" where
  "newCRDLoaderWithConfig cr cfg =
     (case kr_AddToScheme cr of
        Some err \<Rightarrow> Inl (''add CRD types to scheme: '' @ err)
      | None \<Rightarrow>
          (case kr_NewWithWatch cr cfg of
             Inl err \<Rightarrow> Inl (''create controller-runtime client: '' @ err)
           | Inr client \<Rightarrow> Inr client))"

definition newCRDLoader :: "('k, 'c, 'd, 'w, 'l) credentials \<Rightarrow> string + ('w, 'l) crd_client" where
  "newCRDLoader cr =
     (case restConfig ''unable to load K8s config for CRD loader: '' cr of
        Inl err \<Rightarrow> Inl err
      | Inr cfg \<Rightarrow> newCRDLoaderWithConfig cr cfg)"

text \<open>What the constructor of the pipeline finds.\<close>

definition clusterEnv ::
  "('k, 'c, 'd, 'w, 'l) credentials \<Rightarrow> ('c option \<Rightarrow> 'w ActionExecutor) \<Rightarrow> ('w, 'l, 'c) pipelineEnv" where
  "clusterEnv cr newExecutor = \<lparr>pe_newCRDLoader = newCRDLoader cr, pe_actionClient = buildActionClient cr,
     pe_newExecutor = newExecutor, pe_ownerResolver = buildOwnerResolver cr\<rparr>"

definition noCredentials :: "('k, 'c, 'd, 'w, 'l) credentials \<Rightarrow> bool" where
  "noCredentials cr \<longleftrightarrow> (\<exists>e. kr_InClusterConfig cr = Inl e) \<and> (\<exists>e. kr_ClientConfig cr = Inl e)"

section \<open>Components agree\<close>

lemma restConfig_none: "noCredentials cr \<Longrightarrow> \<exists>e. restConfig message cr = Inl (message @ e)"
  by (auto simp: noCredentials_def restConfig_def)

lemma restConfig_some: "\<not> noCredentials cr \<Longrightarrow> \<exists>cfg. \<forall>message. restConfig message cr = Inr cfg"
  by (cases "kr_InClusterConfig cr"; cases "kr_ClientConfig cr") (auto simp: noCredentials_def restConfig_def)

text \<open>
  The in-cluster credentials win, and all components of a pod use the same ones, or all of them are
  without a client.
\<close>

lemma clients_agree:
  "buildWorkerActionClient cr = buildLeaderElectionClient cr"
  "okOf (buildClientset cr) = okOf (buildActionClient cr)" "okOf (buildActionClient cr) = okOf (buildLeaderElectionClient cr)"
  "okOf (buildOwnerResolver cr) = map_option (\<lambda>cs. ResolveWorkloadOwner (kr_owners cr cs)) (okOf (buildActionClient cr))"
proof -
  note defs = buildLeaderElectionClient_def buildClientset_def buildActionClient_def buildOwnerResolver_def loadK8sRestConfig_def okOf_def
  have *: "okOf (buildClientset cr) = okOf (buildActionClient cr) \<and> okOf (buildActionClient cr) = okOf (buildLeaderElectionClient cr)
    \<and> okOf (buildOwnerResolver cr) = map_option (\<lambda>cs. ResolveWorkloadOwner (kr_owners cr cs)) (okOf (buildActionClient cr))"
  proof (cases "noCredentials cr")
    case True
    then have "\<forall>m. \<exists>e. restConfig m cr = Inl (m @ e)" using restConfig_none by blast
    then obtain f where "\<And>m. restConfig m cr = Inl (m @ f m)" by metis
    then show ?thesis by (simp add: defs)
  next
    case False
    then obtain cfg where "\<And>m. restConfig m cr = Inr cfg" using restConfig_some by blast
    then show ?thesis by (cases "kr_NewClientset cr cfg") (simp_all add: defs)
  qed
  then show "okOf (buildClientset cr) = okOf (buildActionClient cr)" "okOf (buildActionClient cr) = okOf (buildLeaderElectionClient cr)"
    "okOf (buildOwnerResolver cr) = map_option (\<lambda>cs. ResolveWorkloadOwner (kr_owners cr cs)) (okOf (buildActionClient cr))" by simp_all
  show "buildWorkerActionClient cr = buildLeaderElectionClient cr"
    by (simp add: buildWorkerActionClient_def buildLeaderElectionClient_def)
qed

section \<open>A pipeline without scenarios\<close>

definition noScenarios :: "('a, 'p, 'w, 'l) Pipeline \<Rightarrow> bool" where
  "noScenarios p \<longleftrightarrow> en_scenarioLoader (pl_detector p) = None \<and> en_scenarios (pl_detector p) = []
     \<and> ch_buf (en_outputCh (pl_detector p)) = [] \<and> \<not> pl_monitorsStarted p"

fun clusterStill :: "'w pipelineEvent \<Rightarrow> bool" where
  "clusterStill (ClusterChanges w) = False"
| "clusterStill _ = True"

lemma noScenarios_step:
  assumes "noScenarios (fst s)"
  shows "noScenarios (fst (pipelineStep srt loc s ev)) \<and> resultsTaken s ev = [] \<and> (clusterStill ev \<longrightarrow> snd (pipelineStep srt loc s ev) = snd s)"
  using assms
  by (cases s; cases ev)
    (auto simp: noScenarios_def processInput_def Detection.cleanupTick_def onReload_def ReloadScenarios_def loadScenarios_def
      GetLoadedScenarios_def chan_recv_def split: option.splits)

lemma noScenarios_run:
  "noScenarios (fst s) \<Longrightarrow> noScenarios (fst (pipelineRun srt loc s evs)) \<and> along srt loc resultsTaken s evs = []
     \<and> (list_all clusterStill evs \<longrightarrow> snd (pipelineRun srt loc s evs) = snd s)"
proof (induction evs arbitrary: s)
  case (Cons ev evs)
  note step = noScenarios_step [OF Cons.prems, of srt loc ev]
  with Cons.IH [of "pipelineStep srt loc s ev"] show ?case by (simp add: pipelineRun_def)
qed (simp add: pipelineRun_def)

lemma noScenarios_new:
  assumes "NewPipeline newEnv asSel env w cfg po = Inr p"
    and "kc_Enabled (cfg_Kubernetes cfg) \<longrightarrow> okOf (pe_newCRDLoader env) = None"
  shows "noScenarios (afterReady (startLayers w p))"
proof -
  have l: "(if kc_Enabled (cfg_Kubernetes cfg) then okOf (pe_newCRDLoader env) else None) = None" using assms(2) by simp
  obtain e where "newEngineImpl newEnv cfg (chan_make (nat (pc_DetectionResultBufferSize (cfg_Pipeline cfg)))) None = Inr e"
    "pl_detector p = e\<lparr>en_config := pl_config p\<rparr>" "\<not> pl_monitorsStarted p"
    using assms(1) unfolding NewPipeline_def Let_def l by (auto split: sum.splits)
  then show ?thesis
    by (auto simp: newEngineImpl_def noScenarios_def startLayers_def afterReady_def Detection.startRun_def Detection.setReady_def
        LoadScenarios_def loadScenarios_def GetLoadedScenarios_def chan_make_def split: sum.splits)
qed

section \<open>Properties\<close>


definition laptop :: "(unit, unit, unit, string list, unit) credentials" where
  "laptop = \<lparr>kr_InClusterConfig = Inl ''not in cluster'', kr_ClientConfig = Inl ''no kubeconfig'', kr_NewClientset = (\<lambda>_. Inr ()),
     kr_NewDynamic = (\<lambda>_. Inr ()), kr_AddToScheme = None, kr_NewWithWatch = (\<lambda>_. Inl ''none''),
     kr_owners = (\<lambda>_. \<lparr>oa_GetPodOwners = (\<lambda>_ _ _. Inr []), oa_GetReplicaSetOwners = (\<lambda>_ _ _. Inr [])\<rparr>)\<rparr>"


end
