(* ===== verification/Metrics.thy ===== *)
theory Metrics
  imports Prelude
begin

text \<open>
  The Prometheus collectors of \<open>internal/metrics/metrics.go\<close>: what is declared, its registration when
  the package is initialised, and the updates that the task queue makes. \<open>promauto\<close> registers a
  collector when it is created and panics when the registry refuses it; the registry is an
  argument. A counter or a gauge is the number it holds.
\<close>

section \<open>Collectors\<close>

datatype collectorKind = Counter | Gauge | Histogram

record collector =
  cl_Kind :: collectorKind
  cl_Namespace :: string
  cl_Subsystem :: string
  cl_Name :: string
  cl_Help :: string
  cl_Labels :: "string list"

definition metricsNamespace :: string where
  "metricsNamespace = ''selfhealing''"

definition metricsSubsystem :: string where
  "metricsSubsystem = ''operator''"

definition newCollector :: "collectorKind \<Rightarrow> string \<Rightarrow> string \<Rightarrow> string list \<Rightarrow> collector" where
  "newCollector kind name help labels = \<lparr>cl_Kind = kind, cl_Namespace = metricsNamespace, cl_Subsystem = metricsSubsystem,
     cl_Name = name, cl_Help = help, cl_Labels = labels\<rparr>"

abbreviation newCounterVec :: "string \<Rightarrow> string \<Rightarrow> string list \<Rightarrow> collector" where
  "newCounterVec \<equiv> newCollector Counter"

abbreviation newGaugeVec :: "string \<Rightarrow> string \<Rightarrow> string list \<Rightarrow> collector" where
  "newGaugeVec \<equiv> newCollector Gauge"

abbreviation newHistogramVec :: "string \<Rightarrow> string \<Rightarrow> string list \<Rightarrow> collector" where
  "newHistogramVec \<equiv> newCollector Histogram"

abbreviation newCounter :: "string \<Rightarrow> string \<Rightarrow> collector" where
  "newCounter name help \<equiv> newCollector Counter name help []"

abbreviation newGauge :: "string \<Rightarrow> string \<Rightarrow> collector" where
  "newGauge name help \<equiv> newCollector Gauge name help []"

definition DetectionsTotal :: collector where
  "DetectionsTotal = newCounterVec ''detections_total''
     ''Total number of detections by scenario and severity'' [''scenario'', ''severity'']"

definition DetectionLatency :: collector where
  "DetectionLatency = newHistogramVec ''detection_latency_seconds''
     ''Detection processing latency in seconds'' [''scenario'']"

definition ThresholdMetTotal :: collector where
  "ThresholdMetTotal = newCounterVec ''threshold_met_total''
     ''Total number of threshold met events by scenario'' [''scenario'']"

definition RemediationsTotal :: collector where
  "RemediationsTotal = newCounterVec ''remediations_total''
     ''Total number of remediations by scenario and action type'' [''scenario'', ''action'']"

definition RemediationDuration :: collector where
  "RemediationDuration = newHistogramVec ''remediation_duration_seconds''
     ''Remediation action duration in seconds'' [''scenario'', ''action'']"

definition ActionsSucceededTotal :: collector where
  "ActionsSucceededTotal = newCounterVec ''actions_succeeded_total''
     ''Total number of successful actions by type'' [''action'']"

definition ActionsFailedTotal :: collector where
  "ActionsFailedTotal = newCounterVec ''actions_failed_total''
     ''Total number of failed actions by type'' [''action'']"

definition ActionsSkippedTotal :: collector where
  "ActionsSkippedTotal = newCounterVec ''actions_skipped_total''
     ''Total number of skipped actions by reason'' [''reason'']"

definition EscalationsTotal :: collector where
  "EscalationsTotal = newCounterVec ''escalations_total''
     ''Total number of escalations by scenario'' [''scenario'']"

definition CacheSizeBytes :: collector where
  "CacheSizeBytes = newGaugeVec ''cache_size_bytes''
     ''Current cache size in bytes'' [''cache'']"

definition CacheEntries :: collector where
  "CacheEntries = newGaugeVec ''cache_entries''
     ''Current number of cache entries'' [''cache'']"

definition CacheEvictionsTotal :: collector where
  "CacheEvictionsTotal = newCounterVec ''cache_evictions_total''
     ''Total number of cache evictions'' [''cache'']"

definition CacheHitsTotal :: collector where
  "CacheHitsTotal = newCounterVec ''cache_hits_total''
     ''Total number of cache hits'' [''cache'']"

definition CacheMissesTotal :: collector where
  "CacheMissesTotal = newCounterVec ''cache_misses_total''
     ''Total number of cache misses'' [''cache'']"

definition QueueDepth :: collector where
  "QueueDepth = newGaugeVec ''queue_depth''
     ''Current depth of processing queues'' [''queue'']"

definition DroppedInputsTotal :: collector where
  "DroppedInputsTotal = newCounterVec ''dropped_inputs_total''
     ''Total number of dropped inputs due to full queues'' [''source'']"

definition ScenariosEnabled :: collector where
  "ScenariosEnabled = newGauge ''scenarios_enabled''
     ''Number of enabled scenarios''"

definition ScenariosDisabledResource :: collector where
  "ScenariosDisabledResource = newGauge ''scenarios_disabled_resource''
     ''Number of scenarios disabled due to resource constraints''"

definition MemoryUsageBytes :: collector where
  "MemoryUsageBytes = newGauge ''memory_usage_bytes''
     ''Current memory usage in bytes''"

definition MemoryLimitBytes :: collector where
  "MemoryLimitBytes = newGauge ''memory_limit_bytes''
     ''Memory limit in bytes''"

definition Goroutines :: collector where
  "Goroutines = newGauge ''goroutines''
     ''Current number of goroutines''"

definition Info :: collector where
  "Info = newGaugeVec ''info''
     ''Operator information'' [''version'', ''commit'', ''build_date'']"

definition TasksPending :: collector where
  "TasksPending = newGauge ''tasks_pending''
     ''Current number of RemediationTasks in Pending phase''"

definition TasksRunning :: collector where
  "TasksRunning = newGauge ''tasks_running''
     ''Current number of RemediationTasks in Running phase''"

definition TasksCompleted :: collector where
  "TasksCompleted = newGauge ''tasks_completed''
     ''Current number of RemediationTasks in Completed phase''"

definition TasksFailed :: collector where
  "TasksFailed = newGauge ''tasks_failed''
     ''Current number of RemediationTasks in Failed phase''"

definition TasksExpired :: collector where
  "TasksExpired = newGauge ''tasks_expired''
     ''Current number of RemediationTasks in Expired phase''"

definition TasksExpiredTotal :: collector where
  "TasksExpiredTotal = newCounter ''tasks_expired_total''
     ''Total number of RemediationTasks expired by the Janitor (stuck Running)''"

definition TasksDeletedTotal :: collector where
  "TasksDeletedTotal = newCounter ''tasks_deleted_total''
     ''Total number of terminal RemediationTasks deleted after retention period''"

definition TasksClaimedTotal :: collector where
  "TasksClaimedTotal = newCounter ''tasks_claimed_total''
     ''Total number of RemediationTasks claimed by Workers''"

definition TasksCompletedTotal :: collector where
  "TasksCompletedTotal = newCounter ''tasks_completed_total''
     ''Total number of RemediationTasks that completed successfully''"

definition TasksFailedTotal :: collector where
  "TasksFailedTotal = newCounter ''tasks_failed_total''
     ''Total number of RemediationTasks that failed''"

text \<open>The collectors in the order in which the package creates them.\<close>

definition collectors :: "collector list" where
  "collectors = [DetectionsTotal, DetectionLatency, ThresholdMetTotal, RemediationsTotal, RemediationDuration,
     ActionsSucceededTotal, ActionsFailedTotal, ActionsSkippedTotal, EscalationsTotal, CacheSizeBytes,
     CacheEntries, CacheEvictionsTotal, CacheHitsTotal, CacheMissesTotal, QueueDepth, DroppedInputsTotal,
     ScenariosEnabled, ScenariosDisabledResource, MemoryUsageBytes, MemoryLimitBytes, Goroutines, Info,
     TasksPending, TasksRunning, TasksCompleted, TasksFailed, TasksExpired, TasksExpiredTotal,
     TasksDeletedTotal, TasksClaimedTotal, TasksCompletedTotal, TasksFailedTotal]"

lemmas collector_defs = DetectionsTotal_def DetectionLatency_def ThresholdMetTotal_def RemediationsTotal_def RemediationDuration_def
  ActionsSucceededTotal_def ActionsFailedTotal_def ActionsSkippedTotal_def EscalationsTotal_def
  CacheSizeBytes_def CacheEntries_def CacheEvictionsTotal_def CacheHitsTotal_def CacheMissesTotal_def
  QueueDepth_def DroppedInputsTotal_def ScenariosEnabled_def ScenariosDisabledResource_def MemoryUsageBytes_def
  MemoryLimitBytes_def Goroutines_def Info_def TasksPending_def TasksRunning_def TasksCompleted_def
  TasksFailed_def TasksExpired_def TasksExpiredTotal_def TasksDeletedTotal_def TasksClaimedTotal_def
  TasksCompletedTotal_def TasksFailedTotal_def

section \<open>Registration\<close>

text \<open>The name under which a collector is exported: the parts that are not empty, joined by underscores.\<close>

definition fqName :: "collector \<Rightarrow> string" where
  "fqName c = (if cl_Name c = [] then [] else
     (if cl_Namespace c = [] then [] else cl_Namespace c @ ''_'') @ (if cl_Subsystem c = [] then [] else cl_Subsystem c @ ''_'')
       @ cl_Name c)"

text \<open>
  What Prometheus demands of a description: a name of letters, digits, underscores and colons that
  does not start with a digit, distinct labels of the same form without colons that do not start
  with two underscores, and not the label that a histogram uses itself.
\<close>

definition nameStart :: "char \<Rightarrow> bool" where
  "nameStart c = (let n = of_char c :: nat in (97 \<le> n \<and> n \<le> 122) \<or> (65 \<le> n \<and> n \<le> 90) \<or> n = 95)"

definition validMetricName :: "string \<Rightarrow> bool" where
  "validMetricName s = (case s of [] \<Rightarrow> False
     | c # cs \<Rightarrow> (nameStart c \<or> c = CHR '':'') \<and> list_all (\<lambda>c. nameStart c \<or> c = CHR '':'' \<or> isDigit c) cs)"

definition validLabel :: "string \<Rightarrow> bool" where
  "validLabel s = (case s of [] \<Rightarrow> False
     | c # cs \<Rightarrow> nameStart c \<and> list_all (\<lambda>c. nameStart c \<or> isDigit c) cs \<and> take 2 s \<noteq> ''__'')"

definition validDesc :: "collector \<Rightarrow> bool" where
  "validDesc c \<longleftrightarrow> validMetricName (fqName c) \<and> list_all validLabel (cl_Labels c) \<and> distinct (cl_Labels c)
     \<and> (cl_Kind c = Histogram \<longrightarrow> ''le'' \<notin> set (cl_Labels c))"

text \<open>\<open>None\<close> is the panic of \<open>MustRegister\<close>.\<close>

fun initMetrics :: "(collector \<Rightarrow> 'r \<Rightarrow> string + 'r) \<Rightarrow> collector list \<Rightarrow> 'r \<Rightarrow> 'r option" where
  "initMetrics register [] r = Some r"
| "initMetrics register (c # cs) r =
     (case register c r of Inl err \<Rightarrow> None | Inr r' \<Rightarrow> initMetrics register cs r')"

text \<open>
  The documented behaviour of a registry: it accepts a collector with a valid description whose
  name is not yet taken, and takes the name.
\<close>

definition registry_laws :: "(collector \<Rightarrow> 'r \<Rightarrow> string + 'r) \<Rightarrow> ('r \<Rightarrow> string set) \<Rightarrow> bool" where
  "registry_laws register taken \<longleftrightarrow>
     (\<forall>c r. validDesc c \<longrightarrow> fqName c \<notin> taken r \<longrightarrow> (\<exists>r'. register c r = Inr r' \<and> taken r' = insert (fqName c) (taken r)))"

lemma initMetrics_ok:
  assumes "registry_laws register taken" "\<forall>c \<in> set cs. validDesc c \<and> fqName c \<notin> taken r" "distinct (map fqName cs)"
  shows "\<exists>r'. initMetrics register cs r = Some r' \<and> taken r' = taken r \<union> fqName ` set cs"
  using assms(2, 3)
proof (induction cs arbitrary: r)
  case (Cons c cs)
  then obtain r1 where r1: "register c r = Inr r1" "taken r1 = insert (fqName c) (taken r)"
    using assms(1) unfolding registry_laws_def by (metis list.set_intros(1))
  have new: "\<forall>d \<in> set cs. validDesc d \<and> fqName d \<notin> taken r1" using Cons.prems r1(2) by (force simp: image_iff)
  have "distinct (map fqName cs)" using Cons.prems(2) by simp
  with Cons.IH [OF new] r1 show ?case by auto
qed simp

section \<open>Values\<close>

text \<open>The value of each collector without labels, by its exported name.\<close>

type_synonym metricValues = "string \<Rightarrow> int"

definition Inc :: "collector \<Rightarrow> metricValues \<Rightarrow> metricValues" where
  "Inc c m = m(fqName c := m (fqName c) + 1)"

definition SetGauge :: "collector \<Rightarrow> int \<Rightarrow> metricValues \<Rightarrow> metricValues" where
  "SetGauge c v m = m(fqName c := v)"

abbreviation valueOf :: "metricValues \<Rightarrow> collector \<Rightarrow> int" where
  "valueOf m c \<equiv> m (fqName c)"

section \<open>Properties\<close>

lemma fqName_new: "name \<noteq> [] \<Longrightarrow> fqName (newCollector k name help ls) = ''selfhealing_operator_'' @ name"
  by (simp add: fqName_def newCollector_def metricsNamespace_def metricsSubsystem_def)

lemma validMetricName_prefix:
  "validMetricName (''selfhealing_operator_'' @ name) \<longleftrightarrow> list_all (\<lambda>c. nameStart c \<or> c = CHR '':'' \<or> isDigit c) name"
  by (simp add: validMetricName_def nameStart_def)

lemma validDesc_new:
  "name \<noteq> [] \<Longrightarrow> validDesc (newCollector k name help ls) \<longleftrightarrow>
     list_all (\<lambda>c. nameStart c \<or> c = CHR '':'' \<or> isDigit c) name \<and> list_all validLabel ls \<and> distinct ls
       \<and> (k = Histogram \<longrightarrow> ''le'' \<notin> set ls)"
  unfolding validDesc_def fqName_new validMetricName_prefix by (simp add: newCollector_def)

lemma collectors_valid: "list_all validDesc collectors"
  by (simp add: collectors_def collector_defs validDesc_new nameStart_def validLabel_def)

lemma collectors_distinct: "distinct (map fqName collectors)"
  by (simp add: collectors_def collector_defs fqName_new)

lemma fqName_eq_iff: "c \<in> set collectors \<Longrightarrow> d \<in> set collectors \<Longrightarrow> fqName c = fqName d \<longleftrightarrow> c = d"
  using collectors_distinct by (auto simp: distinct_map dest: inj_onD)

text \<open>
  C37. Initialising the metrics never panics: every collector has a valid description and all
  exported names are different, so the registry accepts them one after the other, and afterwards
  exactly these names are taken in addition to those before, each starting with the prefix of the operator.
\<close>

theorem metrics_registered:
  assumes "registry_laws register taken" "\<forall>c \<in> set collectors. fqName c \<notin> taken r"
  shows "\<exists>r'. initMetrics register collectors r = Some r' \<and> taken r' = taken r \<union> fqName ` set collectors
    \<and> card (fqName ` set collectors) = 32 \<and> (\<forall>c \<in> set collectors. take 21 (fqName c) = ''selfhealing_operator_'')"
proof -
  have "\<forall>c \<in> set collectors. validDesc c" using collectors_valid by (simp add: list_all_iff)
  with assms(2) obtain r' where "initMetrics register collectors r = Some r'" "taken r' = taken r \<union> fqName ` set collectors"
    using initMetrics_ok [OF assms(1) _ collectors_distinct, of r] by auto
  moreover have "card (fqName ` set collectors) = 32"
    using distinct_card [OF collectors_distinct] by (simp add: collectors_def)
  moreover have "list_all (\<lambda>c. take 21 (fqName c) = ''selfhealing_operator_'') collectors"
    by (simp add: collectors_def collector_defs fqName_new)
  ultimately show ?thesis by (auto simp: list_all_iff)
qed

definition listRegistry :: "collector \<Rightarrow> string list \<Rightarrow> string + string list" where
  "listRegistry c r = (if \<not> validDesc c then Inl ''invalid'' else if fqName c \<in> set r then Inl ''duplicate'' else Inr (fqName c # r))"

theorem metrics_registered_witness:
  "\<exists>r. initMetrics listRegistry collectors [''go_goroutines''] = Some r \<and> ''selfhealing_operator_tasks_claimed_total'' \<in> set r"
proof -
  have laws: "registry_laws listRegistry set" by (simp add: registry_laws_def listRegistry_def)
  have "list_all (\<lambda>c. fqName c \<notin> set [''go_goroutines'']) collectors"
    by (simp add: collectors_def collector_defs fqName_new)
  then have new: "\<forall>c \<in> set collectors. fqName c \<notin> set [''go_goroutines'']" by (simp only: list_all_iff)
  obtain r where "initMetrics listRegistry collectors [''go_goroutines''] = Some r"
    "set r = set [''go_goroutines''] \<union> fqName ` set collectors"
    using metrics_registered [where register = listRegistry and taken = set and r = "[''go_goroutines'']", OF laws new]
    by (elim exE conjE) (rule that)
  moreover have "fqName TasksClaimedTotal = ''selfhealing_operator_tasks_claimed_total''" by (simp add: TasksClaimedTotal_def fqName_new)
  moreover have "TasksClaimedTotal \<in> set collectors" by (simp add: collectors_def)
  ultimately show ?thesis by (metis UnCI imageI)
qed

end
