(* ===== verification/Durations.thy ===== *)
theory Durations
  imports Prelude
begin

text \<open>
  \<open>time.ParseDuration\<close>, with which a worker reads the timeout of a task: a sign, then numbers with a
  fraction and a unit. Strings are byte sequences. The unsigned arithmetic of the parser is on unbounded
  integers, with its overflow tests; the one sum that can exceed 64 bits is reduced.
\<close>

definition unitMap :: "(string, int) gomap" where
  "unitMap = [(''ns'', 1), (''us'', 1000), ([CHR 0xC2, CHR 0xB5, CHR ''s''], 1000),
     ([CHR 0xCE, CHR 0xBC, CHR ''s''], 1000), (''ms'', 1000000), (''s'', 1000000000),
     (''m'', 60000000000), (''h'', 3600000000000)]"

fun leadingInt :: "int \<Rightarrow> string \<Rightarrow> (int \<times> string) option" where
  "leadingInt x [] = Some (x, [])"
| "leadingInt x (c # s) =
     (if \<not> isDigit c then Some (x, c # s)
      else if x > 2 ^ 63 div 10 then None
      else let y = 10 * x + int (digit_val c) in if y > 2 ^ 63 then None else leadingInt y s)"

text \<open>The digits after a point, up to the overflow, and the power of ten to divide them by.\<close>

fun leadingFraction :: "bool \<Rightarrow> int \<Rightarrow> int \<Rightarrow> string \<Rightarrow> int \<times> int \<times> string" where
  "leadingFraction overflow x scale [] = (x, scale, [])"
| "leadingFraction overflow x scale (c # s) =
     (if \<not> isDigit c then (x, scale, c # s)
      else if overflow then leadingFraction True x scale s
      else if x > (2 ^ 63 - 1) div 10 then leadingFraction True x scale s
      else let y = 10 * x + int (digit_val c) in
           if y > 2 ^ 63 then leadingFraction True x scale s
           else leadingFraction False y (10 * scale) s)"

definition unitChar :: "char \<Rightarrow> bool" where
  "unitChar c \<longleftrightarrow> c \<noteq> CHR ''.'' \<and> \<not> isDigit c"

text \<open>
  The nanoseconds of a fraction: \<open>uint64(float64(f) * (float64(unit) / scale))\<close>, which is finite and
  less than the unit up to rounding.
\<close>

definition fractionNanos :: "int \<Rightarrow> int \<Rightarrow> int \<Rightarrow> int" where
  "fractionNanos f unit scale =
     (case f64_mul (f64_round (of_int f)) (f64_div_pos (Fin (of_int unit)) (of_int scale)) of
        Fin a \<Rightarrow> \<lfloor>a\<rfloor>
      | _ \<Rightarrow> 0)"

text \<open>One round of the loop: the nanoseconds of a number with its unit and the rest of the text.\<close>

definition durationSegment :: "string \<Rightarrow> (int \<times> string) option" where
  "durationSegment s =
     (if s = [] \<or> unitChar (hd s) then None
      else case leadingInt 0 s of
        None \<Rightarrow> None
      | Some (v, s1) \<Rightarrow>
          (let pre = length s1 \<noteq> length s;
               (f, scale, s2) = (if s1 \<noteq> [] \<and> hd s1 = CHR ''.'' then leadingFraction False 0 1 (tl s1) else (0, 1, s1));
               post = s1 \<noteq> [] \<and> hd s1 = CHR ''.'' \<and> length s2 \<noteq> length (tl s1);
               u = takeWhile unitChar s2; s3 = dropWhile unitChar s2
           in if \<not> pre \<and> \<not> post then None
              else if u = [] then None
              else case mget unitMap u of
                None \<Rightarrow> None
              | Some unit \<Rightarrow>
                  if v > 2 ^ 63 div unit then None
                  else let v1 = v * unit; v2 = (if f > 0 then v1 + fractionNanos f unit scale else v1)
                       in if v2 > 2 ^ 63 then None else Some (v2, s3)))"

lemma leadingInt_length: "leadingInt x s = Some (v, s') \<Longrightarrow> length s' \<le> length s"
  by (induction x s rule: leadingInt.induct) (auto simp: Let_def split: if_splits)

lemma leadingFraction_length: "leadingFraction b x sc s = (f, sc', s') \<Longrightarrow> length s' \<le> length s"
  by (induction b x sc s rule: leadingFraction.induct) (auto simp: Let_def split: if_splits)

lemma dropWhile_shorter: "takeWhile P xs \<noteq> [] \<Longrightarrow> length (dropWhile P xs) < length xs"
  by (metis add_less_same_cancel2 length_0_conv length_append not_gr_zero takeWhile_dropWhile_id add.commute
      less_add_same_cancel1)

lemma durationSegment_shorter:
  assumes "durationSegment s = Some (v, s')"
  shows "length s' < length s"
proof -
  from assms obtain v1 s1 where s1: "leadingInt 0 s = Some (v1, s1)"
    by (auto simp: durationSegment_def split: if_splits option.splits)
  let ?p = "if s1 \<noteq> [] \<and> hd s1 = CHR ''.'' then leadingFraction False 0 1 (tl s1) else (0, 1, s1)"
  obtain f sc s2 where p: "?p = (f, sc, s2)" by (cases ?p)
  have "length s2 \<le> length s1"
  proof (cases "s1 \<noteq> [] \<and> hd s1 = CHR ''.''")
    case True
    with p have "leadingFraction False 0 1 (tl s1) = (f, sc, s2)" by simp
    from leadingFraction_length [OF this] have "length s2 \<le> length (tl s1)" .
    then show ?thesis by simp
  next
    case False
    with p show ?thesis by auto
  qed
  moreover have "s' = dropWhile unitChar s2" "takeWhile unitChar s2 \<noteq> []"
    using assms unfolding durationSegment_def s1 by (auto simp: p Let_def split: if_splits option.splits)
  ultimately show ?thesis using leadingInt_length [OF s1] dropWhile_shorter [of unitChar s2] by simp
qed

function durationLoop :: "int \<Rightarrow> string \<Rightarrow> int option" where
  "durationLoop d s =
     (if s = [] then Some d
      else case durationSegment s of
        None \<Rightarrow> None
      | Some (v, s') \<Rightarrow> (let d' = (d + v) mod 2 ^ 64 in if d' > 2 ^ 63 then None else durationLoop d' s'))"
  by pat_completeness auto
termination
  by (relation "measure (\<lambda>(d, s). length s)") (auto dest: durationSegment_shorter)

declare durationLoop.simps [simp del]

definition ParseDuration :: "string \<Rightarrow> duration option" where
  "ParseDuration orig =
     (let neg = (orig \<noteq> [] \<and> hd orig = CHR ''-'');
          s = (if orig \<noteq> [] \<and> (hd orig = CHR ''-'' \<or> hd orig = CHR ''+'') then tl orig else orig)
      in if s = ''0'' then Some 0
         else if s = [] then None
         else case durationLoop 0 s of
           None \<Rightarrow> None
         | Some d \<Rightarrow> if neg then Some (wrap64 (- d)) else if d > 2 ^ 63 - 1 then None else Some d)"

section \<open>Range\<close>

lemma durationLoop_le: "0 \<le> d \<Longrightarrow> d \<le> 2 ^ 63 \<Longrightarrow> durationLoop d s = Some r \<Longrightarrow> 0 \<le> r \<and> r \<le> 2 ^ 63"
proof (induction d s rule: durationLoop.induct)
  case (1 d s)
  show ?case
  proof (cases "s = []")
    case True
    with 1(4) have "durationLoop d [] = Some r" by simp
    then have "r = d" by (simp add: durationLoop.simps [of d "[]"])
    with 1(2, 3) show ?thesis by simp
  next
    case False
    with 1(4) obtain v s' where seg: "durationSegment s = Some (v, s')"
      and le: "\<not> (d + v) mod 2 ^ 64 > 2 ^ 63" and r: "durationLoop ((d + v) mod 2 ^ 64) s' = Some r"
      by (auto simp: durationLoop.simps [of d s] Let_def split: option.splits if_splits)
    from 1(1) [OF False seg refl refl le _ _ r] le show ?thesis by simp
  qed
qed

lemma ParseDuration_range: "ParseDuration s = Some d \<Longrightarrow> in64 d"
  by (auto simp: ParseDuration_def Let_def in64_def split: if_splits option.splits dest!: durationLoop_le [rotated 2])

section \<open>Round trip\<close>

text \<open>What is written as numbers with units is read back as the sum of its parts.\<close>

definition durationText :: "(nat \<times> string) list \<Rightarrow> string" where
  "durationText segs = concat (map (\<lambda>(n, u). nat_dec n @ u) segs)"

definition segmentNanos :: "nat \<times> string \<Rightarrow> int" where
  "segmentNanos seg = (case mget unitMap (snd seg) of Some unit \<Rightarrow> int (fst seg) * unit | None \<Rightarrow> 0)"

lemma nat_dec_digits: "list_all isDigit (nat_dec n) \<and> nat_dec n \<noteq> []"
proof (induction n rule: nat_dec.induct)
  case (1 n)
  have digit: "isDigit (''0123456789'' ! k)" if "k < 10" for k
  proof -
    from that have "k \<in> {0, 1, 2, 3, 4, 5, 6, 7, 8, 9}" by auto
    then show ?thesis by (auto simp: isDigit_def)
  qed
  show ?case
    using 1 digit [of n] digit [of "n mod 10"] by (cases "n < 10") (auto simp: nat_dec.simps [of n])
qed

lemma foldl_dec_ge: "x \<le> foldl (\<lambda>a c. 10 * a + digit_val c) (x :: nat) ds"
proof (induction ds arbitrary: x)
  case (Cons c ds)
  then show ?case using order_trans [OF _ Cons [of "10 * x + digit_val c"], of x] by simp
qed simp

lemma leadingInt_digits:
  "list_all isDigit ds \<Longrightarrow> rest = [] \<or> \<not> isDigit (hd rest) \<Longrightarrow>
     int (foldl (\<lambda>a c. 10 * a + digit_val c) x ds) \<le> 2 ^ 63 \<Longrightarrow>
     leadingInt (int x) (ds @ rest) = Some (int (foldl (\<lambda>a c. 10 * a + digit_val c) x ds), rest)"
proof (induction ds arbitrary: x)
  case Nil
  then show ?case by (cases rest) auto
next
  case (Cons c ds)
  have "int (10 * x + digit_val c) \<le> int (foldl (\<lambda>a c. 10 * a + digit_val c) (10 * x + digit_val c) ds)"
    by (simp only: of_nat_le_iff foldl_dec_ge)
  then have "10 * int x + int (digit_val c) \<le> 2 ^ 63" using Cons.prems(3) by simp
  then have "\<not> int x > 2 ^ 63 div 10" "\<not> 10 * int x + int (digit_val c) > 2 ^ 63" by simp_all
  moreover have "leadingInt (10 * int x + int (digit_val c)) (ds @ rest)
      = Some (int (foldl (\<lambda>a c. 10 * a + digit_val c) (10 * x + digit_val c) ds), rest)"
    using Cons.IH [of "10 * x + digit_val c"] Cons.prems by simp
  ultimately show ?case using Cons.prems(1) by simp
qed

lemma leadingInt_nat_dec:
  "int n \<le> 2 ^ 63 \<Longrightarrow> rest = [] \<or> \<not> isDigit (hd rest) \<Longrightarrow> leadingInt 0 (nat_dec n @ rest) = Some (int n, rest)"
  using leadingInt_digits [of "nat_dec n" rest 0] nat_dec_digits [of n] dec_val_nat_dec [of n]
  by (simp add: dec_val_def)

lemma unit_shape: "mget unitMap u = Some unit \<Longrightarrow> list_all unitChar u \<and> u \<noteq> [] \<and> 0 < unit"
  by (auto simp: unitMap_def unitChar_def isDigit_def split: if_splits)

lemma durationSegment_text:
  assumes u: "mget unitMap u = Some unit" and le: "int n * unit \<le> 2 ^ 63"
    and rest: "rest = [] \<or> isDigit (hd rest)"
  shows "durationSegment (nat_dec n @ u @ rest) = Some (int n * unit, rest)"
proof -
  note us = unit_shape [OF u]
  from us obtain c u' where c: "u = c # u'" "unitChar c" by (cases u) auto
  obtain d ds where d: "nat_dec n = d # ds" "isDigit d" using nat_dec_digits [of n] by (cases "nat_dec n") auto
  have "int n * 1 \<le> int n * unit" using us by (intro mult_left_mono) auto
  then have "int n \<le> 2 ^ 63" using le by simp
  then have int: "leadingInt 0 (nat_dec n @ u @ rest) = Some (int n, u @ rest)"
    using c by (intro leadingInt_nat_dec) (auto simp: unitChar_def)
  have "\<not> unitChar (hd rest)" if "rest \<noteq> []" using rest that by (auto simp: unitChar_def)
  then have split: "takeWhile unitChar (u @ rest) = u" "dropWhile unitChar (u @ rest) = rest"
    using us by (cases rest; simp add: takeWhile_append2 dropWhile_append2 list_all_iff)+
  have "int n \<le> 2 ^ 63 div unit" using zdiv_mono1 [OF le, of unit] us by simp
  then show ?thesis
    unfolding durationSegment_def int using u us le split c d
    by (simp add: unitChar_def Let_def)
qed

lemma durationLoop_text:
  "\<forall>seg \<in> set segs. snd seg \<in> fst ` set unitMap \<Longrightarrow> 0 \<le> d \<Longrightarrow> d + sum_list (map segmentNanos segs) \<le> 2 ^ 63 \<Longrightarrow>
     durationLoop d (durationText segs) = Some (d + sum_list (map segmentNanos segs))"
proof (induction segs arbitrary: d)
  case Nil
  then show ?case by (simp add: durationText_def durationLoop.simps)
next
  case (Cons seg segs)
  obtain n u where seg: "seg = (n, u)" by (cases seg)
  with Cons.prems(1) obtain unit where u: "mget unitMap u = Some unit"
    by (cases "mget unitMap u") (auto simp: map_of_eq_None_iff)
  have nanos: "segmentNanos seg = int n * unit" "0 \<le> int n * unit"
    using unit_shape [OF u] by (simp_all add: seg segmentNanos_def u)
  have "0 \<le> segmentNanos s" for s
    by (auto simp: segmentNanos_def split: option.splits dest: unit_shape)
  then have rest0: "0 \<le> sum_list (map segmentNanos segs)" by (intro sum_list_nonneg) auto
  have rest: "durationText segs = [] \<or> isDigit (hd (durationText segs))"
  proof (cases segs)
    case (Cons s ss)
    then show ?thesis using nat_dec_digits [of "fst s"]
      by (cases "nat_dec (fst s)") (auto simp: durationText_def case_prod_beta)
  qed (simp add: durationText_def)
  have "int n * unit \<le> 2 ^ 63" using Cons.prems(2, 3) nanos rest0 by simp
  then have s: "durationSegment (durationText (seg # segs)) = Some (int n * unit, durationText segs)"
    using durationSegment_text [OF u _ rest] by (simp add: durationText_def seg)
  have ne: "durationText (seg # segs) \<noteq> []" using nat_dec_digits [of n] by (simp add: durationText_def seg)
  have le: "d + int n * unit \<le> 2 ^ 63" "0 \<le> d + int n * unit"
    using Cons.prems(2, 3) nanos rest0 by simp_all
  then have "(d + int n * unit) mod 2 ^ 64 = d + int n * unit" by (intro mod_pos_pos_trivial) simp_all
  then have "durationLoop d (durationText (seg # segs)) = durationLoop (d + int n * unit) (durationText segs)"
    using ne le by (simp add: durationLoop.simps [of d "durationText (seg # segs)"] s)
  also have "\<dots> = Some (d + int n * unit + sum_list (map segmentNanos segs))"
    using Cons.prems nanos le by (intro Cons.IH) simp_all
  finally show ?case using nanos by (simp add: add.assoc)
qed

lemma ParseDuration_text:
  assumes "segs \<noteq> []" "\<forall>seg \<in> set segs. snd seg \<in> fst ` set unitMap" "sum_list (map segmentNanos segs) < 2 ^ 63"
  shows "ParseDuration (durationText segs) = Some (sum_list (map segmentNanos segs))"
proof -
  obtain n u rest where segs: "segs = (n, u) # rest" using assms(1) by (cases segs) auto
  obtain d ds where d: "nat_dec n = d # ds" "isDigit d" using nat_dec_digits [of n] by (cases "nat_dec n") auto
  have "mget unitMap u \<noteq> None" using assms(2) segs by (auto simp: map_of_eq_None_iff)
  then have u: "u \<noteq> []" using unit_shape by auto
  have "durationText segs \<noteq> ''0''"
    using d u by (cases ds; cases u) (auto simp: durationText_def segs)
  moreover have "hd (durationText segs) \<noteq> CHR ''-''" "hd (durationText segs) \<noteq> CHR ''+''" "durationText segs \<noteq> []"
    using d by (auto simp: durationText_def segs isDigit_def)
  moreover have "durationLoop 0 (durationText segs) = Some (sum_list (map segmentNanos segs))"
    using durationLoop_text [OF assms(2), of 0] assms(3) by simp
  ultimately show ?thesis using assms(3) by (simp add: ParseDuration_def Let_def)
qed

lemma ParseDuration_examples:
  "ParseDuration ''60s'' = Some (60 * Second)"
  "ParseDuration ''-1h2m3s'' = Some (- (Hour + 2 * Minute + 3 * Second))"
  "ParseDuration ''60'' = None" "ParseDuration '''' = None" "ParseDuration ''0'' = Some 0"
  "ParseDuration ''9223372036854775808ns'' = None"
  by code_simp+


section \<open>Printing durations\<close>

text \<open>
  \<open>Duration.String\<close>, which the verb \<open>%s\<close> uses: a fraction has no trailing zeros, units below a second
  are used only for durations below a second.
\<close>

definition fmtFrac :: "nat \<Rightarrow> int \<Rightarrow> string" where
  "fmtFrac prec u =
     (let digits = rev (dropWhile (\<lambda>c. c = CHR ''0'') (rev (pad0 prec (u mod 10 ^ prec))))
      in if digits = [] then [] else CHR ''.'' # digits)"

definition durationString :: "duration \<Rightarrow> string" where
  "durationString d =
     (let u = \<bar>d\<bar> in
      (if d < 0 then ''-'' else '''') @
      (if u < Second then
         (if u = 0 then ''0s''
          else if u < 1000 then int_dec u @ ''ns''
          else if u < 1000000 then int_dec (u div 1000) @ fmtFrac 3 u @ [CHR 0xC2, CHR 0xB5, CHR ''s'']
          else int_dec (u div 1000000) @ fmtFrac 6 u @ ''ms'')
       else
         (let secs = u div Second; mins = secs div 60; hours = mins div 60 in
          (if mins > 0 then (if hours > 0 then int_dec hours @ ''h'' else '''') @ int_dec (mins mod 60) @ ''m'' else '''')
          @ int_dec (secs mod 60) @ fmtFrac 9 u @ ''s'')))"

lemma durationString_examples:
  "durationString (5 * Minute) = ''5m0s''" "durationString (90 * Minute + 1500000000) = ''1h30m1.5s''"
  "durationString 1500000 = ''1.5ms''" "durationString (- Second) = ''-1s''" "durationString 0 = ''0s''"
  by (simp_all add: durationString_def fmtFrac_def pad0_def int_dec_def nat_dec.simps go_simps)

text \<open>A duration of whole seconds is read back as it was printed.\<close>

lemma ParseDuration_String:
  assumes "0 \<le> d" "d < 2 ^ 63" "d mod Second = 0"
  shows "ParseDuration (durationString d) = Some d"
proof -
  define n where "n = nat (d div Second)"
  have "0 \<le> d div Second" using assms(1) by (intro pos_imp_zdiv_nonneg_iff [THEN iffD2]) (simp_all add: Second_def)
  moreover have "d div Second * Second = d" using div_mult_mod_eq [of d Second] assms(3) by simp
  ultimately have d: "d = int n * Second" by (simp add: n_def)
  define segs where "segs = (if n div 60 > 0 then (if n div 60 div 60 > 0 then [(n div 60 div 60, ''h'')] else []) @ [(n div 60 mod 60, ''m'')] else [])
    @ [(n mod 60, ''s'')]"
  have frac: "fmtFrac 9 (int n * 1000000000) = []" by (simp add: fmtFrac_def pad0_def nat_dec.simps [of 0])
  have printed: "durationString d = durationText segs"
  proof (cases "n = 0")
    case True
    then show ?thesis by (simp add: d durationString_def segs_def durationText_def Second_def nat_dec.simps [of 0])
  next
    case False
    then have big: "\<not> int n * 1000000000 < 1000000000" by simp
    have ab: "\<bar>int n * 1000000000\<bar> = int n * 1000000000" by simp
    have e: "int n * 1000000000 div 1000000000 = int n" by simp
    have i: "int n mod 60 = int (n mod 60)" "int n div 60 = int (n div 60)" "int (n div 60) mod 60 = int (n div 60 mod 60)"
      "int (n div 60) div 60 = int (n div 60 div 60)"
      by (simp_all add: zdiv_int zmod_int)
    have j: "int_dec (int k) = nat_dec k" for k by (simp add: int_dec_def)
    show ?thesis
      unfolding d durationString_def Second_def Let_def ab e frac i j of_nat_0_less_iff
      using big by (simp add: segs_def durationText_def)
  qed
  have units: "\<forall>seg \<in> set segs. snd seg \<in> fst ` set unitMap" by (auto simp: segs_def unitMap_def)
  have "int n div 60 div 60 * 3600 + int n div 60 mod 60 * 60 + int n mod 60 = int n"
    using div_mult_mod_eq [of "int n" 60] div_mult_mod_eq [of "int n div 60" 60] by linarith
  then have total: "sum_list (map segmentNanos segs) = d"
    unfolding d by (auto simp: segs_def segmentNanos_def unitMap_def Second_def of_nat_div of_nat_mod)
      (use div_mult_mod_eq [of "int n" 60] in linarith)
  show ?thesis
    using ParseDuration_text [OF _ units] assms(2) unfolding printed total by (simp add: segs_def)
qed

end
