(* ===== verification/Janitor.thy ===== *)
theory Janitor
  imports TaskQueue Metrics Durations
begin

text \<open>
  The janitor of \<open>internal/taskqueue/janitor.go\<close> as a process: its loop, and its sweep with the
  counters it increments and the gauges it sets. The sweep itself is the one of the queue, on a client
  whose successful calls also count.
\<close>

record Janitor =
  jn_namespace :: string
  jn_cfg :: TaskQueueConfig

definition NewJanitor :: "string \<Rightarrow> TaskQueueConfig \<Rightarrow> Janitor" where
  "NewJanitor namespace cfg = \<lparr>jn_namespace = namespace, jn_cfg = cfg\<rparr>"

section \<open>Counting what the janitor does\<close>

text \<open>
  \<open>expireTask\<close> and \<open>deleteTask\<close> increment their counters after a call that succeeded. They are the only
  status update and the only deletion of a sweep.
\<close>

definition counted ::
  "collector \<Rightarrow> ('w \<Rightarrow> apierror option \<times> 'w) \<Rightarrow> 'w \<times> metricValues \<Rightarrow> apierror option \<times> 'w \<times> metricValues" where
  "counted c call s =
     (case call (fst s) of
        (Some err, w) \<Rightarrow> (Some err, w, snd s)
      | (None, w) \<Rightarrow> (None, w, Inc c (snd s)))"

definition countingAPI :: "'w taskAPI \<Rightarrow> ('w \<times> metricValues) taskAPI" where
  "countingAPI api = \<lparr>ta_Get = (\<lambda>name s. ta_Get api name (fst s)), ta_List = (\<lambda>s. ta_List api (fst s)),
     ta_Create = (\<lambda>obj s. case ta_Create api obj (fst s) of (err, w) \<Rightarrow> (err, w, snd s)),
     ta_UpdateStatus = (\<lambda>obj. counted TasksExpiredTotal (ta_UpdateStatus api obj)),
     ta_Delete = (\<lambda>name. counted TasksDeletedTotal (ta_Delete api name))\<rparr>"

definition setGauges :: "gauges \<Rightarrow> metricValues \<Rightarrow> metricValues" where
  "setGauges g m =
     SetGauge TasksExpired (ga_expired g) (SetGauge TasksFailed (ga_failed g) (SetGauge TasksCompleted (ga_completed g)
       (SetGauge TasksRunning (ga_running g) (SetGauge TasksPending (ga_pending g) m))))"

definition janitorSweep ::
  "'w taskAPI \<Rightarrow> parser \<Rightarrow> Janitor \<Rightarrow> location \<Rightarrow> time \<Rightarrow> (nat \<Rightarrow> time) \<Rightarrow> 'w \<times> metricValues \<Rightarrow> 'w \<times> metricValues" where
  "janitorSweep api parse339 j loc now clk s =
     (case sweep (countingAPI api) parse339 (jn_cfg j) loc (durationString (tq_ActiveDeadline (jn_cfg j))) now clk s of
        (None, s') \<Rightarrow> s'
      | (Some g, (w, m)) \<Rightarrow> (w, setGauges g m))"

section \<open>The loop\<close>

text \<open>
  What \<open>select\<close> chooses next: the cancelled context, or a tick with the clock readings of its sweep.
  \<open>NewTicker\<close> panics on an interval that is not positive.
\<close>

datatype janitorInput = JanitorCtxDone | JanitorTick time "nat \<Rightarrow> time"

datatype 's runOutcome = Panicked string | StillRunning 's | Returned 's

fun janitorLoop ::
  "'w taskAPI \<Rightarrow> parser \<Rightarrow> Janitor \<Rightarrow> location \<Rightarrow> janitorInput list \<Rightarrow> 'w \<times> metricValues \<Rightarrow> ('w \<times> metricValues) runOutcome" where
  "janitorLoop api parse339 j loc [] s = StillRunning s"
| "janitorLoop api parse339 j loc (JanitorCtxDone # _) s = Returned s"
| "janitorLoop api parse339 j loc (JanitorTick now clk # rest) s =
     janitorLoop api parse339 j loc rest (janitorSweep api parse339 j loc now clk s)"

definition janitorRun ::
  "'w taskAPI \<Rightarrow> parser \<Rightarrow> Janitor \<Rightarrow> location \<Rightarrow> janitorInput list \<Rightarrow> 'w \<times> metricValues \<Rightarrow> ('w \<times> metricValues) runOutcome" where
  "janitorRun api parse339 j loc inputs s =
     (if tq_CleanupInterval (jn_cfg j) \<le> 0 then Panicked ''non-positive interval for NewTicker''
      else janitorLoop api parse339 j loc inputs s)"

section \<open>The counting sweep and the sweep of the queue\<close>

lemma counted_call:
  "fst (counted c call s) = fst (call (fst s))" "fst (snd (counted c call s)) = snd (call (fst s))"
  "snd (snd (counted c call s)) = (if fst (call (fst s)) = None then Inc c (snd s) else snd s)"
  by (simp_all add: counted_def split: prod.splits option.splits)

lemma sweepTask_counting:
  "sweepTask api parse339 cfg loc d now tLast t obj (g, fst s)
     = apsnd fst (sweepTask (countingAPI api) parse339 cfg loc d now tLast t obj (g, s))"
  by (simp add: sweepTask_def Let_def expireTask_def deleteTask_def countingAPI_def counted_call)

lemma sweepAll_counting:
  "sweepAll api parse339 cfg loc d now tLast clk i objs (g, fst s)
     = apsnd fst (sweepAll (countingAPI api) parse339 cfg loc d now tLast clk i objs (g, s))"
proof (induction objs arbitrary: i g s)
  case (Cons obj objs)
  let ?r = "sweepTask (countingAPI api) parse339 cfg loc d now tLast (clk i) obj (g, s)"
  show ?case
    using Cons [of "Suc i" "fst ?r" "snd ?r"] by (simp add: sweepTask_counting apsnd_def map_prod_def case_prod_beta)
qed simp

lemma sweep_counting:
  "sweep api parse339 cfg loc d now clk (fst s) = apsnd fst (sweep (countingAPI api) parse339 cfg loc d now clk s)"
proof (cases "ta_List api (fst s)")
  case (Inl err)
  then show ?thesis by (simp add: sweep_def countingAPI_def)
next
  case (Inr items)
  moreover have "ta_List (countingAPI api) s = ta_List api (fst s)" by (simp add: countingAPI_def)
  ultimately show ?thesis
    by (simp add: sweep_def Let_def sweepAll_counting case_prod_beta)
qed

text \<open>Per task: how much the two counters grow, and how the local counts of the sweep grow.\<close>

definition counts_bounded :: "metricValues \<Rightarrow> gauges \<times> 'w \<times> metricValues \<Rightarrow> bool" where
  "counts_bounded m0 r \<longleftrightarrow>
     valueOf m0 TasksExpiredTotal \<le> valueOf (snd (snd r)) TasksExpiredTotal
     \<and> valueOf (snd (snd r)) TasksExpiredTotal \<le> valueOf m0 TasksExpiredTotal + ga_expiredCount (fst r)
     \<and> valueOf m0 TasksDeletedTotal \<le> valueOf (snd (snd r)) TasksDeletedTotal
     \<and> valueOf (snd (snd r)) TasksDeletedTotal \<le> valueOf m0 TasksDeletedTotal + ga_deletedCount (fst r)"

definition counts_exact :: "metricValues \<Rightarrow> gauges \<times> 'w \<times> metricValues \<Rightarrow> bool" where
  "counts_exact m0 r \<longleftrightarrow>
     valueOf (snd (snd r)) TasksExpiredTotal = valueOf m0 TasksExpiredTotal + ga_expiredCount (fst r)
     \<and> valueOf (snd (snd r)) TasksDeletedTotal = valueOf m0 TasksDeletedTotal + ga_deletedCount (fst r)"

text \<open>A cluster that refuses no status update and no deletion.\<close>

definition callsSucceed :: "'w taskAPI \<Rightarrow> bool" where
  "callsSucceed api \<longleftrightarrow> (\<forall>obj w. fst (ta_UpdateStatus api obj w) = None) \<and> (\<forall>name w. fst (ta_Delete api name w) = None)"

lemma janitor_counter_names:
  "fqName TasksExpiredTotal = ''selfhealing_operator_tasks_expired_total''"
  "fqName TasksDeletedTotal = ''selfhealing_operator_tasks_deleted_total''"
  "fqName TasksPending = ''selfhealing_operator_tasks_pending''"
  "fqName TasksRunning = ''selfhealing_operator_tasks_running''"
  "fqName TasksCompleted = ''selfhealing_operator_tasks_completed''"
  "fqName TasksFailed = ''selfhealing_operator_tasks_failed''"
  "fqName TasksExpired = ''selfhealing_operator_tasks_expired''"
  by (simp_all add: collector_defs fqName_new)

lemma sweepTask_counts:
  assumes "sweepTask (countingAPI api) parse339 cfg loc d now tLast t obj (g, w, m) = (g', w', m')"
  shows "counts_bounded m0 (g, w, m) \<Longrightarrow> counts_bounded m0 (g', w', m')"
    and "callsSucceed api \<Longrightarrow>
      counts_exact m0 (g, w, m) \<Longrightarrow> counts_exact m0 (g', w', m')"
proof -
  define ex where "ex = counted TasksExpiredTotal (ta_UpdateStatus api (expireStatus loc t d obj)) (w, m)"
  define de where "de = counted TasksDeletedTotal (ta_Delete api (tk_Name obj)) (w, m)"
  have cases: "(g', w', m') = (g', w, m) \<and> ga_expiredCount g' = ga_expiredCount g \<and> ga_deletedCount g' = ga_deletedCount g
    \<or> (w', m') = snd ex \<and> ga_expiredCount g' = ga_expiredCount g + 1 \<and> ga_deletedCount g' = ga_deletedCount g
    \<or> (w', m') = snd de \<and> ga_expiredCount g' = ga_expiredCount g \<and> ga_deletedCount g' = ga_deletedCount g + 1"
    using assms unfolding sweepTask_def Let_def
    by (simp add: expireTask_def deleteTask_def countingAPI_def ex_def [symmetric] de_def [symmetric] split: if_splits)
      (elim conjE, hypsubst, simp)+
  have m: "snd (snd ex) = (if fst (ta_UpdateStatus api (expireStatus loc t d obj) w) = None then Inc TasksExpiredTotal m else m)"
    "snd (snd de) = (if fst (ta_Delete api (tk_Name obj) w) = None then Inc TasksDeletedTotal m else m)"
    by (simp_all add: ex_def de_def counted_call)
  have m': "(w', m') = snd ex \<Longrightarrow> m' = snd (snd ex)" "(w', m') = snd de \<Longrightarrow> m' = snd (snd de)" by (metis snd_conv)+
  show "counts_bounded m0 (g', w', m')" if "counts_bounded m0 (g, w, m)"
    using that cases m m' by (auto simp: counts_bounded_def Inc_def janitor_counter_names)
  show "counts_exact m0 (g', w', m')"
    if "callsSucceed api" "counts_exact m0 (g, w, m)"
    using that cases m m' by (auto simp: callsSucceed_def counts_exact_def Inc_def janitor_counter_names)
qed

lemma sweepAll_counts:
  "counts_bounded m0 s \<Longrightarrow> counts_bounded m0 (sweepAll (countingAPI api) parse339 cfg loc d now tLast clk i objs s)
    \<and> (callsSucceed api \<longrightarrow> counts_exact m0 s \<longrightarrow>
         counts_exact m0 (sweepAll (countingAPI api) parse339 cfg loc d now tLast clk i objs s))"
proof (induction objs arbitrary: i s)
  case (Cons obj objs)
  obtain g w m where s: "s = (g, w, m)" by (cases s)
  obtain g' w' m' where s': "sweepTask (countingAPI api) parse339 cfg loc d now tLast (clk i) obj s = (g', w', m')"
    by (metis surj_pair)
  note step = sweepTask_counts [OF s' [unfolded s], folded s]
  show ?case
    using Cons.IH [OF step(1) [OF Cons.prems], of "Suc i"] step(2) [of m0] by (auto simp: s')
qed simp

lemma setGauges_values:
  "valueOf (setGauges g m) TasksPending = ga_pending g" "valueOf (setGauges g m) TasksRunning = ga_running g"
  "valueOf (setGauges g m) TasksCompleted = ga_completed g" "valueOf (setGauges g m) TasksFailed = ga_failed g"
  "valueOf (setGauges g m) TasksExpired = ga_expired g"
  "valueOf (setGauges g m) TasksExpiredTotal = valueOf m TasksExpiredTotal"
  "valueOf (setGauges g m) TasksDeletedTotal = valueOf m TasksDeletedTotal"
  by (simp_all add: setGauges_def SetGauge_def janitor_counter_names)

lemma janitorSweep_listed:
  assumes "ta_List api w = Inr items"
  obtains g m' where "sweep api parse339 (jn_cfg j) loc (durationString (tq_ActiveDeadline (jn_cfg j))) now clk w
      = (Some g, fst (janitorSweep api parse339 j loc now clk (w, m)))"
    "snd (janitorSweep api parse339 j loc now clk (w, m)) = setGauges g m'"
    "gaugeTotal g = int (length (filter knownPhase items))"
    "counts_bounded m (g, w, m')"
    "callsSucceed api \<Longrightarrow> counts_exact m (g, w, m')"
proof -
  let ?d = "durationString (tq_ActiveDeadline (jn_cfg j))"
  let ?tLast = "if tq_TrailingRetention (jn_cfg j) > 0 then lastTerminal parse339 items 0 else 0"
  let ?all = "sweepAll (countingAPI api) parse339 (jn_cfg j) loc ?d now ?tLast clk 0 items (zeroGauges, w, m)"
  obtain g w' m' where all: "?all = (g, w', m')" by (metis surj_pair)
  have "ta_List (countingAPI api) (w, m) = Inr items" using assms by (simp add: countingAPI_def)
  then have sw: "sweep (countingAPI api) parse339 (jn_cfg j) loc ?d now clk (w, m) = (Some g, w', m')"
    using all by (simp add: sweep_def Let_def)
  then have js: "janitorSweep api parse339 j loc now clk (w, m) = (w', setGauges g m')" by (simp add: janitorSweep_def)
  have "gaugeTotal g = int (length (filter knownPhase items))"
    using sweepAll_total [of "countingAPI api" parse339 "jn_cfg j" loc ?d now ?tLast clk 0 items "(zeroGauges, w, m)"] all
    by (simp add: gaugeTotal_def zeroGauges_def)
  moreover have "counts_bounded m (g, w, m')"
    using sweepAll_counts [of m "(zeroGauges, w, m)" api parse339 "jn_cfg j" loc ?d now ?tLast clk 0 items] all
    by (simp add: counts_bounded_def zeroGauges_def)
  moreover have "counts_exact m (g, w, m')"
    if "callsSucceed api"
    using sweepAll_counts [of m "(zeroGauges, w, m)" api parse339 "jn_cfg j" loc ?d now ?tLast clk 0 items] all that
    by (simp add: counts_exact_def counts_bounded_def zeroGauges_def)
  ultimately show thesis
    using that sw js sweep_counting [of api parse339 "jn_cfg j" loc ?d now clk "(w, m)"] by simp
qed

section \<open>Properties\<close>

lemma janitorLoop_ticks:
  "janitorLoop api parse339 j loc (map (\<lambda>(now, clk). JanitorTick now clk) ticks @ rest) s
     = janitorLoop api parse339 j loc rest (foldl (\<lambda>s (now, clk). janitorSweep api parse339 j loc now clk s) s ticks)"
  by (induction ticks arbitrary: s) (auto simp: case_prod_beta)

text \<open>
  The janitor sweeps once for each tick and returns when its context is cancelled, provided that the
  interval is positive; otherwise it panics. Validation does not look at the interval.
\<close>

lemma janitorRun_ends:
  "janitorRun api parse339 j loc (map (\<lambda>(now, clk). JanitorTick now clk) ticks @ JanitorCtxDone # rest) s
     = (if tq_CleanupInterval (jn_cfg j) \<le> 0 then Panicked ''non-positive interval for NewTicker''
        else Returned (foldl (\<lambda>s (now, clk). janitorSweep api parse339 j loc now clk s) s ticks))"
  by (simp add: janitorRun_def janitorLoop_ticks)

lemma valid_config_panics:
  "\<exists>c. Validate c = None \<and> (\<forall>api parse339 loc inputs s.
     janitorRun api parse339 (NewJanitor ns (cfg_TaskQueue c)) loc inputs s
       = Panicked ''non-positive interval for NewTicker'')"
proof -
  let ?c = "Default\<lparr>cfg_TaskQueue := (cfg_TaskQueue Default)\<lparr>tq_CleanupInterval := 0\<rparr>\<rparr>"
  have "Validate ?c = Validate Default" unfolding Validate_def by simp
  then show ?thesis using Default_valid by (intro exI [of _ ?c]) (simp add: janitorRun_def NewJanitor_def)
qed



end
