(* ===== verification/TaskWorker.thy ===== *)
theory TaskWorker
  imports TaskQueue Metrics Durations
begin

text \<open>
  A worker pod as an operator sees it: the handler of \<open>internal/taskqueue/worker.go\<close> with the timeout
  of the task, its counters and its Kubernetes events, and the goroutines that handle several tasks
  at a time. The watch loop starts one goroutine for each pending task it sees; each claims its task
  and then executes the actions one by one, while the other goroutines and the rest of the cluster
  go on. An event keeps the name and namespace of its task; the recorder takes every event.
\<close>

section \<open>Events and counters\<close>

record taskEvent =
  ev_Namespace :: string
  ev_Name :: string
  ev_Type :: string
  ev_Reason :: string
  ev_Message :: string

record 'w pod =
  pd_world :: 'w
  pd_metrics :: metricValues
  pd_events :: "taskEvent list"

definition recordEvent :: "RemediationTask \<Rightarrow> string \<Rightarrow> string \<Rightarrow> string \<Rightarrow> 'w pod \<Rightarrow> 'w pod" where
  "recordEvent obj eventType reason message p = p\<lparr>pd_events := pd_events p @
     [\<lparr>ev_Namespace = tk_Namespace obj, ev_Name = tk_Name obj, ev_Type = eventType, ev_Reason = reason,
       ev_Message = message\<rparr>]\<rparr>"

definition incPod :: "collector \<Rightarrow> 'w pod \<Rightarrow> 'w pod" where
  "incPod c p = p\<lparr>pd_metrics := Inc c (pd_metrics p)\<rparr>"

section \<open>The handler\<close>

definition taskTimeout :: "RemediationTask \<Rightarrow> duration" where
  "taskTimeout obj =
     (case ParseDuration (tsp_Timeout (tk_Spec obj)) of
        Some d \<Rightarrow> if d > 0 then d else 60 * Second
      | None \<Rightarrow> 60 * Second)"

text \<open>An executor is given the deadline of the context that bounds all actions of a task.\<close>

type_synonym 'w DeadlineExecutor = "time \<Rightarrow> 'w TaskExecutor"

definition claimPhase ::
  "'w taskAPI \<Rightarrow> location \<Rightarrow> time \<Rightarrow> string \<Rightarrow> RemediationTask \<Rightarrow> 'w pod \<Rightarrow> bool \<times> 'w pod" where
  "claimPhase api loc now identity obj p =
     (case ta_UpdateStatus api (claimStatus loc now identity obj) (pd_world p) of
        (Some err, w) \<Rightarrow> (False, p\<lparr>pd_world := w\<rparr>)
      | (None, w) \<Rightarrow>
          (True, recordEvent obj ''Normal'' ''TaskClaimed'' (''Worker '' @ identity @ '' claimed task'')
             (incPod TasksClaimedTotal (p\<lparr>pd_world := w\<rparr>))))"

definition reportPhase ::
  "'w taskAPI \<Rightarrow> location \<Rightarrow> time \<Rightarrow> RemediationTask \<Rightarrow> nat \<Rightarrow> bool \<Rightarrow> ActionResult \<Rightarrow> string option \<Rightarrow> 'w pod \<Rightarrow> 'w pod" where
  "reportPhase api loc now obj completed overallOK lastResult lastErr p =
     (let p1 = p\<lparr>pd_world := updateTaskStatus api loc now (tk_Name obj) completed overallOK lastResult lastErr (pd_world p)\<rparr> in
      if overallOK
      then recordEvent obj ''Normal'' ''TaskCompleted'' (''All '' @ nat_dec completed @ '' actions completed successfully'')
             (incPod TasksCompletedTotal p1)
      else recordEvent obj ''Warning'' ''TaskFailed''
             (''Failed after '' @ nat_dec completed @ '' action(s)'' @ (case lastErr of Some e \<Rightarrow> '': '' @ e | None \<Rightarrow> ''''))
             (incPod TasksFailedTotal p1))"

definition executePhase ::
  "'w taskAPI \<Rightarrow> 'w DeadlineExecutor \<Rightarrow> (ActionConfig list \<Rightarrow> ActionConfig list) \<Rightarrow> location \<Rightarrow> time \<Rightarrow> task_clock
     \<Rightarrow> RemediationTask \<Rightarrow> 'w pod \<Rightarrow> 'w pod" where
  "executePhase api execd srt loc started clk obj p =
     (let (resource, actions) = extractFromTask obj;
          ((completed, overallOK, lastResult, lastErr), w) =
            runTask (execd (time_Add started (taskTimeout obj))) (tc_action clk) resource 0 (srt actions) zeroActionResult (pd_world p)
      in reportPhase api loc (tc_done clk) obj completed overallOK lastResult lastErr (p\<lparr>pd_world := w\<rparr>))"

definition handleTask ::
  "'w taskAPI \<Rightarrow> 'w DeadlineExecutor \<Rightarrow> (ActionConfig list \<Rightarrow> ActionConfig list) \<Rightarrow> location \<Rightarrow> time \<Rightarrow> task_clock \<Rightarrow> string
     \<Rightarrow> RemediationTask \<Rightarrow> 'w pod \<Rightarrow> 'w pod" where
  "handleTask api execd srt loc started clk identity obj p =
     (let (claimed, p1) = claimPhase api loc (tc_claim clk) identity obj p in
      if claimed then executePhase api execd srt loc started clk obj p1 else p1)"

section \<open>The goroutines of a worker\<close>

text \<open>
  What a goroutine has left to do after the claim: the rest of its actions, or the report of what
  came out. The deadline is set when the execution begins.
\<close>

datatype progress =
    Executing ResourceReference time nat "ActionConfig list" ActionResult
  | Executed nat bool ActionResult "string option"

definition startExecution :: "(ActionConfig list \<Rightarrow> ActionConfig list) \<Rightarrow> time \<Rightarrow> RemediationTask \<Rightarrow> progress" where
  "startExecution srt started obj =
     (let (resource, actions) = extractFromTask obj
      in Executing resource (time_Add started (taskTimeout obj)) 0 (srt actions) zeroActionResult)"

text \<open>One round of the action loop.\<close>

definition executeNext ::
  "'w DeadlineExecutor \<Rightarrow> time \<times> time \<Rightarrow> ResourceReference \<Rightarrow> time \<Rightarrow> nat \<Rightarrow> ActionConfig list \<Rightarrow> ActionResult \<Rightarrow> 'w
     \<Rightarrow> progress \<times> 'w" where
  "executeNext execd ts resource deadline completed todo lastResult w =
     (case todo of
        [] \<Rightarrow> (Executed completed True lastResult None, w)
      | a # rest \<Rightarrow>
          (let ((result, err), w') = execd deadline ts resource a w in
           if err \<noteq> None \<or> ar_Status result = ActionStatusFailed then (Executed completed False result err, w')
           else (Executing resource deadline (Suc completed) rest result, w')))"

record 'w workerState =
  ws_pod :: "'w pod"
  ws_running :: "(RemediationTask \<times> progress) list"

inductive worker_step ::
  "'w taskAPI \<Rightarrow> 'w DeadlineExecutor \<Rightarrow> (ActionConfig list \<Rightarrow> ActionConfig list) \<Rightarrow> location \<Rightarrow> string
     \<Rightarrow> 'w workerState \<Rightarrow> 'w workerState \<Rightarrow> bool"
  for api execd srt loc identity where
  claimed: "claimable obj \<Longrightarrow> claimPhase api loc now identity obj (ws_pod s) = (True, p) \<Longrightarrow>
    worker_step api execd srt loc identity s
      (s\<lparr>ws_pod := p, ws_running := ws_running s @ [(obj, startExecution srt started obj)]\<rparr>)"
| refused: "claimable obj \<Longrightarrow> claimPhase api loc now identity obj (ws_pod s) = (False, p) \<Longrightarrow>
    worker_step api execd srt loc identity s (s\<lparr>ws_pod := p\<rparr>)"
| action: "ws_running s = before @ (obj, Executing resource deadline n todo lastResult) # after \<Longrightarrow>
    executeNext execd ts resource deadline n todo lastResult (pd_world (ws_pod s)) = (next', w) \<Longrightarrow>
    worker_step api execd srt loc identity s
      (s\<lparr>ws_pod := (ws_pod s)\<lparr>pd_world := w\<rparr>, ws_running := before @ (obj, next') # after\<rparr>)"
| reported: "ws_running s = before @ (obj, Executed n ok result err) # after \<Longrightarrow>
    worker_step api execd srt loc identity s
      (s\<lparr>ws_pod := reportPhase api loc now obj n ok result err (ws_pod s), ws_running := before @ after\<rparr>)"
| cluster: "worker_step api execd srt loc identity s (s\<lparr>ws_pod := (ws_pod s)\<lparr>pd_world := w\<rparr>\<rparr>)"

inductive_simps worker_step_iff: "worker_step api execd srt loc identity s s'"

abbreviation worker_reachable ::
  "'w taskAPI \<Rightarrow> 'w DeadlineExecutor \<Rightarrow> (ActionConfig list \<Rightarrow> ActionConfig list) \<Rightarrow> location \<Rightarrow> string
     \<Rightarrow> 'w workerState \<Rightarrow> 'w workerState \<Rightarrow> bool" where
  "worker_reachable api execd srt loc identity \<equiv> (worker_step api execd srt loc identity)\<^sup>*\<^sup>*"

definition newWorkerState :: "'w \<Rightarrow> 'w workerState" where
  "newWorkerState w = \<lparr>ws_pod = \<lparr>pd_world = w, pd_metrics = (\<lambda>_. 0), pd_events = []\<rparr>, ws_running = []\<rparr>"

section \<open>The handler and the queue\<close>

text \<open>
  Apart from counters and events, the handler is \<open>claimAndExecute\<close> of the queue with an executor that
  is bound by the deadline of the task.
\<close>

lemma handleTask_world:
  "pd_world (handleTask api execd srt loc started clk identity obj p)
     = snd (claimAndExecute api (execd (time_Add started (taskTimeout obj))) srt loc clk identity obj (pd_world p))"
  by (simp add: handleTask_def claimAndExecute_def claimPhase_def executePhase_def reportPhase_def recordEvent_def incPod_def
      Let_def case_prod_beta split: option.split prod.split)

lemma taskTimeout_pos: "0 < taskTimeout obj \<and> in64 (taskTimeout obj)"
  by (auto simp: taskTimeout_def go_simps in64_def split: option.split dest: ParseDuration_range [unfolded in64_def])

lemma taskTimeout_published: "taskTimeout (taskObject srt fmtv namespace now result resource) = 60 * Second"
  by (simp add: taskTimeout_def taskObject_def ParseDuration_examples(1) go_simps)

section \<open>A goroutine on its own\<close>

lemma executeNext_runTask:
  assumes "runTask (execd deadline) clk resource n todo lastResult w = ((m, ok, result, err), w')"
    and "ws_running s = before @ (obj, Executing resource deadline n todo lastResult) # after" "pd_world (ws_pod s) = w"
  shows "worker_reachable api execd srt loc identity s
    (s\<lparr>ws_pod := (ws_pod s)\<lparr>pd_world := w'\<rparr>, ws_running := before @ (obj, Executed m ok result err) # after\<rparr>)"
  using assms
proof (induction todo arbitrary: n lastResult w s)
  case Nil
  then show ?case
    by (intro r_into_rtranclp worker_step.action [OF Nil(2), where ts = "(0, 0)"]) (auto simp: executeNext_def)
next
  case (Cons a rest)
  obtain r e w1 where ex: "execd deadline (clk n) resource a w = ((r, e), w1)" by (metis surj_pair)
  show ?case
  proof (cases "e \<noteq> None \<or> ar_Status r = ActionStatusFailed")
    case True
    with ex Cons.prems(1) have "(m, ok, result, err) = (n, False, r, e)" "w' = w1" by auto
    then show ?thesis
      using True ex Cons.prems(3)
      by (intro r_into_rtranclp worker_step.action [OF Cons.prems(2), where ts = "clk n"]) (auto simp: executeNext_def)
  next
    case False
    let ?s = "s\<lparr>ws_pod := (ws_pod s)\<lparr>pd_world := w1\<rparr>, ws_running := before @ (obj, Executing resource deadline (Suc n) rest r) # after\<rparr>"
    have "worker_step api execd srt loc identity s ?s"
      using False ex Cons.prems(3)
      by (intro worker_step.action [OF Cons.prems(2), where ts = "clk n"]) (auto simp: executeNext_def)
    moreover have "runTask (execd deadline) clk resource (Suc n) rest r w1 = ((m, ok, result, err), w')"
      using False ex Cons.prems(1) by simp
    from Cons.IH [OF this, of ?s] have "worker_reachable api execd srt loc identity ?s
      (?s\<lparr>ws_pod := (ws_pod ?s)\<lparr>pd_world := w'\<rparr>, ws_running := before @ (obj, Executed m ok result err) # after\<rparr>)" by simp
    ultimately show ?thesis by (simp add: converse_rtranclp_into_rtranclp)
  qed
qed

lemma goroutine_completes:
  assumes "ws_running s = before @ (obj, startExecution srt started obj) # after"
  shows "worker_reachable api execd srt loc identity s
    (s\<lparr>ws_pod := executePhase api execd srt loc started clk obj (ws_pod s), ws_running := before @ after\<rparr>)"
proof -
  obtain resource actions where x: "extractFromTask obj = (resource, actions)" by (metis surj_pair)
  let ?d = "time_Add started (taskTimeout obj)"
  obtain m ok result err w where r: "runTask (execd ?d) (tc_action clk) resource 0 (srt actions) zeroActionResult (pd_world (ws_pod s))
      = ((m, ok, result, err), w)" by (metis surj_pair)
  let ?s = "s\<lparr>ws_pod := (ws_pod s)\<lparr>pd_world := w\<rparr>, ws_running := before @ (obj, Executed m ok result err) # after\<rparr>"
  have "worker_reachable api execd srt loc identity s ?s"
    using executeNext_runTask [where execd = execd and deadline = ?d, OF r, where s = s and before = before and obj = obj and after = after]
      assms by (simp add: startExecution_def x)
  moreover have "worker_step api execd srt loc identity ?s
      (?s\<lparr>ws_pod := reportPhase api loc (tc_done clk) obj m ok result err (ws_pod ?s), ws_running := before @ after\<rparr>)"
    by (rule worker_step.reported) simp
  ultimately show ?thesis by (simp add: executePhase_def x r rtranclp.rtrancl_into_rtrancl)
qed


section \<open>What counters and events say\<close>

definition eventsOf :: "string \<Rightarrow> string \<Rightarrow> 'w pod \<Rightarrow> nat" where
  "eventsOf reason name p = length (filter (\<lambda>e. ev_Reason e = reason \<and> ev_Name e = name) (pd_events p))"

definition eventsWith :: "string \<Rightarrow> 'w pod \<Rightarrow> nat" where
  "eventsWith reason p = length (filter (\<lambda>e. ev_Reason e = reason) (pd_events p))"

definition runningOf :: "string \<Rightarrow> 'w workerState \<Rightarrow> nat" where
  "runningOf name s = length (filter (\<lambda>g. tk_Name (fst g) = name) (ws_running s))"

text \<open>A goroutine works through the sorted actions of its own task, on the target of that task.\<close>

fun on_course :: "(ActionConfig list \<Rightarrow> ActionConfig list) \<Rightarrow> RemediationTask \<times> progress \<Rightarrow> bool" where
  "on_course srt (obj, Executing resource deadline n todo lastResult) \<longleftrightarrow>
     resource = fst (extractFromTask obj) \<and> n \<le> length (srt (snd (extractFromTask obj)))
     \<and> todo = drop n (srt (snd (extractFromTask obj)))"
| "on_course srt (obj, Executed n ok result err) \<longleftrightarrow>
     n \<le> length (srt (snd (extractFromTask obj))) \<and> (ok \<longleftrightarrow> n = length (srt (snd (extractFromTask obj))))"

definition counters_agree :: "'w pod \<Rightarrow> bool" where
  "counters_agree p \<longleftrightarrow>
     valueOf (pd_metrics p) TasksClaimedTotal = int (eventsWith ''TaskClaimed'' p)
     \<and> valueOf (pd_metrics p) TasksCompletedTotal = int (eventsWith ''TaskCompleted'' p)
     \<and> valueOf (pd_metrics p) TasksFailedTotal = int (eventsWith ''TaskFailed'' p)"

definition events_balance :: "'w workerState \<Rightarrow> bool" where
  "events_balance s \<longleftrightarrow>
     eventsWith ''TaskClaimed'' (ws_pod s)
       = eventsWith ''TaskCompleted'' (ws_pod s) + eventsWith ''TaskFailed'' (ws_pod s) + length (ws_running s)
     \<and> (\<forall>name. eventsOf ''TaskClaimed'' name (ws_pod s)
       = eventsOf ''TaskCompleted'' name (ws_pod s) + eventsOf ''TaskFailed'' name (ws_pod s) + runningOf name s)"

lemma task_counter_names:
  "fqName TasksClaimedTotal = ''selfhealing_operator_tasks_claimed_total''"
  "fqName TasksCompletedTotal = ''selfhealing_operator_tasks_completed_total''"
  "fqName TasksFailedTotal = ''selfhealing_operator_tasks_failed_total''"
  by (simp_all add: TasksClaimedTotal_def TasksCompletedTotal_def TasksFailedTotal_def fqName_new)

lemmas pod_simps = recordEvent_def incPod_def Inc_def eventsOf_def eventsWith_def task_counter_names

lemma counters_world [simp]:
  "counters_agree (p\<lparr>pd_world := w\<rparr>) = counters_agree p" "eventsOf r n (p\<lparr>pd_world := w\<rparr>) = eventsOf r n p"
  "eventsWith r (p\<lparr>pd_world := w\<rparr>) = eventsWith r p"
  by (simp_all add: counters_agree_def eventsOf_def eventsWith_def)

lemma claimPhase_cases:
  assumes "claimPhase api loc now identity obj p = (ok, p')"
  obtains w where "\<not> ok" "p' = p\<lparr>pd_world := w\<rparr>"
  | w where "ok" "p' = recordEvent obj ''Normal'' ''TaskClaimed'' (''Worker '' @ identity @ '' claimed task'')
      (incPod TasksClaimedTotal (p\<lparr>pd_world := w\<rparr>))"
  using assms by (auto simp: claimPhase_def split: prod.splits option.splits)

lemma claimed_events:
  assumes "claimPhase api loc now identity obj p = (True, p')"
  shows "counters_agree p \<Longrightarrow> counters_agree p'"
    and "eventsWith r p' = eventsWith r p + (if r = ''TaskClaimed'' then 1 else 0)"
    and "eventsOf r n p' = eventsOf r n p + (if r = ''TaskClaimed'' \<and> n = tk_Name obj then 1 else 0)"
  using assms by (auto elim!: claimPhase_cases simp: counters_agree_def pod_simps)

lemma report_events:
  defines "reason ok \<equiv> if ok then ''TaskCompleted'' else ''TaskFailed''"
  shows "counters_agree p \<Longrightarrow> counters_agree (reportPhase api loc now obj m ok result err p)"
    and "eventsWith r (reportPhase api loc now obj m ok result err p) = eventsWith r p + (if r = reason ok then 1 else 0)"
    and "eventsOf r n (reportPhase api loc now obj m ok result err p)
      = eventsOf r n p + (if r = reason ok \<and> n = tk_Name obj then 1 else 0)"
  by (auto simp: reportPhase_def Let_def counters_agree_def pod_simps reason_def)

lemma start_on_course: "on_course srt (obj, startExecution srt started obj)"
  by (simp add: startExecution_def case_prod_beta)

lemma next_on_course:
  assumes "on_course srt (obj, Executing resource deadline n todo lastResult)"
    and "executeNext execd ts resource deadline n todo lastResult w = (next', w')"
  shows "on_course srt (obj, next')"
proof (cases todo)
  case Nil
  with assms show ?thesis by (auto simp: executeNext_def)
next
  case (Cons a rest)
  let ?as = "srt (snd (extractFromTask obj))"
  from assms(1) Cons have c: "a # rest = drop n ?as" by simp
  then have "n < length ?as" by (metis drop_eq_Nil2 list.distinct(1) not_less)
  moreover from c have "rest = drop (Suc n) ?as" by (metis drop_Suc list.sel(3) tl_drop)
  moreover obtain result err w1 where ex: "execd deadline ts resource a w = ((result, err), w1)" by (metis surj_pair)
  have "next' = (if err \<noteq> None \<or> ar_Status result = ActionStatusFailed then Executed n False result err
      else Executing resource deadline (Suc n) rest result)"
    using assms(2) Cons by (auto simp: executeNext_def ex split: if_splits)
  ultimately show ?thesis using assms(1) by simp
qed

definition worker_inv :: "(ActionConfig list \<Rightarrow> ActionConfig list) \<Rightarrow> 'w workerState \<Rightarrow> bool" where
  "worker_inv srt s \<longleftrightarrow> counters_agree (ws_pod s) \<and> events_balance s \<and> list_all (on_course srt) (ws_running s)"

lemma worker_inv_new: "worker_inv srt (newWorkerState w)"
  by (simp add: worker_inv_def newWorkerState_def counters_agree_def events_balance_def eventsOf_def eventsWith_def runningOf_def)

lemma worker_inv_step:
  assumes "worker_step api execd srt loc identity s s'" "worker_inv srt s"
  shows "worker_inv srt s'"
  using assms
proof (induction rule: worker_step.induct)
  case (claimed obj now s p started)
  note ev = claimed_events [OF claimed(2)]
  show ?case
    using claimed(3) start_on_course [of srt obj started] ev(1)
    by (simp add: worker_inv_def events_balance_def ev runningOf_def)
next
  case (refused obj now s p)
  then show ?case
    by (elim claimPhase_cases) (simp_all add: worker_inv_def events_balance_def runningOf_def)
next
  case (action s before obj resource deadline n todo lastResult after ts next' w)
  have "on_course srt (obj, next')"
    using action by (intro next_on_course [OF _ action(2)]) (simp add: worker_inv_def)
  with action show ?case by (simp add: worker_inv_def events_balance_def runningOf_def)
next
  case (reported s before obj n ok result err after now)
  then show ?case
    by (simp add: worker_inv_def events_balance_def runningOf_def report_events)
next
  case (cluster s w)
  then show ?case by (simp add: worker_inv_def events_balance_def runningOf_def)
qed

interpretation goroutines: kept_invariant "worker_step api execd srt loc identity" "worker_inv srt"
  for api :: "'w taskAPI" and execd srt loc identity
  by unfold_locales (rule worker_inv_step)

text \<open>
  C19. However the goroutines of a worker interleave with each other and with the rest of the
  cluster, its counters and events tell the truth: each counter is the number of events of its kind,
  for every task the claims are its completions, its failures and the goroutines still working on it,
  and each of these goroutines has exactly a suffix of the sorted actions of its task before it and
  will report success only when it has executed all of them.
\<close>

theorem worker_counters:
  assumes "worker_reachable api execd srt loc identity (newWorkerState w) s"
  shows "valueOf (pd_metrics (ws_pod s)) TasksClaimedTotal
      = valueOf (pd_metrics (ws_pod s)) TasksCompletedTotal + valueOf (pd_metrics (ws_pod s)) TasksFailedTotal
        + int (length (ws_running s))
    \<and> counters_agree (ws_pod s)
    \<and> eventsOf ''TaskClaimed'' name (ws_pod s)
      = eventsOf ''TaskCompleted'' name (ws_pod s) + eventsOf ''TaskFailed'' name (ws_pod s) + runningOf name s
    \<and> list_all (on_course srt) (ws_running s)"
  using goroutines.reachable_keeps [OF assms worker_inv_new]
  by (simp add: worker_inv_def counters_agree_def events_balance_def)

definition sample_task :: RemediationTask where
  "sample_task = \<lparr>tk_Name = ''t'', tk_Namespace = ''ns'', tk_Labels = [], tk_ResourceVersion = 1, tk_CreationTimestamp = 0,
     tk_Spec = \<lparr>tsp_ScenarioID = '''', tsp_ScenarioName = '''', tsp_DetectionResultID = '''', tsp_Severity = '''',
       tsp_Target = \<lparr>tt_APIVersion = '''', tt_Kind = ''Pod'', tt_Name = ''a'', tt_Namespace = ''ns''\<rparr>,
       tsp_Actions = [crdAction (\<lambda>_. '''') zeroAction], tsp_Timeout = ''60s'', tsp_MaxRetries = 3\<rparr>,
     tk_Status = emptyStatus\<rparr>"

definition accepting_api :: "nat taskAPI" where
  "accepting_api = \<lparr>ta_Get = (\<lambda>_ _. Inr sample_task), ta_List = (\<lambda>_. Inr []), ta_Create = (\<lambda>_ w. (None, w)),
     ta_UpdateStatus = (\<lambda>_ w. (None, Suc w)), ta_Delete = (\<lambda>_ w. (None, w))\<rparr>"

theorem worker_counters_witness:
  "\<exists>s :: nat workerState. length (ws_running s) = 1 \<and> valueOf (pd_metrics (ws_pod s)) TasksClaimedTotal
     = valueOf (pd_metrics (ws_pod s)) TasksCompletedTotal + valueOf (pd_metrics (ws_pod s)) TasksFailedTotal + 1"
proof -
  let ?ex = "\<lambda>_ _ _ _ w. ((zeroActionResult, None), w)" and ?s = "newWorkerState 0 :: nat workerState"
  obtain p where p: "claimPhase accepting_api UTC 0 ''w'' sample_task (ws_pod ?s) = (True, p)"
    by (simp add: claimPhase_def accepting_api_def)
  let ?s' = "?s\<lparr>ws_pod := p, ws_running := ws_running ?s @ [(sample_task, startExecution id 0 sample_task)]\<rparr>"
  have "claimable sample_task" by (simp add: claimable_def phaseOf_def sample_task_def emptyStatus_def go_simps)
  from worker_step.claimed [OF this p]
  have "worker_reachable accepting_api ?ex id UTC ''w'' ?s ?s'" by (rule r_into_rtranclp)
  from worker_counters [OF this, of "''t''"] show ?thesis
    by (intro exI [of _ ?s']) (simp add: newWorkerState_def)
qed


text \<open>
  C27. The deadline of a task is always a positive duration in range, sixty seconds for every task that
  the leader publishes; a timeout of whole seconds that was written as Go prints it is obeyed
  exactly, and one that does not parse or is not positive counts as sixty seconds.
\<close>

theorem task_timeout:
  "0 < taskTimeout obj \<and> in64 (taskTimeout obj)
   \<and> taskTimeout (taskObject srt fmtv namespace now result resource) = 60 * Second
   \<and> (tsp_Timeout (tk_Spec obj) = durationString d \<and> 0 < d \<and> d < 2 ^ 63 \<and> d mod Second = 0 \<longrightarrow> taskTimeout obj = d)
   \<and> (ParseDuration (tsp_Timeout (tk_Spec obj)) = None \<longrightarrow> taskTimeout obj = 60 * Second)
   \<and> (\<forall>d \<le> 0. ParseDuration (tsp_Timeout (tk_Spec obj)) = Some d \<longrightarrow> taskTimeout obj = 60 * Second)"
proof -
  have "taskTimeout obj = d" if "tsp_Timeout (tk_Spec obj) = durationString d" "0 < d" "d < 2 ^ 63" "d mod Second = 0"
    using that ParseDuration_String [of d] by (simp add: taskTimeout_def)
  then show ?thesis using taskTimeout_pos [of obj] taskTimeout_published by (auto simp: taskTimeout_def)
qed

theorem task_timeout_witness:
  "taskTimeout (sample_task\<lparr>tk_Spec := (tk_Spec sample_task)\<lparr>tsp_Timeout := ''5m0s''\<rparr>\<rparr>) = 300 * Second"
proof -
  let ?obj = "sample_task\<lparr>tk_Spec := (tk_Spec sample_task)\<lparr>tsp_Timeout := ''5m0s''\<rparr>\<rparr>"
  have "tsp_Timeout (tk_Spec ?obj) = durationString (5 * Minute)" by (simp add: durationString_examples(1))
  then show ?thesis using task_timeout [where obj = ?obj and d = "5 * Minute"] by (simp add: go_simps)
qed

end
