(* ===== verification/Panics.thy ===== *)
theory Panics
  imports Remediation TaskWorker "HOL-Library.Monad_Syntax"
begin

text \<open>
  Panics of the executor. Nothing in the program recovers from a panic, so one in the goroutine of
  the controller or of a task ends the process. The operations of \<open>internal/remediation/controller.go\<close> and
  \<open>internal/taskqueue/worker.go\<close> that call the executor are written here with an executor that may panic;
  \<open>None\<close> is the end of the process. The locale \<open>panicking_executor\<close> relates them to the operations on an
  executor that always returns and says which actions are to blame.
\<close>

section \<open>Operations that may panic\<close>

type_synonym 'w PanickingExecutor = "time \<times> time \<Rightarrow> ResourceReference \<Rightarrow> ActionConfig \<Rightarrow> 'w \<Rightarrow> 'w outcome"

definition tryAction ::
  "'w PanickingExecutor \<Rightarrow> location \<Rightarrow> action_clock \<Rightarrow> 'w controllerImpl \<Rightarrow> DetectionResult \<Rightarrow> ActionConfig \<Rightarrow> 'w
     \<Rightarrow> (ActionResult \<times> 'w) option" where
  "tryAction attempt loc clk c result actionConfig w =
     (let resource = dr_Resource result in
      if rm_DryRun (cfg_Remediation (co_config c)) then
        Some (zeroActionResult\<lparr>ar_ID := generateID loc (ak_id clk), ar_DetectionResultID := dr_ID result,
           ar_ScenarioID := dr_ScenarioID result, ar_Resource := resource, ar_Action := actionConfig,
           ar_Status := ActionStatusDryRun, ar_StartTime := ak_start clk, ar_EndTime := ak_end clk,
           ar_Message := ''Dry-run: action would be executed''\<rparr>, w)
      else do {
        ((actionResult, err), w1) \<leftarrow> attempt (ak_exec clk) resource actionConfig w;
        (actionResult', err', resource', w2) \<leftarrow>
          (case (err, co_ownerResolver c) of
             (Some _, Some resolve) \<Rightarrow>
               (let (resolved, resolveErr) = resolve w1 resource in
                if resolveErr = None \<and> rr_Key resolved \<noteq> rr_Key resource then do {
                  ((ar, e), w2) \<leftarrow> attempt (ak_retry clk) resolved actionConfig w1;
                  Some (ar, e, if e = None then resolved else resource, w2) }
                else Some (actionResult, err, resource, w1))
           | _ \<Rightarrow> Some (actionResult, err, resource, w1));
        Some (case err' of
          Some msg \<Rightarrow>
            (zeroActionResult\<lparr>ar_ID := generateID loc (ak_id clk), ar_DetectionResultID := dr_ID result,
               ar_ScenarioID := dr_ScenarioID result, ar_Resource := resource', ar_Action := actionConfig,
               ar_Status := ActionStatusFailed, ar_StartTime := ak_start clk, ar_EndTime := ak_end clk,
               ar_Message := ''Action execution failed'', ar_Error := msg\<rparr>, w2)
        | None \<Rightarrow>
            (actionResult'\<lparr>ar_ID := generateID loc (ak_id clk), ar_DetectionResultID := dr_ID result,
               ar_ScenarioID := dr_ScenarioID result\<rparr>, w2)) })"

fun tryActions ::
  "'w PanickingExecutor \<Rightarrow> location \<Rightarrow> (nat \<Rightarrow> action_clock) \<Rightarrow> DetectionResult \<Rightarrow> nat \<Rightarrow> ActionConfig list
     \<Rightarrow> 'w controllerImpl \<Rightarrow> RemediationState \<Rightarrow> 'w \<Rightarrow> ('w controllerImpl \<times> RemediationState \<times> 'w) option" where
  "tryActions attempt loc clk result i [] c state w = Some (c, state, w)"
| "tryActions attempt loc clk result i (actionConfig # rest) c state w = do {
     (actionResult, w') \<leftarrow> tryAction attempt loc (clk i) c result actionConfig w;
     let c' = sendResult c actionResult;
     if ar_Status actionResult = ActionStatusFailed
     then Some (c', state\<lparr>rs_LastActionStatus := ActionStatusFailed\<rparr>, w')
     else tryActions attempt loc clk result (Suc i) rest c' (state\<lparr>rs_LastActionStatus := ar_Status actionResult\<rparr>) w' }"

definition tryResult ::
  "'w PanickingExecutor \<Rightarrow> (ActionConfig list \<Rightarrow> ActionConfig list) \<Rightarrow> location \<Rightarrow> result_clock \<Rightarrow> 'w controllerImpl
     \<Rightarrow> DetectionResult \<Rightarrow> 'w \<Rightarrow> ('w controllerImpl \<times> 'w) option" where
  "tryResult attempt srt loc clk c result w =
     (if \<not> admitted c result w then Some (c, w)
      else
        (let stateKey = StateKey (dr_ScenarioID result) (dr_Resource result);
             state = (case GetState (co_stateStore c) stateKey of Some st \<Rightarrow> st | None \<Rightarrow> newState result)
         in if isInCooldown (pk_cooldown clk) state then Some (recordSkipped loc clk c result ''cooldown'', w)
            else if rs_RemediationCount state \<ge> rm_DefaultMaxRetries (cfg_Remediation (co_config c)) then
              Some (if \<not> rs_Escalated state then
                 (let c1 = escalate loc clk c result
                  in (c1\<lparr>co_stateStore := SetState (co_stateStore c1) stateKey (state\<lparr>rs_Escalated := True\<rparr>)\<rparr>, w))
               else (c, w))
            else do {
              (c1, state1, w1) \<leftarrow>
                (case co_publisher c of
                   Some publish \<Rightarrow>
                     Some (let (st, w') = publishTask (pk_publish clk) publish c result state w in (c, st, w'))
                 | None \<Rightarrow>
                     (let actions = dr_RecommendedActions result in
                      if actions = [] then Some (c, state, w)
                      else tryActions attempt loc (pk_action clk) result 0 (srt actions) c state w));
              let state2 = state1\<lparr>rs_LastRemediation := pk_last clk,
                     rs_RemediationCount := rs_RemediationCount state1 + 1,
                     rs_CooldownUntil := time_Add (pk_until clk) (rm_DefaultCooldown (cfg_Remediation (co_config c)))\<rparr>;
              Some (c1\<lparr>co_stateStore := SetState (co_stateStore c1) stateKey state2\<rparr>, w1) }))"

text \<open>The action loop of a task and the handler of a task; the executor is the one for its deadline.\<close>

fun tryTask ::
  "'w PanickingExecutor \<Rightarrow> (nat \<Rightarrow> time \<times> time) \<Rightarrow> ResourceReference \<Rightarrow> nat \<Rightarrow> ActionConfig list \<Rightarrow> ActionResult \<Rightarrow> 'w
     \<Rightarrow> ((nat \<times> bool \<times> ActionResult \<times> string option) \<times> 'w) option" where
  "tryTask attempt clk resource completed [] lastResult w = Some ((completed, True, lastResult, None), w)"
| "tryTask attempt clk resource completed (actionCfg # rest) lastResult w = do {
     ((result, err), w') \<leftarrow> attempt (clk completed) resource actionCfg w;
     if err \<noteq> None \<or> ar_Status result = ActionStatusFailed then Some ((completed, False, result, err), w')
     else tryTask attempt clk resource (Suc completed) rest result w' }"

definition tryHandleTask ::
  "'w taskAPI \<Rightarrow> 'w PanickingExecutor \<Rightarrow> (ActionConfig list \<Rightarrow> ActionConfig list) \<Rightarrow> location \<Rightarrow> task_clock \<Rightarrow> string
     \<Rightarrow> RemediationTask \<Rightarrow> 'w pod \<Rightarrow> 'w pod option" where
  "tryHandleTask api attempt srt loc clk identity obj p =
     (let (claimed, p1) = claimPhase api loc (tc_claim clk) identity obj p in
      if claimed then do {
        let (resource, actions) = extractFromTask obj;
        ((completed, overallOK, lastResult, lastErr), w) \<leftarrow>
          tryTask attempt (tc_action clk) resource 0 (srt actions) zeroActionResult (pd_world p1);
        Some (reportPhase api loc (tc_done clk) obj completed overallOK lastResult lastErr (p1\<lparr>pd_world := w\<rparr>)) }
      else Some p1)"

section \<open>What a panic means\<close>

locale panicking_executor =
  fixes attempt :: "'w PanickingExecutor" and total :: "'w ActionExecutor" and blame :: "ActionConfig \<Rightarrow> bool"
  assumes returns: "attempt ts r a w = Some out \<Longrightarrow> total ts r a w = out"
    and panics: "attempt ts r a w = None \<Longrightarrow> blame a"
begin

lemma action_returns:
  assumes "co_executor c = total" "tryAction attempt loc clk c r a w = Some out"
  shows "executeAction loc clk c r a w = out"
proof (cases "rm_DryRun (cfg_Remediation (co_config c))")
  case True
  with assms(2) show ?thesis by (simp add: tryAction_def executeAction_def)
next
  case False
  from assms(2) False obtain ar err w1 where first: "attempt (ak_exec clk) (dr_Resource r) a w = Some ((ar, err), w1)"
    by (auto simp: tryAction_def Let_def bind_eq_Some_conv)
  note total = returns [OF first]
  show ?thesis
  proof (cases "\<exists>e resolve owner. err = Some e \<and> co_ownerResolver c = Some resolve
      \<and> resolve w1 (dr_Resource r) = (owner, None) \<and> rr_Key owner \<noteq> rr_Key (dr_Resource r)")
    case True
    then obtain e resolve owner where res: "err = Some e" "co_ownerResolver c = Some resolve"
      "resolve w1 (dr_Resource r) = (owner, None)" "rr_Key owner \<noteq> rr_Key (dr_Resource r)" by blast
    with assms(2) False first obtain ar2 e2 w2 where second: "attempt (ak_retry clk) owner a w1 = Some ((ar2, e2), w2)"
      by (auto simp: tryAction_def Let_def bind_eq_Some_conv)
    show ?thesis using assms False first second total returns [OF second] res by (simp add: tryAction_def executeAction_def Let_def)
  next
    case no: False
    show ?thesis
    proof (cases "err = None \<or> co_ownerResolver c = None")
      case True
      then show ?thesis using assms False first total
        by (cases err; cases "co_ownerResolver c") (simp_all add: tryAction_def executeAction_def Let_def)
    next
      case some: False
      then obtain e resolve where "err = Some e" "co_ownerResolver c = Some resolve" by auto
      moreover obtain owner rerr where "resolve w1 (dr_Resource r) = (owner, rerr)" by force
      ultimately show ?thesis using assms False first total no
        by (cases "rerr = None \<and> rr_Key owner \<noteq> rr_Key (dr_Resource r)") (auto simp: tryAction_def executeAction_def Let_def)
    qed
  qed
qed

lemma action_panics:
  assumes "tryAction attempt loc clk c r a w = None"
  shows "\<not> rm_DryRun (cfg_Remediation (co_config c)) \<and> blame a"
  using assms
  by (auto simp: tryAction_def Let_def case_prod_beta bind_eq_None_conv dest: panics split: if_splits option.splits)

lemma actions_return:
  "co_executor c = total \<Longrightarrow> tryActions attempt loc clk r i as c state w = Some out \<Longrightarrow> runActions loc clk r i as c state w = out"
proof (induction as arbitrary: i c state w)
  case (Cons a as)
  then obtain ar w' where act: "tryAction attempt loc (clk i) c r a w = Some (ar, w')" by (auto simp: bind_eq_Some_conv)
  have "co_executor (sendResult c ar) = total" using Cons.prems(1) by (simp add: sendResult_def)
  with Cons action_returns [OF Cons.prems(1) act] act show ?case by (auto simp: Let_def split: if_splits)
qed simp

lemma actions_panic:
  "tryActions attempt loc clk r i as c state w = None \<Longrightarrow>
     \<not> rm_DryRun (cfg_Remediation (co_config c)) \<and> (\<exists>a \<in> set as. blame a)"
proof (induction as arbitrary: i c state w)
  case (Cons a as)
  show ?case
  proof (cases "tryAction attempt loc (clk i) c r a w")
    case None
    then show ?thesis using action_panics by fastforce
  next
    case (Some x)
    obtain ar w' where x: "x = (ar, w')" by force
    have "co_config (sendResult c ar) = co_config c" by (simp add: sendResult_def)
    with Some x Cons.prems Cons.IH [of "Suc i" "sendResult c ar"] show ?thesis by (auto simp: Let_def split: if_splits)
  qed
qed simp

lemma result_returns:
  assumes "co_executor c = total" "tryResult attempt srt loc clk c r w = Some out"
  shows "processResult srt loc clk c r w = out"
proof (cases "acts c clk r w \<and> co_publisher c = None \<and> dr_RecommendedActions r \<noteq> []")
  case True
  with assms(2) obtain c1 st w1 where run:
    "tryActions attempt loc (pk_action clk) r 0 (srt (dr_RecommendedActions r)) c (currentState c r) w = Some (c1, st, w1)"
    by (auto simp: tryResult_def acts_def Let_def bind_eq_Some_conv simp flip: currentState_def)
  show ?thesis
    using True assms(2) run actions_return [OF assms(1) run]
    by (simp add: tryResult_def processResult_def executeActions_def acts_def Let_def flip: currentState_def)
next
  case False
  have "tryResult attempt srt loc clk c r w = Some (processResult srt loc clk c r w)"
    using False by (cases "co_publisher c")
      (auto simp: tryResult_def processResult_def executeActions_def acts_def Let_def case_prod_beta simp flip: currentState_def)
  with assms(2) show ?thesis by simp
qed

lemma result_panics:
  assumes "tryResult attempt srt loc clk c r w = None"
  shows "acts c clk r w \<and> co_publisher c = None \<and> \<not> rm_DryRun (cfg_Remediation (co_config c))
     \<and> (\<exists>a \<in> set (srt (dr_RecommendedActions r)). blame a)"
  using assms
  by (auto simp: tryResult_def acts_def Let_def case_prod_beta bind_eq_None_conv simp flip: currentState_def
      dest!: actions_panic split: if_splits option.splits)

lemma task_returns: "tryTask attempt clk r n as lr w = Some out \<Longrightarrow> runTask total clk r n as lr w = out"
  by (induction as arbitrary: n lr w) (auto simp: bind_eq_Some_conv dest!: returns split: if_splits)

lemma task_panics: "tryTask attempt clk r n as lr w = None \<Longrightarrow> \<exists>a \<in> set as. blame a"
proof (induction as arbitrary: n lr w)
  case (Cons a as)
  show ?case
  proof (cases "attempt (clk n) r a w")
    case None
    then show ?thesis by (auto dest: panics)
  next
    case (Some x)
    obtain ar err w' where x: "x = ((ar, err), w')" by (cases x) auto
    with Some Cons.prems have "tryTask attempt clk r (Suc n) as ar w' = None" by (simp split: if_splits)
    from Cons.IH [OF this] show ?thesis by auto
  qed
qed simp

lemma handler_returns:
  "tryHandleTask api attempt srt loc clk identity obj p = Some p' \<Longrightarrow> handleTask api (\<lambda>_. total) srt loc started clk identity obj p = p'"
  by (auto simp: tryHandleTask_def handleTask_def executePhase_def Let_def case_prod_beta bind_eq_Some_conv
      dest!: task_returns split: if_splits)

lemma handler_panics:
  "tryHandleTask api attempt srt loc clk identity obj p = None \<Longrightarrow>
     fst (claimPhase api loc (tc_claim clk) identity obj p) \<and> (\<exists>a \<in> set (srt (snd (extractFromTask obj))). blame a)"
  by (auto simp: tryHandleTask_def Let_def case_prod_beta bind_eq_None_conv dest!: task_panics split: if_splits)

end

section \<open>The executor of the program\<close>

definition badMaximum :: "'q quantityOps \<Rightarrow> ActionConfig \<Rightarrow> bool" where
  "badMaximum qo a \<longleftrightarrow> (ac_Type a = ActionTypeAdjustCPU \<or> ac_Type a = ActionTypeAdjustMemory)
     \<and> (case mget (ac_Params a) ''maxValue'' of Some (GString s) \<Rightarrow> s \<noteq> '''' \<and> q_Parse qo s = None | _ \<Rightarrow> False)"

text \<open>The same executor for the operations that do not know of panics; what stands for a panic does not matter.\<close>

definition returning :: "'w PanickingExecutor \<Rightarrow> 'w ActionExecutor" where
  "returning attempt ts r a w = (case attempt ts r a w of Some out \<Rightarrow> out | None \<Rightarrow> ((zeroActionResult, None), w))"

interpretation real_executor: panicking_executor "Execute (newExecutorImpl gn qo client)"
    "returning (Execute (newExecutorImpl gn qo client))" "badMaximum qo"
  for gn and qo :: "'q quantityOps" and client :: "('w, 't, 'q) kubeClient"
proof unfold_locales
  fix ts r a and w :: 'w and out
  show "returning (Execute (newExecutorImpl gn qo client)) ts r a w = out" if "Execute (newExecutorImpl gn qo client) ts r a w = Some out"
    using that by (simp add: returning_def)
  show "badMaximum qo a" if "Execute (newExecutorImpl gn qo client) ts r a w = None"
    using panic_only_bad_maximum [OF that] by (auto simp: badMaximum_def)
qed

lemma badMaximum_param:
  "badMaximum qo a \<Longrightarrow> stringParam (ac_Params a) ''maxValue'' '''' \<noteq> '''' \<and> q_Parse qo (stringParam (ac_Params a) ''maxValue'' '''') = None"
  by (auto simp: badMaximum_def stringParam_def split: option.splits gval.splits)

lemma newLimits_bad: "q_Parse qo mx = None \<Longrightarrow> mx \<noteq> '''' \<Longrightarrow> cs \<noteq> [] \<Longrightarrow> newLimits gn qo rn inc mx cs = None"
  by (cases cs) (simp_all add: applyIncrease_def Let_def)

lemma badMaximum_deployment:
  assumes "badMaximum qo a" "rr_Kind d = ''Deployment''"
    and "k8_GetDeployment client (rr_Namespace d) (rr_Name d) w = Inr deploy" "dep_Containers deploy \<noteq> []"
  shows "Execute (newExecutorImpl gn qo client) ts d a w = None"
proof -
  have "ac_Type a = ActionTypeAdjustCPU \<or> ac_Type a = ActionTypeAdjustMemory" using assms(1) by (simp add: badMaximum_def)
  then show ?thesis
    using badMaximum_param [OF assms(1)] assms(2-4) newLimits_bad [of qo "stringParam (ac_Params a) ''maxValue'' ''''"]
    by (auto simp: Execute_def GetHandler_new action_type_defs adjustHandler_def AdjustValidate_def AdjustExecute_def numeral_3_eq_3 Let_def)
qed

lemma badMaximum_pod:
  assumes "badMaximum qo a" "rr_Kind r = ''Pod''"
  shows "\<exists>ar e. Execute (newExecutorImpl gn qo client) ts r a w = Some ((ar, Some e), w)"
  using assms by (auto simp: badMaximum_def Execute_def GetHandler_new action_type_defs adjustHandler_def AdjustValidate_def Let_def)

section \<open>Properties\<close>


definition bad_result :: DetectionResult where
  "bad_result = sample_result\<lparr>dr_Resource := sample_deployment,
     dr_RecommendedActions := [zeroAction\<lparr>ac_Type := ActionTypeAdjustMemory, ac_Params := [(''maxValue'', GString ''bad'')]\<rparr>]\<rparr>"

definition bad_controller :: "int controllerImpl" where
  "bad_controller = newControllerImpl Default (returning (Execute (newExecutorImpl sample_num int_quantity sample_kube)))
     (chan_make 9) None None None"


text \<open>
  The first action of a result for a pod ends the process when it has such a maximum and the
  Deployment of the pod is found. Nothing has been recorded then, so that the same holds for
  the process that is started next, whatever its state store says about other keys.
\<close>

theorem bad_maximum_crashes:
  assumes "acts c clk r w" "co_publisher c = None" "\<not> rm_DryRun (cfg_Remediation (co_config c))"
    and "dr_RecommendedActions r \<noteq> []" "srt (dr_RecommendedActions r) = a # rest" "badMaximum qo a"
    and "rr_Kind (dr_Resource r) = ''Pod''" "co_ownerResolver c = Some resolve" "resolve w (dr_Resource r) = (d, None)"
    and "rr_Key d \<noteq> rr_Key (dr_Resource r)" "rr_Kind d = ''Deployment''"
    and "k8_GetDeployment client (rr_Namespace d) (rr_Name d) w = Inr deploy" "dep_Containers deploy \<noteq> []"
  shows "tryResult (Execute (newExecutorImpl gn qo client)) srt loc clk c r w = None"
proof -
  let ?ex = "Execute (newExecutorImpl gn qo client)"
  obtain ar e where pod: "?ex (ak_exec (pk_action clk 0)) (dr_Resource r) a w = Some ((ar, Some e), w)"
    using badMaximum_pod [OF assms(6, 7), where gn = gn and client = client and w = w] by blast
  have "tryAction ?ex loc (pk_action clk 0) c r a w = None"
    using assms(3, 8-10) pod badMaximum_deployment [OF assms(6, 11-13)] by (simp add: tryAction_def Let_def)
  then show ?thesis
    using assms(1, 2, 4, 5) by (simp add: tryResult_def acts_def Let_def flip: currentState_def)
qed

text \<open>
  A worker panics only in a task that it has claimed, and only for such an action; otherwise the
  handler of a task does what it does with an executor that always returns.
\<close>

theorem worker_panics:
  assumes "slice_sorter ac_Order srt"
  shows "case tryHandleTask api (Execute (newExecutorImpl gn qo client)) srt loc clk identity obj p of
      Some p' \<Rightarrow> p' = handleTask api (\<lambda>_. returning (Execute (newExecutorImpl gn qo client))) srt loc started clk identity obj p
    | None \<Rightarrow> fst (claimPhase api loc (tc_claim clk) identity obj p) \<and> (\<exists>a. a \<in> set (snd (extractFromTask obj)) \<and> badMaximum qo a)"
proof (cases "tryHandleTask api (Execute (newExecutorImpl gn qo client)) srt loc clk identity obj p")
  case None
  with real_executor.handler_panics [OF this] slice_sorterD(3) [OF assms] show ?thesis by auto
next
  case (Some p')
  with real_executor.handler_returns [OF this] show ?thesis by simp
qed

end
