(* ===== verification/Lifecycle.thy ===== *)
theory Lifecycle
  imports Clients Janitor Panics
begin

text \<open>
  The life of an operator process, from \<open>main\<close> of \<open>cmd/operator/main.go\<close> after the configuration is
  validated: how it boots as a candidate or standalone, becomes the leader, is told to stop and
  exits. The signals wait in a channel of capacity one that only \<open>runPipeline\<close> reads. Leader election
  is client-go's: it calls \<open>OnStartedLeading\<close> in a goroutine of its own when the lease is acquired, and
  \<open>OnStoppedLeading\<close> when the lease is lost or the context is cancelled. A goroutine that panics, of the
  janitor, the controller or a worker, takes the process with it; what it did to the cluster before remains.
\<close>

section \<open>Stages\<close>

text \<open>
  A leader is known by the two clients it was built with. \<open>Stopping\<close> is \<open>runPipeline\<close> after it has
  cancelled the context and before the shutdown is complete, \<open>Returned\<close> is a leader whose pipeline
  is shut down and whose election has not ended yet.
\<close>

datatype ('c, 'd) stage =
    Booting
  | Candidate 'c 'd
  | Serving "('c \<times> 'd) option"
  | Stopping "('c \<times> 'd) option"
  | Returned 'c 'd
  | Exited int

record ('a, 'p, 'w, 'l, 'c, 'd) life =
  lf_stage :: "('c, 'd) stage"
  lf_process :: "('a, 'p, 'w, 'l) process"
  lf_world :: 'w
  lf_signal :: bool
  lf_cancelled :: bool
  lf_leaseLost :: bool

record ('a, 'p, 'w, 'l, 'c, 'd, 'k) deployment =
  dp_setting :: "('a, 'p, 'w, 'l, 'c) setting"
  dp_credentials :: "('k, 'c, 'd, 'w, 'l) credentials"
  dp_patch :: "'c \<Rightarrow> 'w podPatch"
  dp_taskAPI :: "'d \<Rightarrow> 'w taskAPI"
  dp_fmtv :: "gval \<Rightarrow> string"
  dp_config :: Config
  dp_identity :: string

definition newLife :: "'w \<Rightarrow> ('a, 'p, 'w, 'l, 'c, 'd) life" where
  "newLife w = \<lparr>lf_stage = Booting, lf_process = newProcess, lf_world = w, lf_signal = False, lf_cancelled = False,
     lf_leaseLost = False\<rparr>"

definition leaderElection :: "('a, 'p, 'w, 'l, 'c, 'd, 'k) deployment \<Rightarrow> bool" where
  "leaderElection dp = le_Enabled (oc_LeaderElection (cfg_Operator (dp_config dp)))"

section \<open>Steps\<close>

text \<open>Booting: the two clients of the election are needed, a standalone operator only labels its pod if it has one.\<close>

definition boot :: "('a, 'p, 'w, 'l, 'c, 'd, 'k) deployment \<Rightarrow> ('a, 'p, 'w, 'l, 'c, 'd) life \<Rightarrow> ('a, 'p, 'w, 'l, 'c, 'd) life" where
  "boot dp s =
     (if leaderElection dp then
        (case buildLeaderElectionClient (dp_credentials dp) of
           Inl err \<Rightarrow> s\<lparr>lf_stage := Exited 1\<rparr>
         | Inr c \<Rightarrow>
             (case buildDynamicClient (dp_credentials dp) of
                Inl err \<Rightarrow> s\<lparr>lf_stage := Exited 1\<rparr>
              | Inr d \<Rightarrow> s\<lparr>lf_stage := Candidate c d,
                  lf_process := startWorkerMode (dp_config dp) (dp_identity dp) (lf_process s)\<rparr>))
      else
        (let client = (case buildLeaderElectionClient (dp_credentials dp) of Inl err \<Rightarrow> Inl err | Inr c \<Rightarrow> Inr (dp_patch dp c));
             w = standaloneLabel client (dp_config dp) (dp_identity dp) (lf_world s)
         in case launchPipeline (dp_setting dp) (dp_config dp) standaloneOpts [] (lf_process s) w of
              Inl err \<Rightarrow> s\<lparr>lf_stage := Exited 1, lf_world := w\<rparr>
            | Inr (ps, w') \<Rightarrow> s\<lparr>lf_stage := Serving None, lf_process := ps, lf_world := w'\<rparr>))"

definition lead :: "('a, 'p, 'w, 'l, 'c, 'd, 'k) deployment \<Rightarrow> 'c \<Rightarrow> 'd \<Rightarrow> ('a, 'p, 'w, 'l, 'c, 'd) life \<Rightarrow> ('a, 'p, 'w, 'l, 'c, 'd) life" where
  "lead dp c d s =
     (case onStartedLeading (dp_setting dp) (dp_patch dp c) (dp_taskAPI dp d) (dp_fmtv dp) (dp_config dp) (dp_identity dp) []
             (lf_process s) (lf_world s) of
        Inl err \<Rightarrow> s\<lparr>lf_stage := Exited 1,
          lf_world := snd (patchPodLeaderLabel (dp_patch dp c) (leaseNamespace (dp_config dp)) (dp_identity dp) True (lf_world s))\<rparr>
      | Inr (ps, w) \<Rightarrow> s\<lparr>lf_stage := Serving (Some (c, d)), lf_process := ps, lf_world := w\<rparr>)"

text \<open>One event of the running pipeline.\<close>

definition work :: "('a, 'p, 'w, 'l, 'c, 'd, 'k) deployment \<Rightarrow> 'w pipelineEvent \<Rightarrow> ('a, 'p, 'w, 'l, 'c, 'd) life \<Rightarrow> ('a, 'p, 'w, 'l, 'c, 'd) life" where
  "work dp ev s =
     (case ps_pipelineRef (lf_process s) of
        None \<Rightarrow> s
      | Some p \<Rightarrow>
          (let (p', w) = pipelineStep (st_sort (dp_setting dp)) (st_loc (dp_setting dp)) (p, lf_world s) ev
           in s\<lparr>lf_process := (lf_process s)\<lparr>ps_pipelineRef := Some p'\<rparr>, lf_world := w\<rparr>))"

text \<open>The end of \<open>runPipeline\<close>, and what its two callers do with the result.\<close>

definition finish :: "string option \<Rightarrow> bool \<Rightarrow> ('c \<times> 'd) option \<Rightarrow> ('a, 'p, 'w, 'l, 'c, 'd) life \<Rightarrow> ('a, 'p, 'w, 'l, 'c, 'd) life" where
  "finish shutdownErr timedOut role s =
     (let (err, ps) = stopPipeline shutdownErr timedOut (lf_process s) in
      s\<lparr>lf_process := ps,
        lf_stage := (if err \<noteq> None then Exited 1 else case role of None \<Rightarrow> Exited 0 | Some (c, d) \<Rightarrow> Returned c d)\<rparr>)"

text \<open>The janitor that every pod with leader election starts.\<close>

definition newJanitor :: "('a, 'p, 'w, 'l, 'c, 'd, 'k) deployment \<Rightarrow> Janitor" where
  "newJanitor dp = NewJanitor (leaseNamespace (dp_config dp)) (cfg_TaskQueue (dp_config dp))"

datatype 'w lifeEvent =
    Boots
  | Elected
  | Works "'w pipelineEvent"
  | Signalled
  | LeaseLost
  | BeginsToStop
  | ShutsDown "string option" bool
  | StopsLeading
  | JanitorPanics
  | ExecutorPanics
  | WorkerPanics
  | ClusterMoves 'w

inductive life_step ::
  "('a, 'p, 'w, 'l, 'c, 'd, 'k) deployment \<Rightarrow> 'w lifeEvent \<Rightarrow> ('a, 'p, 'w, 'l, 'c, 'd) life \<Rightarrow> ('a, 'p, 'w, 'l, 'c, 'd) life \<Rightarrow> bool"
  for dp where
  boots: "lf_stage s = Booting \<Longrightarrow> life_step dp Boots s (boot dp s)"
| elected: "lf_stage s = Candidate c d \<Longrightarrow> \<not> lf_cancelled s \<Longrightarrow> life_step dp Elected s (lead dp c d s)"
| works: "lf_stage s \<in> {Serving role, Stopping role} \<Longrightarrow> life_step dp (Works ev) s (work dp ev s)"
| signalled: "\<forall>code. lf_stage s \<noteq> Exited code \<Longrightarrow> life_step dp Signalled s (s\<lparr>lf_signal := True\<rparr>)"
| lease_lost: "lf_stage s \<in> {Serving (Some r), Stopping (Some r), Returned (fst r) (snd r)} \<Longrightarrow>
    life_step dp LeaseLost s (s\<lparr>lf_leaseLost := True\<rparr>)"
| begins: "lf_stage s = Serving role \<Longrightarrow> lf_signal s \<or> lf_leaseLost s \<Longrightarrow>
    life_step dp BeginsToStop s (s\<lparr>lf_stage := Stopping role, lf_signal := False, lf_cancelled := True\<rparr>)"
| shuts_down: "lf_stage s = Stopping role \<Longrightarrow> life_step dp (ShutsDown err timedOut) s (finish err timedOut role s)"
| stops_leading: "lf_stage s \<in> {Serving (Some (c, d)), Stopping (Some (c, d)), Returned c d} \<Longrightarrow> lf_leaseLost s \<or> lf_cancelled s \<Longrightarrow>
    life_step dp StopsLeading s (s\<lparr>lf_stage := Exited (fst (onStoppedLeading (dp_patch dp c) (dp_config dp) (dp_identity dp) (lf_world s))),
      lf_world := snd (onStoppedLeading (dp_patch dp c) (dp_config dp) (dp_identity dp) (lf_world s)), lf_cancelled := True\<rparr>)"
| janitor_panics: "leaderElection dp \<Longrightarrow> lf_stage s \<noteq> Booting \<Longrightarrow> \<forall>code. lf_stage s \<noteq> Exited code \<Longrightarrow>
    janitorRun (api :: 'w taskAPI) parse339 (newJanitor dp) loc inputs (lf_world s, m) = Panicked msg \<Longrightarrow>
    life_step dp JanitorPanics s (s\<lparr>lf_stage := Exited 2\<rparr>)"
| executor_panics: "lf_stage s \<in> {Serving role, Stopping role} \<Longrightarrow> ps_pipelineRef (lf_process s) = Some p \<Longrightarrow>
    chan_recv (en_outputCh (pl_detector p)) = Some (result, ch) \<Longrightarrow>
    \<forall>ts r a w out. attempt ts r a w = Some out \<longrightarrow> co_executor (pl_remediator p) ts r a w = out \<Longrightarrow>
    tryResult attempt (st_sort (dp_setting dp)) (st_loc (dp_setting dp)) clk (pl_remediator p) result (lf_world s) = None \<Longrightarrow>
    life_step dp ExecutorPanics s (s\<lparr>lf_stage := Exited 2, lf_world := w'\<rparr>)"
| worker_panics: "leaderElection dp \<Longrightarrow> lf_stage s \<noteq> Booting \<Longrightarrow> \<forall>code. lf_stage s \<noteq> Exited code \<Longrightarrow> claimable obj \<Longrightarrow>
    pd_world pod = lf_world s \<Longrightarrow>
    tryHandleTask api attempt (st_sort (dp_setting dp)) (st_loc (dp_setting dp)) tclk (dp_identity dp) obj pod = None \<Longrightarrow>
    life_step dp WorkerPanics s (s\<lparr>lf_stage := Exited 2, lf_world := w'\<rparr>)"
| cluster: "\<forall>code. lf_stage s \<noteq> Exited code \<Longrightarrow> life_step dp (ClusterMoves w) s (s\<lparr>lf_world := w\<rparr>)"

inductive_cases life_stepE: "life_step dp ev s s'"

inductive life_path ::
  "('a, 'p, 'w, 'l, 'c, 'd, 'k) deployment \<Rightarrow> 'w lifeEvent list \<Rightarrow> ('a, 'p, 'w, 'l, 'c, 'd) life \<Rightarrow> ('a, 'p, 'w, 'l, 'c, 'd) life \<Rightarrow> bool"
  for dp where
  path_nil: "life_path dp [] s s"
| path_cons: "life_step dp ev s s' \<Longrightarrow> life_path dp evs s' s'' \<Longrightarrow> life_path dp (ev # evs) s s''"

lemmas [intro] = path_nil path_cons

lemma path_append: "life_path dp xs s s' \<Longrightarrow> life_path dp ys s' s'' \<Longrightarrow> life_path dp (xs @ ys) s s''"
  by (induction rule: life_path.induct) auto

section \<open>Invariant\<close>

definition running :: "('a, 'p, 'w, 'l, 'c, 'd) life \<Rightarrow> bool" where
  "running s \<longleftrightarrow> (\<exists>p. ps_pipelineRef (lf_process s) = Some p \<and> \<not> pl_stopped p)"

definition shutDown :: "('a, 'p, 'w, 'l, 'c, 'd) life \<Rightarrow> bool" where
  "shutDown s \<longleftrightarrow> (\<exists>p. ps_pipelineRef (lf_process s) = Some p \<and> pl_stopped p \<and> pl_closed p)"

definition life_inv :: "('a, 'p, 'w, 'l, 'c, 'd, 'k) deployment \<Rightarrow> ('a, 'p, 'w, 'l, 'c, 'd) life \<Rightarrow> bool" where
  "life_inv dp s \<longleftrightarrow>
     (case lf_stage s of
        Booting \<Rightarrow> lf_process s = newProcess \<and> \<not> lf_cancelled s \<and> \<not> lf_leaseLost s
      | Candidate c d \<Rightarrow> leaderElection dp \<and> \<not> lf_cancelled s \<and> \<not> lf_leaseLost s
          \<and> lf_process s = startWorkerMode (dp_config dp) (dp_identity dp) newProcess
      | Serving role \<Rightarrow> leaderElection dp = (role \<noteq> None) \<and> running s \<and> \<not> lf_cancelled s \<and> (role = None \<longrightarrow> \<not> lf_leaseLost s)
      | Stopping role \<Rightarrow> leaderElection dp = (role \<noteq> None) \<and> running s \<and> lf_cancelled s
      | Returned c d \<Rightarrow> leaderElection dp \<and> shutDown s \<and> lf_cancelled s
      | Exited code \<Rightarrow> code = 1 \<or> code = 2 \<or> code = 0 \<and> (leaderElection dp \<or> shutDown s))"

lemma work_running: "running s \<Longrightarrow> running (work dp ev s)"
  using pipelineStep_ready(5) [of "st_sort (dp_setting dp)" "st_loc (dp_setting dp)"]
  by (force simp: running_def work_def case_prod_beta)

lemma work_frame [simp]:
  "lf_stage (work dp ev s) = lf_stage s" "lf_cancelled (work dp ev s) = lf_cancelled s" "lf_leaseLost (work dp ev s) = lf_leaseLost s"
  "lf_signal (work dp ev s) = lf_signal s"
  by (simp_all add: work_def case_prod_beta split: option.splits)

lemma launched_running: "launchPipeline st cfg po evs ps0 w = Inr (ps, w') \<Longrightarrow> \<exists>p. ps_pipelineRef ps = Some p \<and> \<not> pl_stopped p"
  by (drule launched) blast

lemma finish_shutDown: "running s \<Longrightarrow> shutDown (finish err timedOut role s)"
  by (auto simp: running_def shutDown_def finish_def stopPipeline_def Shutdown_def Let_def case_prod_beta)

lemma boot_cases:
  assumes "lf_process s = newProcess"
  obtains "lf_stage (boot dp s) = Exited 1"
  | c d where "leaderElection dp" "boot dp s = s\<lparr>lf_stage := Candidate c d, lf_process := startWorkerMode (dp_config dp) (dp_identity dp) newProcess\<rparr>"
  | ps w where "\<not> leaderElection dp" "\<exists>p. ps_pipelineRef ps = Some p \<and> \<not> pl_stopped p"
      "boot dp s = s\<lparr>lf_stage := Serving None, lf_process := ps, lf_world := w\<rparr>"
proof (cases "leaderElection dp")
  case True
  show thesis
  proof (cases "buildLeaderElectionClient (dp_credentials dp)")
    case (Inl err)
    with True show thesis by (intro that(1)) (simp add: boot_def)
  next
    case c: (Inr c)
    show thesis
    proof (cases "buildDynamicClient (dp_credentials dp)")
      case (Inl err)
      with True c show thesis by (intro that(1)) (simp add: boot_def)
    next
      case (Inr d)
      with True c assms show thesis by (intro that(2)) (simp_all add: boot_def)
    qed
  qed
next
  case False
  let ?w = "standaloneLabel (case buildLeaderElectionClient (dp_credentials dp) of Inl err \<Rightarrow> Inl err | Inr c \<Rightarrow> Inr (dp_patch dp c))
    (dp_config dp) (dp_identity dp) (lf_world s)"
  let ?l = "launchPipeline (dp_setting dp) (dp_config dp) standaloneOpts [] (lf_process s) ?w"
  show thesis
  proof (cases ?l)
    case (Inl err)
    with False show thesis by (intro that(1)) (simp add: boot_def Let_def)
  next
    case (Inr r)
    with launched_running [of "dp_setting dp" "dp_config dp" standaloneOpts "[]" "lf_process s" ?w "fst r" "snd r"]
    have "\<exists>p. ps_pipelineRef (fst r) = Some p \<and> \<not> pl_stopped p" by simp
    with False Inr show thesis by (intro that(3) [of "fst r" "snd r"]) (auto simp: boot_def Let_def case_prod_beta)
  qed
qed

lemma lead_cases:
  obtains "lf_stage (lead dp c d s) = Exited 1"
  | ps w where "\<exists>p. ps_pipelineRef ps = Some p \<and> \<not> pl_stopped p"
      "lead dp c d s = s\<lparr>lf_stage := Serving (Some (c, d)), lf_process := ps, lf_world := w\<rparr>"
proof (cases "onStartedLeading (dp_setting dp) (dp_patch dp c) (dp_taskAPI dp d) (dp_fmtv dp) (dp_config dp) (dp_identity dp) []
             (lf_process s) (lf_world s)")
  case (Inl err)
  then show thesis by (intro that(1)) (simp add: lead_def)
next
  case (Inr r)
  then have "\<exists>p. ps_pipelineRef (fst r) = Some p \<and> \<not> pl_stopped p"
    using launched_running [where ps = "fst r" and w' = "snd r"] by (simp add: onStartedLeading_def) blast
  with Inr show thesis by (intro that(2) [of "fst r" "snd r"]) (auto simp: lead_def case_prod_beta)
qed

lemma life_inv_step:
  assumes "life_step dp ev s s'" "life_inv dp s"
  shows "life_inv dp s'"
  using assms
proof (induction rule: life_step.induct)
  case (boots s)
  then have "lf_process s = newProcess" "\<not> lf_cancelled s" "\<not> lf_leaseLost s" by (simp_all add: life_inv_def)
  then show ?case by (cases rule: boot_cases [where dp = dp]) (auto simp: life_inv_def running_def)
next
  case (elected s c d)
  then have "leaderElection dp" "\<not> lf_cancelled s" by (simp_all add: life_inv_def)
  then show ?case by (cases rule: lead_cases [of dp c d s]) (auto simp: life_inv_def running_def)
next
  case (works s role ev)
  then show ?case using work_running [of s dp ev] by (auto simp: life_inv_def)
next
  case (signalled s)
  then show ?case by (simp add: life_inv_def running_def shutDown_def split: stage.splits)
next
  case (lease_lost s r)
  then show ?case by (auto simp: life_inv_def running_def shutDown_def)
next
  case (begins s role)
  then show ?case by (auto simp: life_inv_def running_def)
next
  case (shuts_down s role err timedOut)
  then have "shutDown (finish err timedOut role s)" by (auto simp: life_inv_def intro: finish_shutDown)
  with shuts_down show ?case
    by (auto simp: life_inv_def finish_def case_prod_beta Let_def split: option.splits)
next
  case (stops_leading s c d)
  then show ?case by (auto simp: life_inv_def onStoppedLeading_def)
next
  case (janitor_panics s api parse339 loc inputs m msg)
  then show ?case by (simp add: life_inv_def)
next
  case (executor_panics s role p result ch attempt clk w')
  then show ?case by (simp add: life_inv_def)
next
  case (worker_panics s obj pod api attempt tclk w')
  then show ?case by (simp add: life_inv_def)
next
  case (cluster s w)
  then show ?case by (simp add: life_inv_def running_def shutDown_def split: stage.splits)
qed

interpretation lifetime: kept_invariant "\<lambda>s s'. \<exists>ev. life_step dp ev s s'" "life_inv dp"
  for dp :: "('a, 'p, 'w, 'l, 'c, 'd, 'k) deployment"
  by unfold_locales (auto intro: life_inv_step)

lemma path_reachable: "life_path dp evs s s' \<Longrightarrow> (\<lambda>s s'. \<exists>ev. life_step dp ev s s')\<^sup>*\<^sup>* s s'"
  by (induction rule: life_path.induct) (auto intro: converse_rtranclp_into_rtranclp)

lemma life_inv_path: "life_path dp evs s s' \<Longrightarrow> life_inv dp s \<Longrightarrow> life_inv dp s'"
  by (rule lifetime.reachable_keeps [OF path_reachable])

lemma life_inv_new: "life_inv dp (newLife w)"
  by (simp add: life_inv_def newLife_def)


section \<open>Signals and exits\<close>

lemma no_janitor_panic:
  "0 < tq_CleanupInterval (cfg_TaskQueue (dp_config dp)) \<Longrightarrow> janitorRun api parse339 (newJanitor dp) loc inputs s \<noteq> Panicked msg"
proof -
  have "janitorLoop api parse339 j loc inputs s \<noteq> Panicked msg" for j
    by (induction api parse339 j loc inputs s rule: janitorLoop.induct) simp_all
  then show "0 < tq_CleanupInterval (cfg_TaskQueue (dp_config dp)) \<Longrightarrow> ?thesis"
    by (simp add: janitorRun_def newJanitor_def NewJanitor_def)
qed

lemma candidate_step:
  assumes "life_step dp ev s s'" "lf_stage s = Candidate c d" "ev \<noteq> Elected" "ev \<noteq> WorkerPanics"
    and "0 < tq_CleanupInterval (cfg_TaskQueue (dp_config dp))"
  shows "lf_stage s' = Candidate c d \<and> lf_process s' = lf_process s \<and> (lf_signal s \<or> ev = Signalled \<longrightarrow> lf_signal s')"
  using assms by (cases rule: life_step.cases) (auto simp: no_janitor_panic)

text \<open>What makes a standalone operator stop is a signal.\<close>

definition toldToStop :: "('a, 'p, 'w, 'l, 'c, 'd) life \<Rightarrow> bool" where
  "toldToStop s \<longleftrightarrow> lf_signal s \<or> lf_cancelled s \<or> lf_stage s = Exited 0"

lemma standalone_step:
  assumes "life_step dp ev s s'" "life_inv dp s" "\<not> leaderElection dp" "toldToStop s'"
  shows "ev = Signalled \<or> toldToStop s"
  using assms
proof (cases rule: life_step.cases)
  case boots
  then have "lf_process s = newProcess" using assms(2) by (simp add: life_inv_def)
  then show ?thesis using boots assms(3, 4)
    by (cases rule: boot_cases [where dp = dp]) (auto simp: toldToStop_def boot_def Let_def split: sum.splits if_splits)
qed (auto simp: toldToStop_def life_inv_def split: option.splits)

lemma standalone_path:
  "life_path dp evs s s' \<Longrightarrow> life_inv dp s \<Longrightarrow> \<not> leaderElection dp \<Longrightarrow> toldToStop s' \<Longrightarrow> Signalled \<in> set evs \<or> toldToStop s"
proof (induction rule: life_path.induct)
  case (path_cons ev s s' evs s'')
  then show ?case using life_inv_step [OF path_cons(1)] standalone_step [OF path_cons(1)] by auto
qed simp

lemma finish_ok:
  assumes "running s"
  shows "lf_stage (finish None False role s) = (case role of None \<Rightarrow> Exited 0 | Some (c, d) \<Rightarrow> Returned c d)"
  using assms stopMonitors_ok
  by (auto simp: running_def finish_def stopPipeline_def Shutdown_def Let_def case_prod_beta split: if_splits)

lemma graceful_stop:
  assumes "lf_stage s = Serving role" "lf_signal s" "running s"
  obtains s' where "life_path dp ([BeginsToStop, ShutsDown None False] @ (if role = None then [] else [StopsLeading])) s s'"
    "lf_stage s' = Exited 0" "shutDown s'"
proof -
  let ?s1 = "s\<lparr>lf_stage := Stopping role, lf_signal := False, lf_cancelled := True\<rparr>"
  let ?s2 = "finish None False role ?s1"
  have run: "running ?s1" using assms(3) by (simp add: running_def)
  note steps = life_step.begins [OF assms(1), of dp] life_step.shuts_down [of ?s1 role dp None False]
  have path: "life_path dp [BeginsToStop, ShutsDown None False] s ?s2"
    using steps assms(2) by (intro path_cons path_nil) auto
  show thesis
  proof (cases role)
    case None
    with path finish_ok [OF run, of role] finish_shutDown [OF run] show thesis by (intro that [of ?s2]) auto
  next
    case (Some cd)
    obtain c d where cd: "cd = (c, d)" by (cases cd)
    let ?s3 = "?s2\<lparr>lf_stage := Exited (fst (onStoppedLeading (dp_patch dp c) (dp_config dp) (dp_identity dp) (lf_world ?s2))),
      lf_world := snd (onStoppedLeading (dp_patch dp c) (dp_config dp) (dp_identity dp) (lf_world ?s2)), lf_cancelled := True\<rparr>"
    have "lf_stage ?s2 = Returned c d" using finish_ok [OF run, of role] Some cd by simp
    moreover have "lf_cancelled ?s2" by (simp add: finish_def case_prod_beta Let_def)
    ultimately have "life_step dp StopsLeading ?s2 ?s3" by (intro life_step.stops_leading) auto
    then have "life_path dp [StopsLeading] ?s2 ?s3" by auto
    from path_append [OF path this] Some show thesis
      using finish_shutDown [OF run, of None False role] by (intro that [of ?s3]) (auto simp: onStoppedLeading_def shutDown_def)
  qed
qed

text \<open>
  The context is cancelled before the pipeline is shut down, which ends the election: the process of
  a leader can exit with code 0 while its pipeline is still running.
\<close>

lemma leader_exit_races:
  assumes "lf_stage s = Serving (Some (c, d))" "lf_signal s" "running s"
  shows "\<exists>s'. life_path dp [BeginsToStop, StopsLeading] s s' \<and> lf_stage s' = Exited 0 \<and> running s'"
proof -
  let ?s1 = "s\<lparr>lf_stage := Stopping (Some (c, d)), lf_signal := False, lf_cancelled := True\<rparr>"
  let ?s2 = "?s1\<lparr>lf_stage := Exited (fst (onStoppedLeading (dp_patch dp c) (dp_config dp) (dp_identity dp) (lf_world ?s1))),
      lf_world := snd (onStoppedLeading (dp_patch dp c) (dp_config dp) (dp_identity dp) (lf_world ?s1)), lf_cancelled := True\<rparr>"
  have "life_step dp BeginsToStop s ?s1" using assms(2) by (intro life_step.begins [OF assms(1)]) simp
  moreover have "life_step dp StopsLeading ?s1 ?s2" by (rule life_step.stops_leading) auto
  ultimately have "life_path dp [BeginsToStop, StopsLeading] s ?s2" by blast
  then show ?thesis using assms(3) by (intro exI [of _ ?s2]) (auto simp: onStoppedLeading_def running_def)
qed

text \<open>Code 2 is the exit of a panic.\<close>

lemma exit_two_step:
  "life_step dp ev s s' \<Longrightarrow> lf_stage s' = Exited 2 \<Longrightarrow> lf_stage s = Exited 2 \<or> ev \<in> {JanitorPanics, ExecutorPanics, WorkerPanics}"
  by (cases rule: life_step.cases)
    (auto simp: boot_def lead_def work_def finish_def onStoppedLeading_def Let_def case_prod_beta split: if_splits sum.splits option.splits)

lemma exit_two_is_panic:
  "life_path dp evs s s' \<Longrightarrow> lf_stage s' = Exited 2 \<Longrightarrow> lf_stage s = Exited 2 \<or> set evs \<inter> {JanitorPanics, ExecutorPanics, WorkerPanics} \<noteq> {}"
proof (induction rule: life_path.induct)
  case (path_cons ev s s' evs s'')
  then show ?case using exit_two_step [OF path_cons(1)] by auto
qed simp

text \<open>
  A standalone operator that takes a result for a pod, the first action of which adjusts CPU or memory
  with a maximum that is not a quantity, exits without a shutdown.
\<close>

lemma bad_maximum_exits:
  assumes "lf_stage s = Serving None" "ps_pipelineRef (lf_process s) = Some p" "chan_recv (en_outputCh (pl_detector p)) = Some (r, ch)"
    and "c = pl_remediator p" "co_executor c = returning (Execute (newExecutorImpl gn qo client))"
    and "acts c clk r (lf_world s)" "co_publisher c = None" "\<not> rm_DryRun (cfg_Remediation (co_config c))"
    and "dr_RecommendedActions r \<noteq> []" "st_sort (dp_setting dp) (dr_RecommendedActions r) = a # rest" "badMaximum qo a"
    and "rr_Kind (dr_Resource r) = ''Pod''" "co_ownerResolver c = Some resolve" "resolve (lf_world s) (dr_Resource r) = (d, None)"
    and "rr_Key d \<noteq> rr_Key (dr_Resource r)" "rr_Kind d = ''Deployment''"
    and "k8_GetDeployment client (rr_Namespace d) (rr_Name d) (lf_world s) = Inr deploy" "dep_Containers deploy \<noteq> []"
  shows "life_step dp ExecutorPanics s (s\<lparr>lf_stage := Exited 2, lf_world := w'\<rparr>)"
proof (rule life_step.executor_panics)
  show "lf_stage s \<in> {Serving None, Stopping None}" using assms(1) by simp
  show "\<forall>ts r a w out. Execute (newExecutorImpl gn qo client) ts r a w = Some out \<longrightarrow> co_executor (pl_remediator p) ts r a w = out"
    using assms(4, 5) by (simp add: returning_def)
  show "tryResult (Execute (newExecutorImpl gn qo client)) (st_sort (dp_setting dp)) (st_loc (dp_setting dp)) clk (pl_remediator p) r (lf_world s) = None"
    using bad_maximum_crashes [where srt = "st_sort (dp_setting dp)" and resolve = resolve, OF assms(6-18)] assms(4) by simp
qed (use assms in auto)

section \<open>Properties\<close>

text \<open>
  C21. A pod that is waiting for the lease does not react to signals: whatever happens, as long as it is
  not elected, no task makes its worker panic and the janitor has a positive interval, it stays a
  candidate with its worker running, although the signal is queued.
\<close>

theorem candidate_ignores_signals:
  assumes "life_path dp evs s s'" "lf_stage s = Candidate c d" "Elected \<notin> set evs" "WorkerPanics \<notin> set evs"
    and "0 < tq_CleanupInterval (cfg_TaskQueue (dp_config dp))"
  shows "lf_stage s' = Candidate c d \<and> lf_process s' = lf_process s \<and> (Signalled \<in> set evs \<longrightarrow> lf_signal s')"
proof -
  have "lf_stage s' = Candidate c d \<and> lf_process s' = lf_process s \<and> (lf_signal s \<or> Signalled \<in> set evs \<longrightarrow> lf_signal s')"
    using assms
  proof (induction rule: life_path.induct)
    case (path_cons ev s s' evs s'')
    with candidate_step [OF path_cons(1), of c d] show ?case by auto
  qed simp
  then show ?thesis by blast
qed

text \<open>
  C20. A standalone operator exits with code 0 only after a signal and with its pipeline shut down; and
  every operator whose pipeline runs, the leader too, can reach that state after a signal when
  stopping the monitors reports no error and the deadline is met.
\<close>

theorem exit_after_shutdown:
  assumes "life_path dp evs (newLife w) s"
  shows "(\<not> leaderElection dp \<and> lf_stage s = Exited 0 \<longrightarrow> shutDown s \<and> Signalled \<in> set evs)
    \<and> (\<forall>role. lf_stage s = Serving role \<and> lf_signal s \<longrightarrow>
        (\<exists>s'. life_path dp ([BeginsToStop, ShutsDown None False] @ (if role = None then [] else [StopsLeading])) s s'
           \<and> lf_stage s' = Exited 0 \<and> shutDown s'))"
proof -
  have inv: "life_inv dp s" using life_inv_path [OF assms life_inv_new] .
  have "\<not> toldToStop (newLife w)" by (simp add: toldToStop_def newLife_def)
  then have "shutDown s \<and> Signalled \<in> set evs" if "\<not> leaderElection dp" "lf_stage s = Exited 0"
    using that standalone_path [OF assms life_inv_new that(1)] inv by (auto simp: toldToStop_def life_inv_def)
  moreover have "running s" if "lf_stage s = Serving role" for role using inv that by (simp add: life_inv_def)
  ultimately show ?thesis by (metis graceful_stop)
qed


definition sample_operator :: "bool \<Rightarrow> (string, string, string list, unit, unit, unit, unit) deployment" where
  "sample_operator elect = \<lparr>dp_setting = sample_setting, dp_credentials = laptop\<lparr>kr_InClusterConfig := Inr ()\<rparr>,
     dp_patch = (\<lambda>_ ns name labels w. (None, w)),
     dp_taskAPI = (\<lambda>_. \<lparr>ta_Get = (\<lambda>n w. Inl (NotFound n)), ta_List = (\<lambda>w. Inr []), ta_Create = (\<lambda>t w. (None, w)),
       ta_UpdateStatus = (\<lambda>t w. (None, w)), ta_Delete = (\<lambda>n w. (None, w))\<rparr>),
     dp_fmtv = (\<lambda>_. ''''),
     dp_config = Default\<lparr>cfg_Operator := (cfg_Operator Default)
       \<lparr>oc_LeaderElection := (oc_LeaderElection (cfg_Operator Default))\<lparr>le_Enabled := elect\<rparr>\<rparr>\<rparr>,
     dp_identity = ''pod-1''\<rparr>"

theorem candidate_ignores_signals_witness:
  "\<exists>s. life_path (sample_operator True) [Boots, Signalled, Signalled] (newLife []) s \<and> lf_stage s = Candidate () () \<and> lf_signal s"
proof -
  let ?dp = "sample_operator True"
  let ?s = "boot ?dp (newLife [])"
  have b: "life_step ?dp Boots (newLife []) ?s" by (rule life_step.boots) (simp add: newLife_def)
  have c: "lf_stage ?s = Candidate () ()"
    by (simp add: boot_def leaderElection_def sample_operator_def buildLeaderElectionClient_def buildDynamicClient_def
        loadK8sRestConfig_def restConfig_def laptop_def)
  let ?t = "?s\<lparr>lf_signal := True\<rparr>"
  have s1: "life_step ?dp Signalled ?s ?t" using c by (intro life_step.signalled) simp
  have "life_step ?dp Signalled ?t (?t\<lparr>lf_signal := True\<rparr>)" using c by (intro life_step.signalled) simp
  then have s2: "life_step ?dp Signalled ?t ?t" by simp
  note p = path_cons [OF s1 path_cons [OF s2 path_nil]]
  have "0 < tq_CleanupInterval (cfg_TaskQueue (dp_config ?dp))" by (simp add: sample_operator_def Default_def go_simps)
  with candidate_ignores_signals [OF p c] have "lf_stage ?t = Candidate () ()" "lf_signal ?t" by simp_all
  with b p show ?thesis by blast
qed

theorem exit_after_shutdown_witness:
  "\<exists>s s'. life_path (sample_operator False) [Boots, Signalled] (newLife []) s
     \<and> life_path (sample_operator False) [BeginsToStop, ShutsDown None False] s s' \<and> lf_stage s' = Exited 0"
proof -
  let ?dp = "sample_operator False"
  let ?s = "boot ?dp (newLife [])"
  have b: "life_step ?dp Boots (newLife []) ?s" by (rule life_step.boots) (simp add: newLife_def)
  have np: "\<exists>p. NewPipeline (st_newEnv sample_setting) (st_asSel sample_setting) (st_env sample_setting) w (dp_config ?dp) standaloneOpts = Inr p" for w
    by (simp add: sample_operator_def sample_setting_def NewPipeline_def BuildFromConfig_def defaultFactories_def k8sFactory_def otelFactory_def
        Let_def newEngineImpl_def NewCELEvaluator_def Default_def)
  have "\<exists>r. launchPipeline sample_setting (dp_config ?dp) standaloneOpts [] ps w = Inr r" for ps w
    using np [of w] by (auto simp: launchPipeline_def case_prod_beta)
  then obtain f where "\<And>ps w. launchPipeline sample_setting (dp_config ?dp) standaloneOpts [] ps w = Inr (f ps w)" by metis
  moreover have "\<not> leaderElection ?dp" "dp_setting ?dp = sample_setting" by (simp_all add: leaderElection_def sample_operator_def)
  ultimately have c: "lf_stage ?s = Serving None"
    unfolding boot_def Let_def by (simp add: case_prod_beta)
  let ?t = "?s\<lparr>lf_signal := True\<rparr>"
  have s: "life_step ?dp Signalled ?s ?t" using c by (intro life_step.signalled) simp
  note p = path_cons [OF b path_cons [OF s path_nil]]
  from exit_after_shutdown [OF p] c obtain s' where "life_path ?dp [BeginsToStop, ShutsDown None False] ?t s'" "lf_stage s' = Exited 0"
    by auto
  with p show ?thesis by blast
qed

end
