(* ===== verification/CommandLine.thy ===== *)
theory CommandLine
  imports Operator
begin

text \<open>
  What \<open>main\<close> of \<open>cmd/operator/main.go\<close> does before the operator starts: \<open>--version\<close>, \<open>--print-config\<close>, the log
  level and the effective configuration. The YAML encoder and the level parser of zap are arguments.
  The texts of errors on standard error are the constructors of \<open>printError\<close>. Strings are ASCII.
\<close>

section \<open>Strings\<close>

text \<open>\<open>strings.Split(s, sep)\<close> for a separator of one character, and \<open>strings.TrimSpace\<close>.\<close>

fun splitAt :: "char \<Rightarrow> string \<Rightarrow> string list" where
  "splitAt sep [] = [[]]"
| "splitAt sep (c # s) =
     (if c = sep then [] # splitAt sep s else case splitAt sep s of [] \<Rightarrow> [[c]] | w # ws \<Rightarrow> (c # w) # ws)"

definition isSpace :: "char \<Rightarrow> bool" where
  "isSpace c \<longleftrightarrow> c \<in> set [CHR '' '', CHR 0x09, CHR 0x0A, CHR 0x0B, CHR 0x0C, CHR 0x0D]"

definition TrimSpace :: "string \<Rightarrow> string" where
  "TrimSpace s = rev (dropWhile isSpace (rev (dropWhile isSpace s)))"

section \<open>The options\<close>

record commandLine =
  cmd_flags :: flags
  cmd_version :: bool
  cmd_printConfig :: string

record buildInfo =
  bi_version :: string
  bi_gitCommit :: string
  bi_buildDate :: string

definition newline :: string where "newline = [CHR 0x0A]"

definition printVersion :: "buildInfo \<Rightarrow> string" where
  "printVersion b = ''Self-Healing Operator'' @ newline @ ''  Version:    '' @ bi_version b @ newline
     @ ''  Git Commit: '' @ bi_gitCommit b @ newline @ ''  Build Date: '' @ bi_buildDate b @ newline"

section \<open>Printing the configuration\<close>

record ('e, 'b) yamlCodec =
  ya_Config :: "Config \<Rightarrow> 'e + string"
  ya_FlagOverrides :: "FlagOverrides \<Rightarrow> 'e + string"
  ya_Reencode :: "'b \<Rightarrow> 'e + string"

text \<open>\<open>ya_Reencode\<close> decodes a file into a map and encodes it again.\<close>

definition WriteUserConfigTo :: "('e, 'b) yamlCodec \<Rightarrow> (string \<Rightarrow> 'e + 'b) \<Rightarrow> string \<Rightarrow> 'e + string" where
  "WriteUserConfigTo ya readFile path =
     (if path = '''' then Inr (''# no config file (defaults only)'' @ newline)
      else case readFile path of Inl err \<Rightarrow> Inl err | Inr data \<Rightarrow> ya_Reencode ya data)"

datatype 'e printError =
    DefaultsFailed 'e
  | FlagsFailed 'e
  | UserFailed 'e
  | MergedLoadFailed 'e
  | MergedFailed 'e
  | UnknownMode string

definition heading :: "string \<Rightarrow> string" where
  "heading mode = ''---'' @ newline @ ''# ============ '' @ mode @ '' ============'' @ newline"

text \<open>A section is its heading and, when it could be encoded, the YAML after it.\<close>

definition writeSection :: "string \<Rightarrow> ('e \<Rightarrow> 'e printError) \<Rightarrow> 'e + string \<Rightarrow> string \<times> 'e printError option" where
  "writeSection mode failed yaml =
     (case yaml of Inl err \<Rightarrow> (heading mode, Some (failed err)) | Inr y \<Rightarrow> (heading mode @ y, None))"

definition printMode ::
  "('e, 'b) yamlCodec \<Rightarrow> (string \<Rightarrow> 'e + 'b) \<Rightarrow> ('b \<Rightarrow> Config \<Rightarrow> 'e + Config) \<Rightarrow> flags \<Rightarrow> string \<Rightarrow> string \<times> 'e printError option" where
  "printMode ya readFile unmarshal f mode =
     (if mode = ''defaults'' then writeSection mode DefaultsFailed (ya_Config ya Default)
      else if mode = ''flags'' then writeSection mode FlagsFailed (ya_FlagOverrides ya (buildFlagOverrides f))
      else if mode = ''user'' then writeSection mode UserFailed (WriteUserConfigTo ya readFile (fl_config f))
      else if mode = ''merged'' then
        (case Load readFile unmarshal (fl_config f) of
           Inl err \<Rightarrow> ('''', Some (MergedLoadFailed err))
         | Inr cfg \<Rightarrow> writeSection mode MergedFailed (ya_Config ya (ApplyFlagOverrides cfg (buildFlagOverrides f))))
      else if mode \<noteq> '''' then ('''', Some (UnknownMode mode))
      else ('''', None))"

fun printModes ::
  "('e, 'b) yamlCodec \<Rightarrow> (string \<Rightarrow> 'e + 'b) \<Rightarrow> ('b \<Rightarrow> Config \<Rightarrow> 'e + Config) \<Rightarrow> flags \<Rightarrow> string list \<Rightarrow> string \<Rightarrow> string \<times> 'e printError option" where
  "printModes ya readFile unmarshal f [] out = (out, None)"
| "printModes ya readFile unmarshal f (mode # rest) out =
     (case printMode ya readFile unmarshal f (TrimSpace mode) of
        (y, Some err) \<Rightarrow> (out @ y, Some err)
      | (y, None) \<Rightarrow> printModes ya readFile unmarshal f rest (out @ y))"

section \<open>The start of \<open>main\<close>\<close>

text \<open>An unknown level is replaced by \<open>InfoLevel\<close>, which is zero.\<close>

definition loggerLevel :: "(string \<Rightarrow> int option) \<Rightarrow> string \<Rightarrow> int" where
  "loggerLevel unmarshalText level = (case unmarshalText level of Some l \<Rightarrow> l | None \<Rightarrow> 0)"

datatype mainResult = Exits int string | Starts Config int

text \<open>\<open>buildLogger\<close> is \<open>zap.Config.Build\<close>.\<close>

definition mainStart ::
  "buildInfo \<Rightarrow> ('e, 'b) yamlCodec \<Rightarrow> (string \<Rightarrow> 'e + 'b) \<Rightarrow> ('b \<Rightarrow> Config \<Rightarrow> 'e + Config) \<Rightarrow> (string \<Rightarrow> int option) \<Rightarrow> (int \<Rightarrow> bool)
     \<Rightarrow> commandLine \<Rightarrow> mainResult" where
  "mainStart bi ya readFile unmarshal unmarshalText buildLogger cmd =
     (if cmd_version cmd then Exits 0 (printVersion bi)
      else if cmd_printConfig cmd \<noteq> '''' then
        (let (out, err) = printModes ya readFile unmarshal (cmd_flags cmd) (splitAt (CHR '','') (cmd_printConfig cmd)) ''''
         in Exits (if err = None then 0 else 1) out)
      else
        (let level = loggerLevel unmarshalText (fl_logLevel (cmd_flags cmd)) in
         if \<not> buildLogger level then Exits 1 ''''
         else case startConfig readFile unmarshal (cmd_flags cmd) of
           Inl err \<Rightarrow> Exits 1 ''''
         | Inr cfg \<Rightarrow> Starts cfg level))"

section \<open>Properties\<close>

lemma split_join: "list_all (\<lambda>w. sep \<notin> set w) ws \<Longrightarrow> ws \<noteq> [] \<Longrightarrow> splitAt sep (concat (map (\<lambda>w. w @ [sep]) (butlast ws)) @ last ws) = ws"
proof -
  have word: "splitAt sep w = [w]" if "sep \<notin> set w" for w
    using that by (induction w) auto
  have cons: "splitAt sep (w @ sep # s) = w # splitAt sep s" if "sep \<notin> set w" for w s
    using that by (induction w) auto
  show "list_all (\<lambda>w. sep \<notin> set w) ws \<Longrightarrow> ws \<noteq> [] \<Longrightarrow> ?thesis"
    by (induction ws) (auto simp: word cons)
qed

text \<open>Sections appear in the order of the modes, up to the first that fails.\<close>

lemma printModes_ok:
  assumes "\<And>mode. mode \<in> set modes \<Longrightarrow> snd (printMode ya readFile unmarshal f (TrimSpace mode)) = None"
  shows "printModes ya readFile unmarshal f modes out
    = (out @ concat (map (\<lambda>mode. fst (printMode ya readFile unmarshal f (TrimSpace mode))) modes), None)"
  using assms
proof (induction modes arbitrary: out)
  case (Cons mode modes)
  obtain y where "printMode ya readFile unmarshal f (TrimSpace mode) = (y, None)"
    using Cons.prems [of mode] by (cases "printMode ya readFile unmarshal f (TrimSpace mode)") auto
  with Cons show ?case by simp
qed simp

lemma printModes_append:
  "(\<And>mode. mode \<in> set before \<Longrightarrow> snd (printMode ya readFile unmarshal f (TrimSpace mode)) = None) \<Longrightarrow>
     printModes ya readFile unmarshal f (before @ rest) out
     = printModes ya readFile unmarshal f rest (fst (printModes ya readFile unmarshal f before out))"
proof (induction before arbitrary: out)
  case (Cons mode modes)
  obtain y where "printMode ya readFile unmarshal f (TrimSpace mode) = (y, None)"
    using Cons.prems [of mode] by (cases "printMode ya readFile unmarshal f (TrimSpace mode)") auto
  with Cons show ?case by simp
qed simp

text \<open>
  C35. What \<open>--print-config=merged\<close> shows is the configuration that the same flags start the operator
  with: whenever the operator starts, the merged section is the encoding of exactly this
  configuration, wherever it stands among other modes, and the exit code is 0.
\<close>

theorem merged_is_effective:
  assumes start: "mainStart bi ya readFile unmarshal unmarshalText buildLogger \<lparr>cmd_flags = f, cmd_version = False, cmd_printConfig = ''''\<rparr>
      = Starts cfg level"
    and yaml: "ya_Config ya cfg = Inr y" "ya_Config ya Default = Inr d" "ya_FlagOverrides ya (buildFlagOverrides f) = Inr fl"
    and modes: "modes \<noteq> []" "set modes \<subseteq> {''defaults'', ''flags'', ''merged''}"
  shows "mainStart bi ya readFile unmarshal unmarshalText buildLogger
      \<lparr>cmd_flags = f, cmd_version = False, cmd_printConfig = concat (map (\<lambda>w. w @ '','') (butlast modes)) @ last modes\<rparr>
    = Exits 0 (concat (map (\<lambda>m. heading m @ (if m = ''defaults'' then d else if m = ''flags'' then fl else y)) modes))"
proof -
  have "startConfig readFile unmarshal f = Inr cfg"
    using start by (auto simp: mainStart_def Let_def split: if_splits sum.splits)
  then obtain cfg0 where load: "Load readFile unmarshal (fl_config f) = Inr cfg0" "cfg = ApplyFlagOverrides cfg0 (buildFlagOverrides f)"
    by (auto simp: startConfig_def Let_def split: sum.splits option.splits)
  have pm: "printMode ya readFile unmarshal f (TrimSpace m)
      = (heading m @ (if m = ''defaults'' then d else if m = ''flags'' then fl else y), None)" if "m \<in> set modes" for m
  proof -
    from that modes(2) have "m = ''defaults'' \<or> m = ''flags'' \<or> m = ''merged''" by auto
    moreover from this have "TrimSpace m = m" by (auto simp: TrimSpace_def isSpace_def)
    ultimately show ?thesis using yaml load by (auto simp: printMode_def writeSection_def)
  qed
  have "list_all (\<lambda>w. CHR '','' \<notin> set w) modes" using modes(2) by (auto simp: list_all_iff)
  then have split: "splitAt (CHR '','') (concat (map (\<lambda>w. w @ '','') (butlast modes)) @ last modes) = modes"
    using split_join modes(1) by blast
  have "last modes \<in> {''defaults'', ''flags'', ''merged''}" using modes(2) last_in_set [OF modes(1)] by blast
  then have "last modes \<noteq> ''''" by auto
  moreover have "printModes ya readFile unmarshal f modes ''''
      = (concat (map (\<lambda>m. heading m @ (if m = ''defaults'' then d else if m = ''flags'' then fl else y)) modes), None)"
    using printModes_ok [of modes ya readFile unmarshal f "''''"] pm by (simp cong: map_cong)
  ultimately show ?thesis by (simp add: mainStart_def split)
qed

theorem merged_is_effective_witness:
  "mainStart \<lparr>bi_version = ''dev'', bi_gitCommit = '''', bi_buildDate = ''''\<rparr>
     \<lparr>ya_Config = (\<lambda>c. Inr (hc_Address (cfg_Health c))), ya_FlagOverrides = (\<lambda>_. Inr ''''), ya_Reencode = (\<lambda>b. Inr b)\<rparr>
     (\<lambda>_. Inl ''none'') (\<lambda>_ c. Inr c) (\<lambda>_. None) (\<lambda>_. True)
     \<lparr>cmd_flags = flagDefaults\<lparr>fl_healthAddr := '':9''\<rparr>, cmd_version = False, cmd_printConfig = ''defaults,merged''\<rparr>
   = Exits 0 (heading ''defaults'' @ '':8081'' @ heading ''merged'' @ '':9'')"
proof -
  let ?ya = "\<lparr>ya_Config = (\<lambda>c. Inr (hc_Address (cfg_Health c))), ya_FlagOverrides = (\<lambda>_. Inr ''''), ya_Reencode = (\<lambda>b. Inr b)\<rparr>"
  let ?f = "flagDefaults\<lparr>fl_healthAddr := '':9''\<rparr>"
  let ?cfg = "ApplyFlagOverrides Default (buildFlagOverrides ?f)"
  have "Validate ?cfg = None" by (rule Validate_flags [OF Default_valid]) (simp add: Default_def)
  then have s: "mainStart bi ?ya (\<lambda>_. Inl ''none'') (\<lambda>_ c. Inr c) (\<lambda>_. None) (\<lambda>_. True)
      \<lparr>cmd_flags = ?f, cmd_version = False, cmd_printConfig = ''''\<rparr> = Starts ?cfg 0" for bi
    by (simp add: mainStart_def startConfig_def Load_def flagDefaults_def loggerLevel_def)
  have h: "hc_Address (cfg_Health ?cfg) = '':9''" "hc_Address (cfg_Health Default) = '':8081''"
    by (simp_all add: ApplyFlagOverrides_def buildFlagOverrides_def Default_def Let_def)
  from merged_is_effective [OF s, of "'':9''" "'':8081''" "''''" "[''defaults'', ''merged'']"] h
  show ?thesis by simp
qed

end
