(* ===== verification/TaskClaims.thy ===== *)
theory TaskClaims
  imports TaskQueue
begin

text \<open>
  The work queue under concurrency. Workers, the janitor and the leader interleave at the level
  of single API calls, each working on a copy of a task that may be arbitrarily old. What the
  API server promises is the hypothesis \<open>api_laws\<close>: an update of the status succeeds only on the
  stored version and gives a task a larger version, and a call that reports an error may or may
  not have taken effect. \<open>refAPI\<close> is a server that keeps these laws.
\<close>

section \<open>What the API server promises\<close>

text \<open>\<open>stored w n\<close> is the task that the server of the cluster \<open>w\<close> holds under the name \<open>n\<close>.\<close>

definition updateApplied ::
  "('w \<Rightarrow> string \<Rightarrow> RemediationTask option) \<Rightarrow> RemediationTask \<Rightarrow> 'w \<Rightarrow> 'w \<Rightarrow> bool" where
  "updateApplied stored t w w' \<longleftrightarrow>
     (\<exists>cur new. stored w (tk_Name t) = Some cur \<and> tk_ResourceVersion cur = tk_ResourceVersion t
        \<and> stored w' (tk_Name t) = Some new \<and> tk_ResourceVersion cur < tk_ResourceVersion new
        \<and> tk_Status new = tk_Status t \<and> tk_Spec new = tk_Spec cur)
     \<and> (\<forall>m. m \<noteq> tk_Name t \<longrightarrow> stored w' m = stored w m)"

definition createApplied ::
  "('w \<Rightarrow> string \<Rightarrow> RemediationTask option) \<Rightarrow> RemediationTask \<Rightarrow> 'w \<Rightarrow> 'w \<Rightarrow> bool" where
  "createApplied stored t w w' \<longleftrightarrow>
     stored w (tk_Name t) = None
     \<and> (\<exists>new. stored w' (tk_Name t) = Some new \<and> phaseOf new = TaskPhasePending \<and> tk_Spec new = tk_Spec t)
     \<and> (\<forall>m. m \<noteq> tk_Name t \<longrightarrow> stored w' m = stored w m)"

definition api_laws :: "'w taskAPI \<Rightarrow> ('w \<Rightarrow> string \<Rightarrow> RemediationTask option) \<Rightarrow> bool" where
  "api_laws api stored \<longleftrightarrow>
     (\<forall>w n t. stored w n = Some t \<longrightarrow> tk_Name t = n)
     \<and> (\<forall>w n t. ta_Get api n w = Inr t \<longrightarrow> stored w n = Some t)
     \<and> (\<forall>w ts t. ta_List api w = Inr ts \<longrightarrow> t \<in> set ts \<longrightarrow> stored w (tk_Name t) = Some t)
     \<and> (\<forall>t w w'. ta_UpdateStatus api t w = (None, w') \<longrightarrow> updateApplied stored t w w')
     \<and> (\<forall>t w e w'. ta_UpdateStatus api t w = (Some e, w') \<longrightarrow> stored w' = stored w \<or> updateApplied stored t w w')
     \<and> (\<forall>t w w'. ta_Create api t w = (None, w') \<longrightarrow> createApplied stored t w w')
     \<and> (\<forall>t w e w'. ta_Create api t w = (Some e, w') \<longrightarrow> stored w' = stored w \<or> createApplied stored t w w')
     \<and> (\<forall>n w r w'. ta_Delete api n w = (r, w') \<longrightarrow>
          (\<forall>m. m \<noteq> n \<longrightarrow> stored w' m = stored w m) \<and> (stored w' n = None \<or> stored w' n = stored w n))"

lemma api_name: "api_laws api stored \<Longrightarrow> stored w n = Some t \<Longrightarrow> tk_Name t = n"
  by (simp add: api_laws_def)

lemma api_get: "api_laws api stored \<Longrightarrow> ta_Get api n w = Inr t \<Longrightarrow> stored w n = Some t"
  by (simp add: api_laws_def)

lemma api_list:
  "api_laws api stored \<Longrightarrow> ta_List api w = Inr ts \<Longrightarrow> t \<in> set ts \<Longrightarrow> stored w (tk_Name t) = Some t"
  by (simp add: api_laws_def)

lemma api_update_ok:
  "api_laws api stored \<Longrightarrow> ta_UpdateStatus api t w = (None, w') \<Longrightarrow> updateApplied stored t w w'"
  by (simp add: api_laws_def)

lemma api_update:
  "api_laws api stored \<Longrightarrow> ta_UpdateStatus api t w = (r, w') \<Longrightarrow> stored w' = stored w \<or> updateApplied stored t w w'"
  unfolding api_laws_def by (cases r) metis+

lemma api_create:
  "api_laws api stored \<Longrightarrow> ta_Create api t w = (r, w') \<Longrightarrow> stored w' = stored w \<or> createApplied stored t w w'"
  unfolding api_laws_def by (cases r) metis+

lemma api_delete:
  assumes "api_laws api stored" "ta_Delete api n w = (r, w')"
  shows "stored w' = stored w \<or> stored w' = (stored w)(n := None)"
proof -
  have "(\<forall>m. m \<noteq> n \<longrightarrow> stored w' m = stored w m) \<and> (stored w' n = None \<or> stored w' n = stored w n)"
    using assms unfolding api_laws_def by metis
  then show ?thesis by (auto simp: fun_eq_iff)
qed

text \<open>An applied change rewrites one entry of what is stored.\<close>

lemma updateApplied_upd:
  assumes "api_laws api stored" "updateApplied stored t w w'"
  obtains cur new where "stored w (tk_Name t) = Some cur" "tk_ResourceVersion cur = tk_ResourceVersion t"
    "stored w' = (stored w)(tk_Name t := Some new)" "tk_ResourceVersion cur < tk_ResourceVersion new"
    "tk_Status new = tk_Status t" "tk_Spec new = tk_Spec cur" "tk_Name new = tk_Name t"
proof -
  obtain cur new where *: "stored w (tk_Name t) = Some cur" "tk_ResourceVersion cur = tk_ResourceVersion t"
    "stored w' (tk_Name t) = Some new" "tk_ResourceVersion cur < tk_ResourceVersion new"
    "tk_Status new = tk_Status t" "tk_Spec new = tk_Spec cur" "\<forall>m. m \<noteq> tk_Name t \<longrightarrow> stored w' m = stored w m"
    using assms(2) by (auto simp: updateApplied_def)
  then have "stored w' = (stored w)(tk_Name t := Some new)" by (simp add: fun_eq_iff)
  with * api_name [OF assms(1) *(3)] show ?thesis by (intro that)
qed

lemma createApplied_upd:
  assumes "api_laws api stored" "createApplied stored t w w'"
  obtains new where "stored w (tk_Name t) = None" "stored w' = (stored w)(tk_Name t := Some new)"
    "phaseOf new = TaskPhasePending" "tk_Spec new = tk_Spec t" "tk_Name new = tk_Name t"
proof -
  obtain new where *: "stored w (tk_Name t) = None" "stored w' (tk_Name t) = Some new" "phaseOf new = TaskPhasePending"
    "tk_Spec new = tk_Spec t" "\<forall>m. m \<noteq> tk_Name t \<longrightarrow> stored w' m = stored w m"
    using assms(2) by (auto simp: createApplied_def)
  then have "stored w' = (stored w)(tk_Name t := Some new)" by (simp add: fun_eq_iff)
  with * api_name [OF assms(1) *(2)] show ?thesis by (intro that)
qed

section \<open>Interleavings\<close>

text \<open>
  The cluster, every version of a task that was ever stored, the names that were ever used, and
  the successful claims so far. A copy of a task that some process holds is one of the versions
  in \<open>qu_seen\<close>.
\<close>

record 'w queue =
  qu_world :: 'w
  qu_seen :: "RemediationTask set"
  qu_used :: "string set"
  qu_claims :: "string list"

definition observe :: "('w \<Rightarrow> string \<Rightarrow> RemediationTask option) \<Rightarrow> 'w \<Rightarrow> 'w queue \<Rightarrow> 'w queue" where
  "observe stored w' q = q\<lparr>qu_world := w', qu_seen := qu_seen q \<union> {t. \<exists>n. stored w' n = Some t}\<rparr>"

text \<open>
  Names of new tasks are fresh, because they end with the millisecond of their publication.
\<close>

inductive queue_step ::
  "'w taskAPI \<Rightarrow> ('w \<Rightarrow> string \<Rightarrow> RemediationTask option) \<Rightarrow> 'w queue \<Rightarrow> 'w queue \<Rightarrow> bool"
  for api stored where
  publish: "tk_Name t \<notin> qu_used q \<Longrightarrow> ta_Create api t (qu_world q) = (r, w') \<Longrightarrow>
     queue_step api stored q ((observe stored w' q)\<lparr>qu_used := insert (tk_Name t) (qu_used q)\<rparr>)"
| claim: "t \<in> qu_seen q \<Longrightarrow> claimable t \<Longrightarrow>
     ta_UpdateStatus api (claimStatus loc now identity t) (qu_world q) = (None, w') \<Longrightarrow>
     queue_step api stored q ((observe stored w' q)\<lparr>qu_claims := qu_claims q @ [tk_Name t]\<rparr>)"
| claim_fails: "t \<in> qu_seen q \<Longrightarrow> claimable t \<Longrightarrow>
     ta_UpdateStatus api (claimStatus loc now identity t) (qu_world q) = (Some e, w') \<Longrightarrow>
     queue_step api stored q (observe stored w' q)"
| finish: "t \<in> qu_seen q \<Longrightarrow>
     ta_UpdateStatus api (finalStatus loc now completed ok result err t) (qu_world q) = (r, w') \<Longrightarrow>
     queue_step api stored q (observe stored w' q)"
| expire: "t \<in> qu_seen q \<Longrightarrow> phaseOf t = TaskPhaseRunning \<Longrightarrow>
     ta_UpdateStatus api (expireStatus loc now deadline t) (qu_world q) = (r, w') \<Longrightarrow>
     queue_step api stored q (observe stored w' q)"
| delete: "ta_Delete api n (qu_world q) = (r, w') \<Longrightarrow> queue_step api stored q (observe stored w' q)"
| elsewhere: "stored w' = stored (qu_world q) \<Longrightarrow> queue_step api stored q (observe stored w' q)"

definition queue_init :: "('w \<Rightarrow> string \<Rightarrow> RemediationTask option) \<Rightarrow> 'w \<Rightarrow> 'w queue" where
  "queue_init stored w = \<lparr>qu_world = w, qu_seen = {}, qu_used = {}, qu_claims = []\<rparr>"

section \<open>Versions determine tasks, and a claimed task is never pending again\<close>

definition versions_ok :: "('w \<Rightarrow> string \<Rightarrow> RemediationTask option) \<Rightarrow> 'w queue \<Rightarrow> bool" where
  "versions_ok stored q \<longleftrightarrow>
     (\<forall>n cur. stored (qu_world q) n = Some cur \<longrightarrow> n \<in> qu_used q \<and> cur \<in> qu_seen q)
     \<and> (\<forall>t \<in> qu_seen q. tk_Name t \<in> qu_used q \<and>
          (\<forall>cur. stored (qu_world q) (tk_Name t) = Some cur \<longrightarrow>
             tk_ResourceVersion t < tk_ResourceVersion cur \<or> t = cur))"

definition claims_ok :: "('w \<Rightarrow> string \<Rightarrow> RemediationTask option) \<Rightarrow> 'w queue \<Rightarrow> bool" where
  "claims_ok stored q \<longleftrightarrow> distinct (qu_claims q)
     \<and> (\<forall>n \<in> set (qu_claims q). n \<in> qu_used q \<and>
          (\<forall>cur. stored (qu_world q) n = Some cur \<longrightarrow> \<not> claimable cur))"

definition queue_inv :: "('w \<Rightarrow> string \<Rightarrow> RemediationTask option) \<Rightarrow> 'w queue \<Rightarrow> bool" where
  "queue_inv stored q \<longleftrightarrow> versions_ok stored q \<and> claims_ok stored q"

lemma observe_simps [simp]:
  "qu_world (observe stored w' q) = w'" "qu_used (observe stored w' q) = qu_used q"
  "qu_claims (observe stored w' q) = qu_claims q"
  "t \<in> qu_seen (observe stored w' q) \<longleftrightarrow> t \<in> qu_seen q \<or> (\<exists>n. stored w' n = Some t)"
  by (simp_all add: observe_def)

lemma observe_subset:
  "(\<And>n t. stored w' n = Some t \<Longrightarrow> t \<in> qu_seen q) \<Longrightarrow> observe stored w' q = q\<lparr>qu_world := w'\<rparr>"
proof -
  assume "\<And>n t. stored w' n = Some t \<Longrightarrow> t \<in> qu_seen q"
  then have "qu_seen q \<union> {t. \<exists>n. stored w' n = Some t} = qu_seen q" by auto
  then show ?thesis by (simp add: observe_def)
qed

text \<open>A call that changed nothing that is stored keeps the invariant.\<close>

lemma observe_same:
  assumes "queue_inv stored q" "stored w' = stored (qu_world q)"
  shows "queue_inv stored (observe stored w' q)"
proof -
  have "observe stored w' q = q\<lparr>qu_world := w'\<rparr>"
    using assms by (intro observe_subset) (auto simp: queue_inv_def versions_ok_def)
  with assms show ?thesis by (simp add: queue_inv_def versions_ok_def claims_ok_def)
qed

text \<open>The phases that the program writes are never pending.\<close>

lemma written_phases:
  "\<not> claimable (claimStatus loc now identity t)" "\<not> claimable (finalStatus loc now c ok r e t)"
  "\<not> claimable (expireStatus loc now d t)"
  by (auto simp: claimable_def phaseOf_def claimStatus_def finalStatus_def expireStatus_def phase_defs)

lemma written_names [simp]:
  "tk_Name (claimStatus loc now identity t) = tk_Name t" "tk_Name (finalStatus loc now c ok r e t) = tk_Name t"
  "tk_Name (expireStatus loc now d t) = tk_Name t"
  "tk_ResourceVersion (claimStatus loc now identity t) = tk_ResourceVersion t"
  "tk_ResourceVersion (finalStatus loc now c ok r e t) = tk_ResourceVersion t"
  "tk_ResourceVersion (expireStatus loc now d t) = tk_ResourceVersion t"
  by (simp_all add: claimStatus_def finalStatus_def expireStatus_def)

lemma claimable_status: "tk_Status t = tk_Status t' \<Longrightarrow> claimable t = claimable t'"
  by (simp add: claimable_def phaseOf_def)

text \<open>Storing a version that is newer than every copy of its task.\<close>

lemma versions_write:
  assumes "versions_ok stored q" "stored w' = (stored (qu_world q))(n := Some new)" "tk_Name new = n"
    and "\<forall>t \<in> qu_seen q. tk_Name t = n \<longrightarrow> tk_ResourceVersion t < tk_ResourceVersion new"
    and "\<And>m x. stored (qu_world q) m = Some x \<Longrightarrow> tk_Name x = m"
  shows "versions_ok stored ((observe stored w' q)\<lparr>qu_used := insert n (qu_used q)\<rparr>)"
  unfolding versions_ok_def
proof (intro conjI allI ballI impI)
  let ?q = "(observe stored w' q)\<lparr>qu_used := insert n (qu_used q)\<rparr>"
  have seen: "x \<in> qu_seen q \<or> x = new" if "x \<in> qu_seen ?q" for x
    using that assms(1,2) by (auto simp: observe_def versions_ok_def split: if_splits)
  {
    fix m c assume "stored (qu_world ?q) m = Some c"
    with assms(1,2) show "m \<in> qu_used ?q" "c \<in> qu_seen ?q"
      by (auto simp: versions_ok_def observe_def split: if_splits)
  }
  fix x assume x: "x \<in> qu_seen ?q"
  with seen assms(1,3) show "tk_Name x \<in> qu_used ?q" by (auto simp: versions_ok_def)
  fix c assume "stored (qu_world ?q) (tk_Name x) = Some c"
  with seen [OF x] assms(1-4) show "tk_ResourceVersion x < tk_ResourceVersion c \<or> x = c"
    by (auto simp: versions_ok_def split: if_splits)
qed

lemma claims_write:
  assumes "claims_ok stored q" "stored w' = (stored (qu_world q))(n := v)"
    and "\<And>new. v = Some new \<Longrightarrow> n \<in> set (qu_claims q) \<Longrightarrow> \<not> claimable new"
  shows "claims_ok stored (observe stored w' q)"
  using assms by (auto simp: claims_ok_def)

text \<open>An applied update of a copy worked on the stored version itself.\<close>

lemma updateApplied_inv:
  assumes laws: "api_laws api stored" and inv: "queue_inv stored q" and t: "t \<in> qu_seen q"
    and u: "tk_Name u = tk_Name t" "tk_ResourceVersion u = tk_ResourceVersion t" "\<not> claimable u"
    and app: "updateApplied stored u (qu_world q) w'"
  shows "queue_inv stored (observe stored w' q)
    \<and> (claimable t \<longrightarrow> queue_inv stored ((observe stored w' q)\<lparr>qu_claims := qu_claims q @ [tk_Name t]\<rparr>))"
proof -
  obtain cur new where c: "stored (qu_world q) (tk_Name t) = Some cur" "tk_ResourceVersion cur = tk_ResourceVersion t"
      "stored w' = (stored (qu_world q))(tk_Name t := Some new)" "tk_ResourceVersion cur < tk_ResourceVersion new"
      "tk_Name new = tk_Name t" "tk_Status new = tk_Status u"
    using updateApplied_upd [OF laws app] u(1,2) by metis
  have v: "versions_ok stored q" and cl: "claims_ok stored q" using inv by (simp_all add: queue_inv_def)
  have cur: "cur = t" and used: "tk_Name t \<in> qu_used q" using v t c(1,2) by (auto simp: versions_ok_def)
  have new: "\<not> claimable new" using claimable_status [OF c(6)] u(3) by simp
  have seen: "\<forall>x \<in> qu_seen q. tk_Name x = tk_Name t \<longrightarrow> tk_ResourceVersion x < tk_ResourceVersion new"
  proof (intro ballI impI)
    fix x assume "x \<in> qu_seen q" "tk_Name x = tk_Name t"
    then have "tk_ResourceVersion x < tk_ResourceVersion cur \<or> x = cur" using v c(1) by (simp add: versions_ok_def)
    with c(4) show "tk_ResourceVersion x < tk_ResourceVersion new" by auto
  qed
  have "versions_ok stored (observe stored w' q)"
    using versions_write [OF v c(3,5) seen api_name [OF laws]] used
    by (simp add: insert_absorb observe_def versions_ok_def)
  moreover have "claims_ok stored (observe stored w' q)"
    using claims_write [OF cl c(3)] new by simp
  moreover have "tk_Name t \<notin> set (qu_claims q)" if "claimable t"
    using that cl c(1) cur by (auto simp: claims_ok_def)
  ultimately show ?thesis
    using c(3) new used by (auto simp: queue_inv_def claims_ok_def versions_ok_def observe_def)
qed

lemma update_step_inv:
  assumes "api_laws api stored" "queue_inv stored q" "t \<in> qu_seen q"
    and "tk_Name u = tk_Name t" "tk_ResourceVersion u = tk_ResourceVersion t" "\<not> claimable u"
    and "ta_UpdateStatus api u (qu_world q) = (r, w')"
  shows "queue_inv stored (observe stored w' q)"
  using api_update [OF assms(1,7)] updateApplied_inv [OF assms(1-6)] observe_same [OF assms(2)] by blast

lemma queue_step_inv:
  assumes laws: "api_laws api stored" and step: "queue_step api stored q q'" and inv: "queue_inv stored q"
  shows "queue_inv stored q'"
  using step inv
proof (cases rule: queue_step.cases)
  case (publish t r w')
  have v: "versions_ok stored q" and cl: "claims_ok stored q" using inv by (simp_all add: queue_inv_def)
  from api_create [OF laws publish(3)] show ?thesis
  proof
    assume "stored w' = stored (qu_world q)"
    with observe_same [OF inv] publish(1) show ?thesis
      by (auto simp: queue_inv_def versions_ok_def claims_ok_def)
  next
    assume "createApplied stored t (qu_world q) w'"
    then obtain new where new: "stored w' = (stored (qu_world q))(tk_Name t := Some new)" "tk_Name new = tk_Name t"
      using createApplied_upd [OF laws] by metis
    have "\<forall>x \<in> qu_seen q. tk_Name x = tk_Name t \<longrightarrow> tk_ResourceVersion x < tk_ResourceVersion new"
      using v publish(2) by (auto simp: versions_ok_def)
    from versions_write [OF v new this api_name [OF laws]] claims_write [OF cl new(1)] cl publish(1,2)
    show ?thesis by (auto simp: queue_inv_def claims_ok_def)
  qed
next
  case (claim t loc now identity w')
  have "updateApplied stored (claimStatus loc now identity t) (qu_world q) w'"
    by (rule api_update_ok [OF laws claim(4)])
  from updateApplied_inv [OF laws inv claim(2) _ _ written_phases(1) this] claim(1,3)
  show ?thesis by simp
next
  case (claim_fails t loc now identity e w')
  with update_step_inv [OF laws inv claim_fails(2) _ _ written_phases(1)] show ?thesis by simp
next
  case (finish t loc now completed ok result err r w')
  with update_step_inv [OF laws inv finish(2) _ _ written_phases(2)] show ?thesis by simp
next
  case (expire t loc now deadline r w')
  with update_step_inv [OF laws inv expire(2) _ _ written_phases(3)] show ?thesis by simp
next
  case (delete n r w')
  from api_delete [OF laws delete(2)] show ?thesis
  proof
    assume del: "stored w' = (stored (qu_world q))(n := None)"
    then have "observe stored w' q = q\<lparr>qu_world := w'\<rparr>"
      using inv by (intro observe_subset) (auto simp: queue_inv_def versions_ok_def split: if_splits)
    with del inv delete(1) show ?thesis
      by (simp add: queue_inv_def versions_ok_def claims_ok_def)
  qed (simp add: delete(1) observe_same [OF inv])
next
  case (elsewhere w')
  with observe_same [OF inv] show ?thesis by simp
qed

lemma queue_reach_inv:
  assumes "api_laws api stored" "(queue_step api stored)\<^sup>*\<^sup>* q q'" "queue_inv stored q"
  shows "queue_inv stored q'"
  using assms(2,3) by (induction rule: rtranclp_induct) (auto intro: queue_step_inv [OF assms(1)])

lemma distinct_count_list: "distinct xs \<Longrightarrow> count_list xs x \<le> 1"
  by (induction xs) (auto simp: count_list_0_iff)

lemma queue_init_inv: "(\<And>n. stored w n = None) \<Longrightarrow> queue_inv stored (queue_init stored w)"
  by (simp add: queue_inv_def queue_init_def versions_ok_def claims_ok_def)

section \<open>A server that keeps the laws\<close>

text \<open>The tasks by name and the last version given out.\<close>

type_synonym refworld = "(string, RemediationTask) gomap \<times> nat"

definition refStored :: "refworld \<Rightarrow> string \<Rightarrow> RemediationTask option" where
  "refStored w n = (case mget (fst w) n of None \<Rightarrow> None | Some t \<Rightarrow> if tk_Name t = n then Some t else None)"

definition refAPI :: "refworld taskAPI" where
  "refAPI = \<lparr>
     ta_Get = (\<lambda>n w. case refStored w n of None \<Rightarrow> Inl (NotFound n) | Some t \<Rightarrow> Inr t),
     ta_List = (\<lambda>w. Inr (List.map_filter (\<lambda>(n, t). refStored w n) (fst w))),
     ta_Create = (\<lambda>t w. case refStored w (tk_Name t) of
        Some _ \<Rightarrow> (Some (AlreadyExists (tk_Name t)), w)
      | None \<Rightarrow> (None, (mput (tk_Name t) (t\<lparr>tk_ResourceVersion := Suc (snd w), tk_Status := emptyStatus\<rparr>) (fst w), Suc (snd w)))),
     ta_UpdateStatus = (\<lambda>t w. case refStored w (tk_Name t) of
        None \<Rightarrow> (Some (NotFound (tk_Name t)), w)
      | Some cur \<Rightarrow>
          if tk_ResourceVersion cur = tk_ResourceVersion t
          then (None, (mput (tk_Name t) (cur\<lparr>tk_ResourceVersion := Suc (max (snd w) (tk_ResourceVersion cur)),
                         tk_Status := tk_Status t\<rparr>) (fst w), Suc (max (snd w) (tk_ResourceVersion cur))))
          else (Some (Conflict (tk_Name t)), w)),
     ta_Delete = (\<lambda>n w. (None, (mdel n (fst w), snd w)))\<rparr>"

lemma refStored_put:
  "refStored (mput n t m, v) k = (if k = n then (if tk_Name t = n then Some t else None) else refStored (m, v') k)"
  by (simp add: refStored_def)

lemma refStored_name: "refStored w n = Some t \<Longrightarrow> tk_Name t = n"
  by (auto simp: refStored_def split: option.splits if_splits)

lemma refAPI_laws: "api_laws refAPI refStored"
  unfolding api_laws_def
proof (intro conjI allI impI)
  fix w :: refworld and ts t
  assume "ta_List refAPI w = Inr ts" "t \<in> set ts"
  then show "refStored w (tk_Name t) = Some t"
    by (auto simp: refAPI_def List.map_filter_def split: option.splits) (metis refStored_name)
next
  fix t and w w' :: refworld
  assume "ta_UpdateStatus refAPI t w = (None, w')"
  then show "updateApplied refStored t w w'"
    by (auto simp: refAPI_def updateApplied_def refStored_put [where v' = "snd w"] dest: refStored_name
        split: option.splits if_splits)
next
  fix t and w w' :: refworld and e
  assume "ta_UpdateStatus refAPI t w = (Some e, w')"
  then show "refStored w' = refStored w \<or> updateApplied refStored t w w'"
    by (auto simp: refAPI_def split: option.splits if_splits)
next
  fix t and w w' :: refworld
  assume "ta_Create refAPI t w = (None, w')"
  then show "createApplied refStored t w w'"
    by (auto simp: refAPI_def createApplied_def refStored_put [where v' = "snd w"] phaseOf_def emptyStatus_def
        split: option.splits)
next
  fix n and w w' :: refworld and r
  assume "ta_Delete refAPI n w = (r, w')"
  then show "refStored w' n = None \<or> refStored w' n = refStored w n"
    and "\<And>m. m \<noteq> n \<Longrightarrow> refStored w' m = refStored w m"
    by (auto simp: refAPI_def refStored_def)
qed (auto simp: refAPI_def dest: refStored_name split: option.splits)

section \<open>Properties\<close>

definition sample_task :: RemediationTask where
  "sample_task = \<lparr>tk_Name = ''task-a'', tk_Namespace = ''ns'', tk_Labels = [], tk_ResourceVersion = 1, tk_CreationTimestamp = 5,
     tk_Spec = \<lparr>tsp_ScenarioID = ''S1'', tsp_ScenarioName = '''', tsp_DetectionResultID = '''', tsp_Severity = '''',
       tsp_Target = \<lparr>tt_APIVersion = '''', tt_Kind = ''Pod'', tt_Name = ''p'', tt_Namespace = ''prod''\<rparr>,
       tsp_Actions = [], tsp_Timeout = ''60s'', tsp_MaxRetries = 3\<rparr>, tk_Status = emptyStatus\<rparr>"



text \<open>
  A worker whose claim fails executes nothing: it leaves everything that is stored as the
  failed update left it, and the actions run only after the claim was accepted.
\<close>

theorem execution_needs_claim:
  assumes "ta_UpdateStatus api (claimStatus loc (tc_claim clk) identity obj) w = (r, w1)"
  shows "fst (claimAndExecute api exec srt loc clk identity obj w) = (r = None)
    \<and> (r \<noteq> None \<longrightarrow> snd (claimAndExecute api exec srt loc clk identity obj w) = w1)"
  using assms by (cases r) (auto simp: claimAndExecute_def split: prod.splits)

theorem execution_needs_claim_witness:
  "\<not> fst (claimAndExecute refAPI (\<lambda>ts r a w. ((zeroActionResult, None), w)) (sort_key ac_Order) UTC
      \<lparr>tc_claim = 1, tc_action = (\<lambda>_. (1, 1)), tc_done = 2\<rparr> ''w2'' sample_task ([], 0))"
proof -
  have "ta_UpdateStatus refAPI (claimStatus UTC (tc_claim \<lparr>tc_claim = 1, tc_action = (\<lambda>_. (1, 1)), tc_done = 2\<rparr>) ''w2'' sample_task) ([], 0)
      = (Some (NotFound ''task-a''), ([], 0))"
    by (simp add: refAPI_def refStored_def claimStatus_def sample_task_def)
  from execution_needs_claim [OF this] show ?thesis by simp
qed


text \<open>
  A worker's final status replaces whatever phase the task has by then, also \<open>Expired\<close>.
\<close>

lemma final_status_wins:
  assumes "refStored w n = Some t"
  shows "\<exists>t'. refStored (updateTaskStatus refAPI loc now n k ok ar err w) n = Some t'
    \<and> tst_Phase (tk_Status t') = (if ok then TaskPhaseCompleted else TaskPhaseFailed)"
proof -
  have "tk_Name t = n" using assms by (rule refStored_name)
  with assms show ?thesis
    by (auto simp: updateTaskStatus_def refAPI_def finalStatus_def refStored_put [where v' = "snd w"])
qed

end
