(* ===== verification/Cache.thy ===== *)
theory Cache
  imports Prelude
begin

text \<open>
  The bounded caches of \<open>internal/cache/cache.go\<close>. The linked list of \<open>container/list\<close> is the list of
  its elements, each an address with the entry it holds; the map goes from keys to addresses. The
  counters and the size are 64-bit integers that wrap around. The loop that evicts for the entry
  limit does not end when the limit is not positive, so \<open>evictForCount\<close> is a partial function and
  \<open>Set\<close> returns an option. A value has the type \<open>'v\<close>.
\<close>

section \<open>Data\<close>

type_synonym EvictionPolicy = string

definition LRU :: EvictionPolicy where "LRU = ''LRU''"
definition FIFO :: EvictionPolicy where "FIFO = ''FIFO''"

record cacheConfig =
  cc_MaxSize :: int
  cc_MaxAge :: duration
  cc_MaxEntries :: int
  cc_EvictionPolicy :: EvictionPolicy

definition DefaultConfig :: cacheConfig where
  "DefaultConfig = \<lparr>cc_MaxSize = 50 * 1024 * 1024, cc_MaxAge = 5 * Minute, cc_MaxEntries = 100000,
     cc_EvictionPolicy = LRU\<rparr>"

record 'v Entry =
  en_Key :: string
  en_Value :: 'v
  en_Size :: int
  en_CreatedAt :: time
  en_AccessedAt :: time

record 'v Cache =
  c_config :: cacheConfig
  c_items :: "(string, nat) gomap"
  c_order :: "(nat \<times> 'v Entry) list"
  c_next :: nat
  c_currentSize :: int
  c_hits :: int
  c_misses :: int
  c_evictions :: int

text \<open>\<open>c_next\<close> is the address the next element gets.\<close>

definition New :: "cacheConfig \<Rightarrow> 'v Cache" where
  "New config = \<lparr>c_config = config, c_items = [], c_order = [], c_next = 0, c_currentSize = 0,
     c_hits = 0, c_misses = 0, c_evictions = 0\<rparr>"

section \<open>The linked list\<close>

definition listRemove :: "nat \<Rightarrow> (nat \<times> 'v) list \<Rightarrow> (nat \<times> 'v) list" where
  "listRemove e xs = filter (\<lambda>p. fst p \<noteq> e) xs"

definition MoveToFront :: "nat \<Rightarrow> (nat \<times> 'v) list \<Rightarrow> (nat \<times> 'v) list" where
  "MoveToFront e xs = (case map_of xs e of None \<Rightarrow> xs | Some v \<Rightarrow> (e, v) # listRemove e xs)"

text \<open>An assignment to a field of the entry of an element.\<close>

definition modifyEntry :: "nat \<Rightarrow> ('v \<Rightarrow> 'v) \<Rightarrow> (nat \<times> 'v) list \<Rightarrow> (nat \<times> 'v) list" where
  "modifyEntry e f xs = map (\<lambda>(a, v). (a, if a = e then f v else v)) xs"

section \<open>Operations\<close>

definition removeElement :: "nat \<Rightarrow> 'v Cache \<Rightarrow> 'v Cache" where
  "removeElement elem c =
     (case map_of (c_order c) elem of
        None \<Rightarrow> c
      | Some entry \<Rightarrow> c\<lparr>c_items := mdel (en_Key entry) (c_items c), c_order := listRemove elem (c_order c),
          c_currentSize := wrap64 (c_currentSize c - en_Size entry)\<rparr>)"

text \<open>\<open>since\<close> and \<open>now\<close> are the two readings of the clock.\<close>

definition Get :: "time \<Rightarrow> time \<Rightarrow> string \<Rightarrow> 'v Cache \<Rightarrow> 'v option \<times> 'v Cache" where
  "Get since now key c =
     (case mget (c_items c) key of
        None \<Rightarrow> (None, c\<lparr>c_misses := wrap64 (c_misses c + 1)\<rparr>)
      | Some elem \<Rightarrow>
          (case map_of (c_order c) elem of
             None \<Rightarrow> (None, c)
           | Some entry \<Rightarrow>
               (if time_Sub since (en_CreatedAt entry) > cc_MaxAge (c_config c) then
                  (let c1 = removeElement elem c in (None, c1\<lparr>c_misses := wrap64 (c_misses c1 + 1)\<rparr>))
                else
                  (let c1 = (if cc_EvictionPolicy (c_config c) = LRU
                       then c\<lparr>c_order := MoveToFront elem (modifyEntry elem (\<lambda>en. en\<lparr>en_AccessedAt := now\<rparr>) (c_order c))\<rparr>
                       else c)
                   in (Some (en_Value entry), c1\<lparr>c_hits := wrap64 (c_hits c1 + 1)\<rparr>)))))"

definition evictOne :: "'v Cache \<Rightarrow> 'v Cache" where
  "evictOne c =
     (if c_order c = [] then c
      else
        (let elem = fst (if cc_EvictionPolicy (c_config c) = LRU then last (c_order c) else hd (c_order c));
             c1 = removeElement elem c
         in c1\<lparr>c_evictions := wrap64 (c_evictions c1 + 1)\<rparr>))"

lemma listRemove_id: "e \<notin> fst ` set xs \<Longrightarrow> listRemove e xs = xs"
  by (auto simp: listRemove_def filter_id_conv)

lemma removeElement_frame [simp]:
  "c_config (removeElement e c) = c_config c" "c_next (removeElement e c) = c_next c"
  "c_hits (removeElement e c) = c_hits c" "c_misses (removeElement e c) = c_misses c"
  "c_evictions (removeElement e c) = c_evictions c" "c_order (removeElement e c) = listRemove e (c_order c)"
  by (auto simp: removeElement_def listRemove_id map_of_eq_None_iff split: option.splits)

lemma evictOne_frame [simp]: "c_config (evictOne c) = c_config c" "c_next (evictOne c) = c_next c"
  by (simp_all add: evictOne_def Let_def)

lemma listRemove_shorter: "p \<in> set xs \<Longrightarrow> length (listRemove (fst p) xs) < length xs"
  by (auto simp: listRemove_def intro: length_filter_less)

lemma evictOne_shorter: "c_order c \<noteq> [] \<Longrightarrow> length (c_order (evictOne c)) < length (c_order c)"
  by (auto simp: evictOne_def Let_def intro: listRemove_shorter)

text \<open>The two loops of \<open>evictIfNeeded\<close>.\<close>

function evictForSize :: "int \<Rightarrow> 'v Cache \<Rightarrow> 'v Cache" where
  "evictForSize newSize c =
     (if wrap64 (c_currentSize c + newSize) > cc_MaxSize (c_config c) \<and> length (c_order c) > 0
      then evictForSize newSize (evictOne c) else c)"
  by pat_completeness auto

termination
  by (relation "measure (\<lambda>(n, c). length (c_order c))") (auto simp: evictOne_shorter)

declare evictForSize.simps [simp del]

partial_function (option) evictForCount :: "'v Cache \<Rightarrow> 'v Cache option" where
  "evictForCount c =
     (if int (length (c_order c)) \<ge> cc_MaxEntries (c_config c) then evictForCount (evictOne c) else Some c)"

definition evictIfNeeded :: "int \<Rightarrow> 'v Cache \<Rightarrow> 'v Cache option" where
  "evictIfNeeded newSize c = evictForCount (evictForSize newSize c)"

definition Set :: "time \<Rightarrow> string \<Rightarrow> 'v \<Rightarrow> int \<Rightarrow> 'v Cache \<Rightarrow> 'v Cache option" where
  "Set now key val sz c =
     (case mget (c_items c) key of
        Some elem \<Rightarrow>
          (case map_of (c_order c) elem of
             None \<Rightarrow> Some c
           | Some entry \<Rightarrow>
               (let order = modifyEntry elem (\<lambda>en. en\<lparr>en_Value := val, en_Size := sz, en_AccessedAt := now\<rparr>) (c_order c)
                in Some (c\<lparr>c_currentSize := wrap64 (wrap64 (c_currentSize c - en_Size entry) + sz),
                     c_order := (if cc_EvictionPolicy (c_config c) = LRU then MoveToFront elem order else order)\<rparr>)))
      | None \<Rightarrow>
          (case evictIfNeeded sz c of
             None \<Rightarrow> None
           | Some c1 \<Rightarrow>
               (let elem = c_next c1;
                    entry = \<lparr>en_Key = key, en_Value = val, en_Size = sz, en_CreatedAt = now, en_AccessedAt = now\<rparr>
                in Some (c1\<lparr>c_order := (if cc_EvictionPolicy (c_config c1) = LRU then (elem, entry) # c_order c1
                       else c_order c1 @ [(elem, entry)]),
                     c_next := Suc elem, c_items := mput key elem (c_items c1),
                     c_currentSize := wrap64 (c_currentSize c1 + sz)\<rparr>))))"

definition Delete :: "string \<Rightarrow> 'v Cache \<Rightarrow> 'v Cache" where
  "Delete key c = (case mget (c_items c) key of Some elem \<Rightarrow> removeElement elem c | None \<Rightarrow> c)"

text \<open>The loop of \<open>Cleanup\<close>; the next element is saved before the current one is removed.\<close>

fun cleanupLoop :: "time \<Rightarrow> (nat \<times> 'v Entry) list \<Rightarrow> 'v Cache \<Rightarrow> int \<Rightarrow> 'v Cache \<times> int" where
  "cleanupLoop now [] c cleaned = (c, cleaned)"
| "cleanupLoop now ((elem, entry) # rest) c cleaned =
     (if time_Sub now (en_CreatedAt entry) > cc_MaxAge (c_config c)
      then cleanupLoop now rest (removeElement elem c) (cleaned + 1)
      else cleanupLoop now rest c cleaned)"

definition Cleanup :: "time \<Rightarrow> 'v Cache \<Rightarrow> 'v Cache \<times> int" where
  "Cleanup now c = cleanupLoop now (c_order c) c 0"

definition Size :: "'v Cache \<Rightarrow> int" where
  "Size c = c_currentSize c"

definition Len :: "'v Cache \<Rightarrow> nat" where
  "Len c = length (c_items c)"

record Stats =
  st_Size :: int
  st_MaxSize :: int
  st_Entries :: int
  st_MaxEntries :: int
  st_Hits :: int
  st_Misses :: int
  st_Evictions :: int

definition CacheStats :: "'v Cache \<Rightarrow> Stats" where
  "CacheStats c = \<lparr>st_Size = c_currentSize c, st_MaxSize = cc_MaxSize (c_config c),
     st_Entries = int (length (c_items c)), st_MaxEntries = cc_MaxEntries (c_config c), st_Hits = c_hits c,
     st_Misses = c_misses c, st_Evictions = c_evictions c\<rparr>"

text \<open>The quotient of two finite floats whose divisor is not zero.\<close>

fun f64_quot :: "float64 \<Rightarrow> float64 \<Rightarrow> float64" where
  "f64_quot (Fin a) (Fin b) = f64_round (a / b)"
| "f64_quot _ _ = NaN"

definition HitRate :: "Stats \<Rightarrow> float64" where
  "HitRate s =
     (let total = wrap64 (st_Hits s + st_Misses s) in
      if total = 0 then Fin 0 else f64_quot (f64_round (of_int (st_Hits s))) (f64_round (of_int total)))"

definition UsagePercent :: "Stats \<Rightarrow> float64" where
  "UsagePercent s =
     (if st_MaxSize s = 0 then Fin 0
      else f64_mul (f64_quot (f64_round (of_int (st_Size s))) (f64_round (of_int (st_MaxSize s)))) (Fin 100))"

function shrinkLoop :: "'v Cache \<Rightarrow> 'v Cache" where
  "shrinkLoop c =
     (if c_currentSize c > cc_MaxSize (c_config c) \<and> length (c_order c) > 0 then shrinkLoop (evictOne c) else c)"
  by pat_completeness auto

termination
  by (relation "measure (\<lambda>c. length (c_order c))") (auto simp: evictOne_shorter)

declare shrinkLoop.simps [simp del]

definition ReduceSize :: "int \<Rightarrow> 'v Cache \<Rightarrow> 'v Cache" where
  "ReduceSize percent c =
     (let reduction = wrap64 (cc_MaxSize (c_config c) * percent) sdiv 100
      in shrinkLoop (c\<lparr>c_config := (c_config c)\<lparr>cc_MaxSize := wrap64 (cc_MaxSize (c_config c) - reduction)\<rparr>\<rparr>))"

definition Clear :: "'v Cache \<Rightarrow> 'v Cache" where
  "Clear c = c\<lparr>c_items := [], c_order := [], c_currentSize := 0\<rparr>"

section \<open>The invariant\<close>

text \<open>
  Addresses are distinct and below the next one, the map leads from each key to the one element
  that holds it, and the size is the sum of the sizes of the entries as a 64-bit integer.
\<close>

definition sizes :: "(nat \<times> 'v Entry) list \<Rightarrow> int" where
  "sizes xs = sum_list (map (\<lambda>p. en_Size (snd p)) xs)"

definition cache_inv :: "'v Cache \<Rightarrow> bool" where
  "cache_inv c \<longleftrightarrow> distinct (map fst (c_order c)) \<and> (\<forall>p \<in> set (c_order c). fst p < c_next c) \<and> map_wf (c_items c)
     \<and> (\<forall>k e. mget (c_items c) k = Some e \<longleftrightarrow> (\<exists>en. (e, en) \<in> set (c_order c) \<and> en_Key en = k))
     \<and> c_currentSize c = wrap64 (sizes (c_order c))"

lemma cache_inv_New [simp]: "cache_inv (New cfg)"
  by (simp add: cache_inv_def New_def sizes_def wrap64_def)

lemma sizes_simps [simp]: "sizes [] = 0" "sizes (p # xs) = en_Size (snd p) + sizes xs" "sizes (xs @ ys) = sizes xs + sizes ys"
  by (simp_all add: sizes_def)

lemma sizes_listRemove:
  "distinct (map fst xs) \<Longrightarrow> (e, en) \<in> set xs \<Longrightarrow> sizes (listRemove e xs) = sizes xs - en_Size en"
proof (induction xs)
  case (Cons p xs)
  show ?case
  proof (cases "fst p = e")
    case True
    with Cons.prems have "e \<notin> fst ` set xs" by auto
    moreover from this Cons.prems True have "en = snd p" by (cases p) (auto simp: image_iff)
    ultimately show ?thesis using True listRemove_id [of e xs] by (simp add: listRemove_def)
  next
    case False
    with Cons show ?thesis by (auto simp: listRemove_def)
  qed
qed simp

lemma inv_entry: "cache_inv c \<Longrightarrow> map_of (c_order c) e = Some en \<longleftrightarrow> (e, en) \<in> set (c_order c)"
  by (simp add: cache_inv_def)

lemma inv_key:
  "cache_inv c \<Longrightarrow> mget (c_items c) k = Some e \<longleftrightarrow> (\<exists>en. map_of (c_order c) e = Some en \<and> en_Key en = k)"
  by (simp add: cache_inv_def)

lemma inv_same_key:
  "cache_inv c \<Longrightarrow> (e, en) \<in> set (c_order c) \<Longrightarrow> (e', en') \<in> set (c_order c) \<Longrightarrow> en_Key en = en_Key en' \<Longrightarrow> e = e'"
  by (metis cache_inv_def option.inject)

lemma inv_keys_distinct:
  assumes "cache_inv c"
  shows "distinct (map (\<lambda>p. en_Key (snd p)) (c_order c))"
proof -
  have "inj_on (\<lambda>p. en_Key (snd p)) (set (c_order c))"
  proof (rule inj_onI)
    fix p q
    assume pq: "p \<in> set (c_order c)" "q \<in> set (c_order c)" "en_Key (snd p) = en_Key (snd q)"
    then have "fst p = fst q"
      using inv_same_key [OF assms, of "fst p" "snd p" "fst q" "snd q"] by simp
    moreover have "snd p = snd q"
      using inv_entry [OF assms] pq(1, 2) calculation by (metis option.inject prod.collapse)
    ultimately show "p = q" by (rule prod_eqI)
  qed
  moreover have "distinct (c_order c)" using assms by (simp add: cache_inv_def distinct_map)
  ultimately show ?thesis by (simp add: distinct_map)
qed

lemma inv_items_keys:
  assumes "cache_inv c"
  shows "set (map fst (c_items c)) = set (map (\<lambda>p. en_Key (snd p)) (c_order c))"
proof (rule set_eqI)
  fix k
  have "k \<in> set (map fst (c_items c)) \<longleftrightarrow> (\<exists>e. mget (c_items c) k = Some e)"
    by (auto simp: image_iff) (metis weak_map_of_SomeI fst_conv surj_pair, metis map_of_SomeD fst_conv)
  also have "\<dots> \<longleftrightarrow> (\<exists>e en. (e, en) \<in> set (c_order c) \<and> en_Key en = k)"
    using assms by (simp add: cache_inv_def)
  also have "\<dots> \<longleftrightarrow> k \<in> set (map (\<lambda>p. en_Key (snd p)) (c_order c))" by force
  finally show "k \<in> set (map fst (c_items c)) \<longleftrightarrow> k \<in> set (map (\<lambda>p. en_Key (snd p)) (c_order c))" .
qed

lemma Len_order:
  assumes "cache_inv c"
  shows "Len c = length (c_order c)"
proof -
  have "distinct (map fst (c_items c))" using assms by (simp add: cache_inv_def map_wf_def)
  from distinct_card [OF this] distinct_card [OF inv_keys_distinct [OF assms]] inv_items_keys [OF assms]
  show ?thesis by (simp add: Len_def)
qed

section \<open>Every operation keeps the invariant\<close>

lemma inv_removeElement:
  assumes "cache_inv c"
  shows "cache_inv (removeElement e c)"
proof (cases "map_of (c_order c) e")
  case None
  then show ?thesis using assms by (simp add: removeElement_def)
next
  case (Some en)
  then have mem: "(e, en) \<in> set (c_order c)" using assms inv_entry by blast
  have dist: "distinct (map fst (c_order c))" using assms by (simp add: cache_inv_def)
  have keys: "mget (mdel (en_Key en) (c_items c)) k = Some a
      \<longleftrightarrow> (\<exists>x. (a, x) \<in> set (listRemove e (c_order c)) \<and> en_Key x = k)" for k a
  proof -
    have "(a, x) \<in> set (c_order c) \<Longrightarrow> a \<noteq> e \<Longrightarrow> en_Key x \<noteq> en_Key en" for x
      using inv_same_key [OF assms mem] by metis
    moreover have "(e, x) \<in> set (c_order c) \<Longrightarrow> x = en" for x
      using Some assms inv_entry by force
    ultimately show ?thesis
      using assms by (auto simp: cache_inv_def listRemove_def)
  qed
  show ?thesis
    using assms Some keys sizes_listRemove [OF dist mem]
    by (auto simp: cache_inv_def removeElement_def listRemove_def distinct_map_filter)
qed

lemma inv_counters [simp]:
  "cache_inv (c\<lparr>c_hits := n\<rparr>) = cache_inv c" "cache_inv (c\<lparr>c_misses := n\<rparr>) = cache_inv c"
  "cache_inv (c\<lparr>c_evictions := n\<rparr>) = cache_inv c" "cache_inv (c\<lparr>c_config := f\<rparr>) = cache_inv c"
  by (simp_all add: cache_inv_def)

lemma inv_evictOne: "cache_inv c \<Longrightarrow> cache_inv (evictOne c)"
  by (simp add: evictOne_def Let_def inv_removeElement)

lemma evictOne_order:
  assumes "cache_inv c" "c_order c \<noteq> []"
  shows "c_order (evictOne c) = (if cc_EvictionPolicy (c_config c) = LRU then butlast (c_order c) else tl (c_order c))"
proof -
  have d: "distinct (map fst (c_order c))" using assms by (simp add: cache_inv_def)
  have "listRemove (fst (last xs)) xs = butlast xs \<and> listRemove (fst (hd xs)) xs = tl xs"
    if "distinct (map fst xs)" "xs \<noteq> []" for xs :: "(nat \<times> 'a Entry) list"
  proof -
    have "listRemove (fst p) (ys @ [p]) = ys" if "distinct (map fst (ys @ [p]))" for p and ys :: "(nat \<times> 'a Entry) list"
      using that listRemove_id [of "fst p" ys] by (simp add: listRemove_def)
    from this [of "butlast xs" "last xs"] that have "listRemove (fst (last xs)) (butlast xs @ [last xs]) = butlast xs"
      by simp
    moreover have "listRemove (fst (hd xs)) (hd xs # tl xs) = tl xs"
      using that by (cases xs) (auto simp: listRemove_def filter_id_conv rev_image_eqI)
    ultimately show ?thesis using that by simp
  qed
  from this [OF d assms(2)] assms(2) show ?thesis by (simp add: evictOne_def Let_def)
qed

section \<open>What the eviction loops keep\<close>

text \<open>The \<open>n\<close> entries that are evicted last: the front of an LRU list, the back of a FIFO list.\<close>

definition kept :: "'v Cache \<Rightarrow> nat \<Rightarrow> (nat \<times> 'v Entry) list" where
  "kept c n = (if cc_EvictionPolicy (c_config c) = LRU then take n (c_order c)
     else drop (length (c_order c) - n) (c_order c))"

lemma kept_all: "kept c (length (c_order c)) = c_order c"
  by (simp add: kept_def)

lemma length_kept: "n \<le> length (c_order c) \<Longrightarrow> length (kept c n) = n"
  by (simp add: kept_def)

lemma kept_subset: "set (kept c n) \<subseteq> set (c_order c)"
  by (auto simp: kept_def dest: in_set_takeD in_set_dropD)

lemma evictOne_kept:
  assumes "cache_inv c" "c_order c \<noteq> []"
  shows "length (c_order (evictOne c)) = length (c_order c) - 1"
    and "m \<le> length (c_order c) - 1 \<Longrightarrow> kept (evictOne c) m = kept c m"
proof -
  show "length (c_order (evictOne c)) = length (c_order c) - 1"
    using evictOne_order [OF assms] by simp
  show "kept (evictOne c) m = kept c m" if "m \<le> length (c_order c) - 1"
  proof (cases "cc_EvictionPolicy (c_config c) = LRU")
    case True
    then show ?thesis
      using evictOne_order [OF assms] that assms(2) by (simp add: kept_def butlast_conv_take take_take min_absorb1)
  next
    case False
    have "Suc (length (c_order c) - 1 - m) = length (c_order c) - m"
      using that assms(2) by (cases "c_order c") auto
    with False show ?thesis
      using evictOne_order [OF assms] by (simp add: kept_def drop_Suc [symmetric])
  qed
qed

definition fits :: "int \<Rightarrow> 'v Cache \<Rightarrow> nat \<Rightarrow> bool" where
  "fits sz c n \<longleftrightarrow> wrap64 (sizes (kept c n) + sz) \<le> cc_MaxSize (c_config c)"

lemma fits_all: "cache_inv c \<Longrightarrow> wrap64 (c_currentSize c + sz) \<le> cc_MaxSize (c_config c) \<longleftrightarrow> fits sz c (length (c_order c))"
  by (simp add: fits_def kept_all cache_inv_def)

lemma evictForSize_kept:
  assumes "cache_inv c"
  obtains n where "n \<le> length (c_order c)" "cache_inv (evictForSize sz c)"
    "c_config (evictForSize sz c) = c_config c" "c_next (evictForSize sz c) = c_next c"
    "c_order (evictForSize sz c) = kept c n" "n = 0 \<or> fits sz c n"
    "\<And>m. n < m \<Longrightarrow> m \<le> length (c_order c) \<Longrightarrow> \<not> fits sz c m"
  using assms
proof (induction sz c arbitrary: thesis rule: evictForSize.induct)
  case (1 sz c)
  show ?case
  proof (cases "fits sz c (length (c_order c)) \<or> c_order c = []")
    case True
    then have "evictForSize sz c = c"
      using fits_all [OF 1(3), of sz] by (subst evictForSize.simps) auto
    then show ?thesis using True 1(2) [of "length (c_order c)"] 1(3) by (auto simp: kept_all)
  next
    case False
    have step: "wrap64 (c_currentSize c + sz) > cc_MaxSize (c_config c) \<and> length (c_order c) > 0"
      using False fits_all [OF 1(3), of sz] by auto
    then have eq: "evictForSize sz c = evictForSize sz (evictOne c)"
      by (subst evictForSize.simps) simp
    have ne: "c_order c \<noteq> []" using False by simp
    note ev = evictOne_kept [OF 1(3) ne]
    have same: "fits sz (evictOne c) m = fits sz c m" if "m \<le> length (c_order c) - 1" for m
      using ev(2) [OF that] by (simp add: fits_def)
    show ?thesis
    proof (rule 1(1) [OF step _ inv_evictOne [OF 1(3)]])
      fix n
      assume n: "n \<le> length (c_order (evictOne c))" "cache_inv (evictForSize sz (evictOne c))"
        "c_config (evictForSize sz (evictOne c)) = c_config (evictOne c)"
        "c_next (evictForSize sz (evictOne c)) = c_next (evictOne c)"
        "c_order (evictForSize sz (evictOne c)) = kept (evictOne c) n" "n = 0 \<or> fits sz (evictOne c) n"
        "\<And>m. n < m \<Longrightarrow> m \<le> length (c_order (evictOne c)) \<Longrightarrow> \<not> fits sz (evictOne c) m"
      have "\<not> fits sz c m" if "n < m" "m \<le> length (c_order c)" for m
        using that n(7) [of m] same [of m] ev(1) False by (cases "m = length (c_order c)") auto
      then show ?thesis
        using n ev(1) ev(2) [of n] same [of n] by (intro 1(2) [of n]) (auto simp: eq)
    qed
  qed
qed

lemma evictForCount_kept:
  assumes "cache_inv c" "0 < cc_MaxEntries (c_config c)"
  shows "\<exists>c'. evictForCount c = Some c' \<and> cache_inv c' \<and> c_config c' = c_config c \<and> c_next c' = c_next c
    \<and> c_order c' = kept c (min (length (c_order c)) (nat (cc_MaxEntries (c_config c) - 1)))"
  using assms
proof (induction "length (c_order c)" arbitrary: c rule: less_induct)
  case less
  show ?case
  proof (cases "int (length (c_order c)) \<ge> cc_MaxEntries (c_config c)")
    case False
    then have "evictForCount c = Some c" by (subst evictForCount.simps) simp
    moreover have "min (length (c_order c)) (nat (cc_MaxEntries (c_config c) - 1)) = length (c_order c)"
      using False by auto
    ultimately show ?thesis using less by (simp add: kept_all)
  next
    case True
    then have eq: "evictForCount c = evictForCount (evictOne c)" by (subst evictForCount.simps) simp
    have ne: "c_order c \<noteq> []" using True less.prems(2) by auto
    note ev = evictOne_kept [OF less.prems(1) ne]
    have "length (c_order (evictOne c)) < length (c_order c)" by (rule evictOne_shorter [OF ne])
    from less.hyps [OF this inv_evictOne [OF less.prems(1)]] less.prems(2)
    obtain c' where c': "evictForCount (evictOne c) = Some c'" "cache_inv c'" "c_config c' = c_config c" "c_next c' = c_next c"
      "c_order c' = kept (evictOne c) (min (length (c_order (evictOne c))) (nat (cc_MaxEntries (c_config c) - 1)))"
      by auto
    have "min (length (c_order (evictOne c))) (nat (cc_MaxEntries (c_config c) - 1))
        = min (length (c_order c)) (nat (cc_MaxEntries (c_config c) - 1))"
      using True ev(1) less.prems(2) by auto
    then show ?thesis using c' eq ev(2) [of "min (length (c_order c)) (nat (cc_MaxEntries (c_config c) - 1))"] True
      by auto
  qed
qed

text \<open>With no positive limit the second loop never ends.\<close>

lemma evictForCount_diverges:
  assumes "cc_MaxEntries (c_config c) \<le> 0"
  shows "evictForCount c = None"
proof -
  have "int (length (c_order c')) < cc_MaxEntries (c_config c)" if "evictForCount c = Some c'" for c'
    by (rule evictForCount.raw_induct [OF _ that]) (force split: if_splits)
  then show ?thesis using assms by (cases "evictForCount c") force+
qed

section \<open>Reads and writes\<close>

text \<open>The entry a key leads to.\<close>

definition entryOf :: "'v Cache \<Rightarrow> string \<Rightarrow> 'v Entry option" where
  "entryOf c key = (case mget (c_items c) key of None \<Rightarrow> None | Some elem \<Rightarrow> map_of (c_order c) elem)"

lemma fst_modifyEntry [simp]: "map fst (modifyEntry e f xs) = map fst xs"
  by (simp add: modifyEntry_def case_prod_unfold)

lemma set_modifyEntry: "(a, y) \<in> set (modifyEntry e f xs) \<longleftrightarrow> (\<exists>x. (a, x) \<in> set xs \<and> y = (if a = e then f x else x))"
  by (force simp: modifyEntry_def)

lemma map_of_modifyEntry: "map_of (modifyEntry e f xs) a = (if a = e then map_option f (map_of xs a) else map_of xs a)"
  by (induction xs) (auto simp: modifyEntry_def)

lemma sizes_modifyEntry:
  "distinct (map fst xs) \<Longrightarrow> (e, en) \<in> set xs \<Longrightarrow> sizes (modifyEntry e f xs) = sizes xs - en_Size en + en_Size (f en)"
proof (induction xs)
  case (Cons p xs)
  obtain a x where p: "p = (a, x)" by force
  show ?case
  proof (cases "a = e")
    case True
    with Cons.prems p have "e \<notin> fst ` set xs" "en = x" by (auto simp: image_iff)
    then have "modifyEntry e f xs = xs"
      unfolding modifyEntry_def by (intro map_idI) force
    with True p \<open>en = x\<close> show ?thesis by (simp add: modifyEntry_def)
  next
    case False
    with Cons p show ?thesis by (auto simp: modifyEntry_def)
  qed
qed simp

lemma MoveToFront_facts:
  assumes "distinct (map fst xs)" "(e, v) \<in> set xs"
  shows "MoveToFront e xs = (e, v) # listRemove e xs" "set (MoveToFront e xs) = set xs"
    "distinct (map fst (MoveToFront e xs))"
proof -
  from assms show eq: "MoveToFront e xs = (e, v) # listRemove e xs" by (simp add: MoveToFront_def)
  have uniq: "snd p = v" if "p \<in> set xs" "fst p = e" for p
    using assms that by (metis map_of_eq_Some_iff option.inject prod.collapse)
  show "set (MoveToFront e xs) = set xs"
  proof (rule set_eqI)
    fix p
    show "p \<in> set (MoveToFront e xs) \<longleftrightarrow> p \<in> set xs"
      using assms(2) uniq [of p] by (cases p) (auto simp: eq listRemove_def)
  qed
  show "distinct (map fst (MoveToFront e xs))"
    using assms by (simp add: eq listRemove_def distinct_map_filter) auto
qed

lemma inv_reorder:
  assumes "cache_inv c" "distinct (map fst xs)" "sz = wrap64 (sizes xs)"
    and "\<And>a k. (\<exists>x. (a, x) \<in> set xs \<and> en_Key x = k) \<longleftrightarrow> (\<exists>x. (a, x) \<in> set (c_order c) \<and> en_Key x = k)"
  shows "cache_inv (c\<lparr>c_order := xs, c_currentSize := sz\<rparr>)"
proof -
  have "fst p < c_next c" if "p \<in> set xs" for p
    using assms(4) [of "fst p" "en_Key (snd p)"] that assms(1) by (force simp: cache_inv_def)
  with assms show ?thesis by (simp add: cache_inv_def)
qed

text \<open>Writing an entry in place, and moving it to the front for LRU.\<close>

definition touched :: "'v Cache \<Rightarrow> nat \<Rightarrow> ('v Entry \<Rightarrow> 'v Entry) \<Rightarrow> (nat \<times> 'v Entry) list" where
  "touched c e f = (let xs = modifyEntry e f (c_order c)
     in if cc_EvictionPolicy (c_config c) = LRU then MoveToFront e xs else xs)"

lemma touched_facts:
  assumes "cache_inv c" "map_of (c_order c) e = Some en" "en_Key (f en) = en_Key en"
  shows "cache_inv (c\<lparr>c_order := touched c e f, c_currentSize := wrap64 (c_currentSize c - en_Size en + en_Size (f en))\<rparr>)"
    and "map_of (touched c e f) a = (if a = e then Some (f en) else map_of (c_order c) a)"
    and "length (touched c e f) = length (c_order c)"
proof -
  let ?xs = "modifyEntry e f (c_order c)"
  have d: "distinct (map fst (c_order c))" using assms by (simp add: cache_inv_def)
  have mem: "(e, en) \<in> set (c_order c)" using assms d by simp
  have mem': "(e, f en) \<in> set ?xs" using mem by (auto simp: set_modifyEntry)
  have d': "distinct (map fst ?xs)" using d by simp
  note mtf = MoveToFront_facts [OF d' mem']
  have set_eq: "set (touched c e f) = set ?xs" and dist: "distinct (map fst (touched c e f))"
    using mtf d' by (simp_all add: touched_def Let_def)
  have "sizes (MoveToFront e ?xs) = sizes ?xs"
    using sizes_listRemove [OF d' mem'] by (simp add: mtf(1))
  then have sz: "sizes (touched c e f) = sizes (c_order c) - en_Size en + en_Size (f en)"
    using sizes_modifyEntry [OF d mem] by (simp add: touched_def Let_def)
  have "wrap64 (c_currentSize c - en_Size en + en_Size (f en)) = wrap64 (sizes (touched c e f))"
    using assms(1) wrap64_add_left [of "sizes (c_order c)" "- en_Size en + en_Size (f en)"]
    by (simp add: sz cache_inv_def algebra_simps)
  moreover have "(\<exists>y. (a, y) \<in> set (touched c e f) \<and> en_Key y = k) \<longleftrightarrow> (\<exists>x. (a, x) \<in> set (c_order c) \<and> en_Key x = k)" for a k
    using d mem assms(3) by (auto simp: set_eq set_modifyEntry) (metis map_of_eq_Some_iff option.inject)+
  ultimately show "cache_inv (c\<lparr>c_order := touched c e f, c_currentSize := wrap64 (c_currentSize c - en_Size en + en_Size (f en))\<rparr>)"
    using assms(1) dist by (intro inv_reorder) auto
  have "map_of (touched c e f) a = map_of ?xs a"
    using dist d' set_eq by (metis map_of_inject_set)
  then show "map_of (touched c e f) a = (if a = e then Some (f en) else map_of (c_order c) a)"
    using assms(2) by (simp add: map_of_modifyEntry)
  show "length (touched c e f) = length (c_order c)"
    using distinct_card [OF dist] distinct_card [OF d'] set_eq by (metis length_map fst_modifyEntry list.set_map)
qed

lemma inv_currentSize_id: "cache_inv c \<Longrightarrow> c\<lparr>c_order := xs, c_currentSize := wrap64 (c_currentSize c)\<rparr> = c\<lparr>c_order := xs\<rparr>"
  by (simp add: cache_inv_def)

lemma inv_Get:
  assumes "cache_inv c"
  shows "cache_inv (snd (Get since now key c))" "length (c_order (snd (Get since now key c))) \<le> length (c_order c)"
    "c_config (snd (Get since now key c)) = c_config c"
proof -
  let ?f = "\<lambda>en. en\<lparr>en_AccessedAt := now\<rparr>"
  have t: "cache_inv (c\<lparr>c_order := MoveToFront e (modifyEntry e ?f (c_order c))\<rparr>)
      \<and> length (MoveToFront e (modifyEntry e ?f (c_order c))) = length (c_order c)"
    if "map_of (c_order c) e = Some en" "cc_EvictionPolicy (c_config c) = LRU" for e en
    using touched_facts(1, 3) [OF assms that(1), of ?f] that(2) inv_currentSize_id [OF assms]
    by (simp add: touched_def Let_def)
  show "cache_inv (snd (Get since now key c))" "length (c_order (snd (Get since now key c))) \<le> length (c_order c)"
    "c_config (snd (Get since now key c)) = c_config c"
    using assms t by (auto simp: Get_def Let_def inv_removeElement listRemove_def split: option.splits)
qed

lemma Set_existing:
  assumes "cache_inv c" "entryOf c key = Some en"
  shows "\<exists>c'. Set now key val sz c = Some c' \<and> cache_inv c' \<and> c_config c' = c_config c \<and> c_items c' = c_items c
    \<and> length (c_order c') = length (c_order c)
    \<and> entryOf c' k = (if k = key then Some (en\<lparr>en_Value := val, en_Size := sz, en_AccessedAt := now\<rparr>) else entryOf c k)"
proof -
  let ?f = "\<lambda>en. en\<lparr>en_Value := val, en_Size := sz, en_AccessedAt := now\<rparr>"
  obtain e where e: "mget (c_items c) key = Some e" "map_of (c_order c) e = Some en"
    using assms(2) by (auto simp: entryOf_def split: option.splits)
  note t = touched_facts [OF assms(1) e(2), of ?f]
  have "Set now key val sz c = Some (c\<lparr>c_order := touched c e ?f, c_currentSize := wrap64 (c_currentSize c - en_Size en + sz)\<rparr>)"
    using e by (simp add: Set_def touched_def Let_def)
  moreover have "mget (c_items c) k = Some e \<longleftrightarrow> k = key"
    using e inv_key [OF assms(1)] by (metis option.inject)
  ultimately show ?thesis
    using t(1, 3) e by (auto simp: entryOf_def t(2) split: option.splits)
qed

lemma Set_new:
  assumes "cache_inv c" "mget (c_items c) key = None" "0 < cc_MaxEntries (c_config c)"
  obtains n c' where "Set now key val sz c = Some c'" "cache_inv c'" "c_config c' = c_config c" "n \<le> length (c_order c)"
    "int n < cc_MaxEntries (c_config c)" "\<exists>i \<ge> n. i \<le> length (c_order c) \<and> (i = 0 \<or> fits sz c i)"
    "\<And>m. n < m \<Longrightarrow> m \<le> length (c_order c) \<Longrightarrow> cc_MaxEntries (c_config c) \<le> int m \<or> \<not> fits sz c m"
    "c_order c' = (let p = (c_next c, \<lparr>en_Key = key, en_Value = val, en_Size = sz, en_CreatedAt = now, en_AccessedAt = now\<rparr>)
       in if cc_EvictionPolicy (c_config c) = LRU then p # kept c n else kept c n @ [p])"
    "c_currentSize c' = wrap64 (sizes (kept c n) + sz)"
proof -
  let ?p = "(c_next c, \<lparr>en_Key = key, en_Value = val, en_Size = sz, en_CreatedAt = now, en_AccessedAt = now\<rparr>)"
  obtain i where i: "i \<le> length (c_order c)" "cache_inv (evictForSize sz c)"
    "c_config (evictForSize sz c) = c_config c" "c_next (evictForSize sz c) = c_next c"
    "c_order (evictForSize sz c) = kept c i" "i = 0 \<or> fits sz c i"
    "\<And>m. i < m \<Longrightarrow> m \<le> length (c_order c) \<Longrightarrow> \<not> fits sz c m"
    by (rule evictForSize_kept [OF assms(1), of sz]) blast
  have pos: "0 < cc_MaxEntries (c_config (evictForSize sz c))" using i(3) assms(3) by simp
  define n where "n = min i (nat (cc_MaxEntries (c_config c) - 1))"
  have twice: "kept (evictForSize sz c) n = kept c n"
    using i(1, 3, 5) by (auto simp: kept_def n_def min_def)
  from evictForCount_kept [OF i(2) pos] obtain c1 where c1: "evictIfNeeded sz c = Some c1" "cache_inv c1"
    "c_config c1 = c_config c" "c_next c1 = c_next c" "c_order c1 = kept c n"
    using i(1, 3, 4, 5) twice by (auto simp: evictIfNeeded_def n_def length_kept)
  define c' where "c' = c1\<lparr>c_order := (if cc_EvictionPolicy (c_config c1) = LRU then ?p # c_order c1 else c_order c1 @ [?p]),
    c_next := Suc (c_next c), c_items := mput key (c_next c) (c_items c1), c_currentSize := wrap64 (c_currentSize c1 + sz)\<rparr>"
  have set: "Set now key val sz c = Some c'"
    using c1 assms(2) by (simp add: Set_def Let_def c'_def)
  have absent: "en_Key x \<noteq> key" if "(a, x) \<in> set (c_order c1)" for a x
  proof
    assume "en_Key x = key"
    moreover have "(a, x) \<in> set (c_order c)" using that kept_subset [of c n] c1(5) by auto
    ultimately have "mget (c_items c) key = Some a" using assms(1) by (auto simp: cache_inv_def)
    with assms(2) show False by simp
  qed
  have "cache_inv c'"
  proof -
    have fresh: "c_next c \<notin> fst ` set (c_order c1)" using c1(2, 4) by (auto simp: cache_inv_def)
    have keys: "mget (mput key (c_next c) (c_items c1)) k = Some a
        \<longleftrightarrow> (\<exists>x. (a, x) \<in> set (?p # c_order c1) \<and> en_Key x = k)" for k a
      using c1(2) absent by (auto simp: cache_inv_def)
    have "wrap64 (c_currentSize c1 + sz) = wrap64 (sz + sizes (c_order c1))"
      using c1(2) by (simp add: cache_inv_def add.commute)
    then show ?thesis
      using c1(2, 4) fresh keys by (auto simp: cache_inv_def c'_def less_Suc_eq add.commute)
  qed
  moreover have "c_currentSize c' = wrap64 (sizes (kept c n) + sz)"
    using c1(2, 5) by (simp add: c'_def cache_inv_def)
  moreover have "cc_MaxEntries (c_config c) \<le> int m \<or> \<not> fits sz c m" if "n < m" "m \<le> length (c_order c)" for m
    using that i(7) [of m] by (cases "i < m") (auto simp: n_def min_def split: if_splits)
  moreover have "n \<le> i" "n \<le> length (c_order c)" "int n < cc_MaxEntries (c_config c)"
    using i(1) assms(3) by (auto simp: n_def min_def)
  ultimately show thesis
    using set c1(3, 5) i(1, 6) by (intro that [of c' n]) (auto simp: c'_def Let_def)
qed

section \<open>Expiry\<close>

definition stale :: "time \<Rightarrow> 'v Cache \<Rightarrow> 'v Entry \<Rightarrow> bool" where
  "stale now c en \<longleftrightarrow> time_Sub now (en_CreatedAt en) > cc_MaxAge (c_config c)"

lemma cleanupLoop_facts:
  assumes "cache_inv c" "cleanupLoop now xs c n = (c', n')"
  shows "cache_inv c' \<and> c_config c' = c_config c
    \<and> c_order c' = filter (\<lambda>p. \<not> (\<exists>en. (fst p, en) \<in> set xs \<and> stale now c en)) (c_order c)
    \<and> n' = n + int (length (filter (\<lambda>p. stale now c (snd p)) xs))"
  using assms
proof (induction now xs c n rule: cleanupLoop.induct)
  case (2 now e en rest c n)
  show ?case
  proof (cases "stale now c en")
    case True
    with 2(1) [OF _ inv_removeElement [OF 2(3)]] 2(4) show ?thesis
      by (auto simp: stale_def listRemove_def intro!: filter_cong)
  next
    case False
    with 2(2) 2(3, 4) show ?thesis by (auto simp: stale_def intro!: filter_cong)
  qed
qed simp

lemma Cleanup_facts:
  assumes "cache_inv c" "Cleanup now c = (c', n)"
  shows "cache_inv c' \<and> c_config c' = c_config c \<and> c_order c' = filter (\<lambda>p. \<not> stale now c (snd p)) (c_order c)
    \<and> n = int (length (filter (\<lambda>p. stale now c (snd p)) (c_order c)))"
proof -
  have "(\<exists>en. (fst p, en) \<in> set (c_order c) \<and> stale now c en) \<longleftrightarrow> stale now c (snd p)" if "p \<in> set (c_order c)" for p
    using that inv_entry [OF assms(1), of "fst p"] by (metis option.inject prod.collapse)
  then show ?thesis
    using cleanupLoop_facts [of c now "c_order c" 0 c' n] assms by (auto simp: Cleanup_def intro!: filter_cong)
qed

lemma shrinkLoop_facts:
  "cache_inv c \<Longrightarrow> cache_inv (shrinkLoop c) \<and> c_config (shrinkLoop c) = c_config c
     \<and> (c_currentSize (shrinkLoop c) \<le> cc_MaxSize (c_config c) \<or> c_order (shrinkLoop c) = [])
     \<and> length (c_order (shrinkLoop c)) \<le> length (c_order c)"
proof (induction c rule: shrinkLoop.induct)
  case (1 c)
  show ?case
  proof (cases "c_currentSize c > cc_MaxSize (c_config c) \<and> length (c_order c) > 0")
    case True
    then have "shrinkLoop c = shrinkLoop (evictOne c)" by (subst shrinkLoop.simps) simp
    with 1(1) [OF True inv_evictOne [OF 1(2)]] True evictOne_shorter [of c] show ?thesis by auto
  next
    case False
    then have "shrinkLoop c = c" by (subst shrinkLoop.simps) auto
    with False 1(2) show ?thesis by auto
  qed
qed

lemma inv_Clear: "cache_inv c \<Longrightarrow> cache_inv (Clear c)"
  by (simp add: cache_inv_def Clear_def wrap64_def)

section \<open>Runs\<close>

datatype 'v cacheOp =
    GetOp time time string
  | SetOp time string 'v int
  | DeleteOp string
  | CleanupOp time
  | ReduceSizeOp int
  | ClearOp

fun cacheStep :: "'v cacheOp \<Rightarrow> 'v Cache \<Rightarrow> 'v Cache option" where
  "cacheStep (GetOp since now key) c = Some (snd (Get since now key c))"
| "cacheStep (SetOp now key val sz) c = Set now key val sz c"
| "cacheStep (DeleteOp key) c = Some (Delete key c)"
| "cacheStep (CleanupOp now) c = Some (fst (Cleanup now c))"
| "cacheStep (ReduceSizeOp percent) c = Some (ReduceSize percent c)"
| "cacheStep ClearOp c = Some (Clear c)"

fun cacheRun :: "'v cacheOp list \<Rightarrow> 'v Cache \<Rightarrow> 'v Cache option" where
  "cacheRun [] c = Some c"
| "cacheRun (op # ops) c = (case cacheStep op c of None \<Rightarrow> None | Some c' \<Rightarrow> cacheRun ops c')"

definition bounded :: "'v Cache \<Rightarrow> bool" where
  "bounded c \<longleftrightarrow> int (length (c_order c)) \<le> cc_MaxEntries (c_config c)"

lemma bounded_sub:
  "bounded c \<Longrightarrow> c_config c' = c_config c \<Longrightarrow> length (c_order c') \<le> length (c_order c) \<Longrightarrow> bounded c'"
  by (simp add: bounded_def)

lemma Set_ok:
  assumes "cache_inv c" "bounded c" "0 < cc_MaxEntries (c_config c)"
  shows "\<exists>c'. Set now key val sz c = Some c' \<and> cache_inv c' \<and> bounded c' \<and> c_config c' = c_config c"
proof (cases "mget (c_items c) key")
  case None
  show ?thesis
    by (rule Set_new [OF assms(1) None assms(3), of now val sz]) (auto simp: bounded_def Let_def length_kept)
next
  case (Some e)
  then obtain en where "entryOf c key = Some en"
    using assms(1) by (auto simp: entryOf_def inv_key)
  from Set_existing [OF assms(1) this, of now val sz] show ?thesis using assms(2) by (force simp: bounded_def)
qed

lemma cacheStep_ok:
  assumes "cache_inv c" "bounded c" "0 < cc_MaxEntries (c_config c)"
  shows "\<exists>c'. cacheStep op c = Some c' \<and> cache_inv c' \<and> bounded c' \<and> cc_MaxEntries (c_config c') = cc_MaxEntries (c_config c)"
proof (cases op)
  case (GetOp since now key)
  then show ?thesis using inv_Get [OF assms(1), of since now key] assms(2) by (simp add: bounded_def)
next
  case (SetOp now key val sz)
  then show ?thesis using Set_ok [OF assms, of now key val sz] by force
next
  case (DeleteOp key)
  have "bounded (removeElement e c)" for e
    by (rule bounded_sub [OF assms(2)]) (simp_all add: listRemove_def)
  with DeleteOp show ?thesis using assms
    by (auto simp: Delete_def inv_removeElement split: option.splits)
next
  case (CleanupOp now)
  obtain c' n where "Cleanup now c = (c', n)" by force
  with CleanupOp Cleanup_facts [OF assms(1) this] bounded_sub [OF assms(2), of c'] show ?thesis by simp
next
  case (ReduceSizeOp percent)
  let ?c = "c\<lparr>c_config := (c_config c)\<lparr>cc_MaxSize := wrap64 (cc_MaxSize (c_config c) - wrap64 (cc_MaxSize (c_config c) * percent) sdiv 100)\<rparr>\<rparr>"
  have "cache_inv ?c" using assms(1) by simp
  from shrinkLoop_facts [OF this] ReduceSizeOp assms(2) show ?thesis
    by (auto simp: ReduceSize_def Let_def bounded_def)
next
  case ClearOp
  then show ?thesis using inv_Clear [OF assms(1)] assms(3) by (simp add: bounded_def Clear_def)
qed

lemma cacheRun_ok:
  "cache_inv c \<Longrightarrow> bounded c \<Longrightarrow> 0 < cc_MaxEntries (c_config c) \<Longrightarrow>
     \<exists>c'. cacheRun ops c = Some c' \<and> cache_inv c' \<and> bounded c' \<and> cc_MaxEntries (c_config c') = cc_MaxEntries (c_config c)"
proof (induction ops arbitrary: c)
  case (Cons op ops)
  from cacheStep_ok [OF Cons.prems, of op] obtain c1 where "cacheStep op c = Some c1" "cache_inv c1" "bounded c1"
    "cc_MaxEntries (c_config c1) = cc_MaxEntries (c_config c)" by blast
  with Cons.IH [of c1] Cons.prems(3) show ?case by simp
qed simp

lemma sizes_nonneg: "\<forall>p \<in> set ys. 0 \<le> en_Size (snd p) \<Longrightarrow> set xs \<subseteq> set ys \<Longrightarrow> 0 \<le> sizes xs"
  by (induction xs) auto

lemma kept_mono:
  assumes "\<forall>p \<in> set (c_order c). 0 \<le> en_Size (snd p)" "n \<le> i" "i \<le> length (c_order c)"
  shows "0 \<le> sizes (kept c n)" "sizes (kept c n) \<le> sizes (kept c i)"
proof -
  let ?xs = "c_order c"
  show "0 \<le> sizes (kept c n)" using sizes_nonneg [OF assms(1) kept_subset] .
  have "take i ?xs = take n ?xs @ drop n (take i ?xs)"
    using assms(2) by (metis append_take_drop_id take_take min_absorb1)
  then have "sizes (take i ?xs) = sizes (take n ?xs) + sizes (drop n (take i ?xs))"
    by (metis sizes_simps(3))
  moreover have "drop (length ?xs - i) ?xs = take (i - n) (drop (length ?xs - i) ?xs) @ drop (length ?xs - n) ?xs"
    using assms(2, 3) append_take_drop_id [of "i - n" "drop (length ?xs - i) ?xs"] by simp
  then have "sizes (drop (length ?xs - i) ?xs) = sizes (take (i - n) (drop (length ?xs - i) ?xs)) + sizes (drop (length ?xs - n) ?xs)"
    by (metis sizes_simps(3))
  moreover have "0 \<le> sizes (drop n (take i ?xs))" "0 \<le> sizes (take (i - n) (drop (length ?xs - i) ?xs))"
    by (rule sizes_nonneg [OF assms(1)], meson in_set_dropD in_set_takeD subsetI)+
  ultimately show "sizes (kept c n) \<le> sizes (kept c i)" by (simp add: kept_def)
qed

lemma fits_mono:
  assumes "\<forall>p \<in> set (c_order c). 0 \<le> en_Size (snd p)" "0 \<le> sz" "sizes (c_order c) + sz < 2 ^ 63" "i \<le> length (c_order c)"
  shows "wrap64 (sizes (kept c i) + sz) = sizes (kept c i) + sz"
    and "n \<le> i \<Longrightarrow> fits sz c i \<Longrightarrow> fits sz c n"
proof -
  have exact: "wrap64 (sizes (kept c m) + sz) = sizes (kept c m) + sz" if "m \<le> length (c_order c)" for m
    using kept_mono [OF assms(1) that order_refl] assms(2, 3) by (intro wrap64_id) (simp add: in64_def kept_all)
  from exact [OF assms(4)] show "wrap64 (sizes (kept c i) + sz) = sizes (kept c i) + sz" .
  show "fits sz c n" if "n \<le> i" "fits sz c i"
    using that exact [of n] exact [of i] kept_mono(2) [OF assms(1) that(1) assms(4)] assms(4) by (simp add: fits_def)
qed

section \<open>Properties\<close>

text \<open>
  C16. With a positive entry limit every sequence of operations on a new cache ends, and then the
  map and the list agree: as many keys as elements, at most the limit, no key twice, and each key
  leads to the element that holds it. The size is the sum of the entry sizes modulo two to the 64.
\<close>

theorem cache_consistent:
  fixes ops :: "'v cacheOp list"
  assumes "0 < cc_MaxEntries cfg"
  shows "\<exists>c. cacheRun ops (New cfg) = Some c \<and> Len c = length (c_order c) \<and> int (Len c) \<le> cc_MaxEntries cfg
    \<and> distinct (map (\<lambda>p. en_Key (snd p)) (c_order c))
    \<and> (\<forall>k e. mget (c_items c) k = Some e \<longleftrightarrow> (\<exists>en. map_of (c_order c) e = Some en \<and> en_Key en = k))
    \<and> Size c = wrap64 (sizes (c_order c))"
proof -
  have "bounded (New cfg :: 'v Cache)" "cc_MaxEntries (c_config (New cfg :: 'v Cache)) = cc_MaxEntries cfg"
    using assms by (simp_all add: bounded_def New_def)
  with cacheRun_ok [of "New cfg" ops] assms obtain c where c: "cacheRun ops (New cfg) = Some c" "cache_inv c" "bounded c"
    "cc_MaxEntries (c_config c) = cc_MaxEntries cfg" by auto
  moreover have "Size c = wrap64 (sizes (c_order c))" using c(2) by (simp add: Size_def cache_inv_def)
  moreover have "int (Len c) \<le> cc_MaxEntries cfg" using c Len_order [OF c(2)] by (simp add: bounded_def)
  ultimately show ?thesis
    using Len_order [OF c(2)] inv_keys_distinct [OF c(2)] inv_key [OF c(2)] by blast
qed

theorem cache_consistent_witness:
  "\<exists>c. cacheRun [SetOp 0 ''a'' True 10, SetOp 1 ''b'' False 20, GetOp 2 2 ''a''] (New DefaultConfig) = Some c \<and> int (Len c) \<le> 100000"
  using cache_consistent [of DefaultConfig "[SetOp 0 ''a'' True 10, SetOp 1 ''b'' False 20, GetOp 2 2 ''a'']"]
  by (auto simp: DefaultConfig_def)

text \<open>
  A new key evicts only from the end that the policy evicts from, and no more than needed: the
  kept entries keep their order, one entry more would break a limit, and the cache is then within
  its size limit unless the new entry is alone.
\<close>

theorem set_evicts_oldest:
  assumes "cache_inv c" "mget (c_items c) key = None" "0 < cc_MaxEntries (c_config c)"
    and "\<forall>p \<in> set (c_order c). 0 \<le> en_Size (snd p)" "0 \<le> sz" "sizes (c_order c) + sz < 2 ^ 63"
  shows "\<exists>n c'. Set now key val sz c = Some c' \<and> n \<le> length (c_order c)
    \<and> c_order c' = (let p = (c_next c, \<lparr>en_Key = key, en_Value = val, en_Size = sz, en_CreatedAt = now, en_AccessedAt = now\<rparr>)
         in if cc_EvictionPolicy (c_config c) = LRU then p # take n (c_order c)
            else drop (length (c_order c) - n) (c_order c) @ [p])
    \<and> (n = 0 \<or> Size c' \<le> cc_MaxSize (c_config c)) \<and> int (Len c') \<le> cc_MaxEntries (c_config c)
    \<and> (n < length (c_order c) \<longrightarrow> cc_MaxEntries (c_config c) \<le> int (Suc n)
        \<or> cc_MaxSize (c_config c) < sizes (kept c (Suc n)) + sz)"
proof -
  obtain n c' where n: "Set now key val sz c = Some c'" "cache_inv c'" "n \<le> length (c_order c)"
    "int n < cc_MaxEntries (c_config c)" "\<exists>i \<ge> n. i \<le> length (c_order c) \<and> (i = 0 \<or> fits sz c i)"
    "\<And>m. n < m \<Longrightarrow> m \<le> length (c_order c) \<Longrightarrow> cc_MaxEntries (c_config c) \<le> int m \<or> \<not> fits sz c m"
    "c_order c' = (let p = (c_next c, \<lparr>en_Key = key, en_Value = val, en_Size = sz, en_CreatedAt = now, en_AccessedAt = now\<rparr>)
       in if cc_EvictionPolicy (c_config c) = LRU then p # kept c n else kept c n @ [p])"
    "c_currentSize c' = wrap64 (sizes (kept c n) + sz)"
    by (rule Set_new [OF assms(1-3), of now val sz]) blast
  note exact = fits_mono(1) [OF assms(4-6)] and mono = fits_mono(2) [OF assms(4-6)]
  have "n = 0 \<or> fits sz c n" using n(5) mono by fastforce
  then have "n = 0 \<or> Size c' \<le> cc_MaxSize (c_config c)"
    using n(8) by (simp add: Size_def fits_def)
  moreover have "int (Len c') \<le> cc_MaxEntries (c_config c)"
    using n(3, 4, 7) Len_order [OF n(2)] by (auto simp: Let_def length_kept split: if_splits)
  moreover have "n < length (c_order c) \<longrightarrow> cc_MaxEntries (c_config c) \<le> int (Suc n)
      \<or> cc_MaxSize (c_config c) < sizes (kept c (Suc n)) + sz"
    using n(6) [of "Suc n"] exact [of "Suc n"] by (auto simp: fits_def)
  ultimately show ?thesis using n(1, 3, 7) by (auto simp: Let_def kept_def)
qed

definition sample_cache :: "bool Cache" where
  "sample_cache = \<lparr>c_config = DefaultConfig\<lparr>cc_MaxEntries := 1\<rparr>, c_items = [(''a'', 0)],
     c_order = [(0, \<lparr>en_Key = ''a'', en_Value = True, en_Size = 10, en_CreatedAt = 0, en_AccessedAt = 0\<rparr>)], c_next = 1,
     c_currentSize = 10, c_hits = 0, c_misses = 0, c_evictions = 0\<rparr>"

lemma sample_cache_inv: "cache_inv sample_cache"
  by (simp add: cache_inv_def sample_cache_def map_wf_def wrap64_def)

theorem set_evicts_oldest_witness:
  "\<exists>c'. Set 5 ''b'' False 20 sample_cache = Some c' \<and> int (Len c') \<le> 1"
  using set_evicts_oldest [OF sample_cache_inv, where key = "''b''" and sz = 20 and val = False and now = 5]
  by (auto simp: sample_cache_def)

text \<open>
  C38. What was stored under a key is what a later read of the key returns, until the entry is
  older than the maximal age. The age counts from the first write of the key: overwriting a live
  entry does not renew it. A write of a key that is present leaves every other key alone.
\<close>

theorem set_get:
  assumes "cache_inv c" "0 < cc_MaxEntries (c_config c)"
  shows "\<exists>c'. Set now key val sz c = Some c'
    \<and> (let created = (case entryOf c key of None \<Rightarrow> now | Some en \<Rightarrow> en_CreatedAt en)
       in fst (Get since t key c') = (if time_Sub since created > cc_MaxAge (c_config c) then None else Some val))
    \<and> (entryOf c key \<noteq> None \<longrightarrow> (\<forall>k. k \<noteq> key \<longrightarrow> entryOf c' k = entryOf c k))"
proof (cases "mget (c_items c) key")
  case None
  let ?en = "\<lparr>en_Key = key, en_Value = val, en_Size = sz, en_CreatedAt = now, en_AccessedAt = now\<rparr>"
  have none: "entryOf c key = None" using None by (simp add: entryOf_def)
  obtain n c' where c': "Set now key val sz c = Some c'" "cache_inv c'" "c_config c' = c_config c"
    "c_order c' = (let p = (c_next c, ?en) in if cc_EvictionPolicy (c_config c) = LRU then p # kept c n else kept c n @ [p])"
    by (rule Set_new [OF assms(1) None assms(2), of now val sz]) blast
  have "(c_next c, ?en) \<in> set (c_order c')" using c'(4) by (simp add: Let_def)
  with c'(2) have "map_of (c_order c') (c_next c) = Some ?en" "mget (c_items c') key = Some (c_next c)"
    using inv_entry inv_key by force+
  with c'(1, 3) none show ?thesis by (simp add: Get_def Let_def)
next
  case (Some e)
  then obtain en where en: "entryOf c key = Some en" using assms(1) by (auto simp: entryOf_def inv_key)
  let ?f = "\<lambda>en. en\<lparr>en_Value := val, en_Size := sz, en_AccessedAt := now\<rparr>"
  obtain c' where c': "Set now key val sz c = Some c'" "c_config c' = c_config c" "c_items c' = c_items c"
    using Set_existing [OF assms(1) en, of now val sz] by blast
  have each: "entryOf c' k = (if k = key then Some (?f en) else entryOf c k)" for k
    using Set_existing [OF assms(1) en, of now val sz k] c'(1) by auto
  from each [of key] have "map_of (c_order c') e = Some (?f en)" using Some c'(3) by (simp add: entryOf_def)
  with c' Some en each show ?thesis by (simp add: Get_def Let_def)
qed

theorem set_get_witness:
  "\<exists>c'. Set 7 ''a'' False 20 sample_cache = Some c' \<and> fst (Get 9 9 ''a'' c') = Some False"
  using set_get [OF sample_cache_inv, where key = "''a''" and sz = 20 and val = False and now = 7 and since = 9 and t = 9]
  by (auto simp: sample_cache_def entryOf_def time_Sub_def minDuration_def maxDuration_def DefaultConfig_def go_simps)

text \<open>
  With an entry limit that is not positive, adding a key never returns: the second eviction loop
  keeps calling \<open>evictOne\<close> on the empty list.
\<close>

lemma set_diverges:
  assumes "cache_inv c" "mget (c_items c) key = None" "cc_MaxEntries (c_config c) \<le> 0"
  shows "Set now key val sz c = None"
proof -
  obtain n where "c_config (evictForSize sz c) = c_config c"
    by (rule evictForSize_kept [OF assms(1), of sz]) blast
  then show ?thesis using assms(2, 3) by (simp add: Set_def evictIfNeeded_def evictForCount_diverges)
qed

end
