(* ===== verification/Sender.thy ===== *)
theory Sender
  imports Prelude
begin

text \<open>
  The tool of \<open>cmd/otel-sender/main.go\<close> that sends one error log to the receiver and retries while the
  connection is refused. The exporter is an argument: the outcome of each flush.
\<close>

definition maxRetries :: nat where "maxRetries = 5"

definition retryDelay :: duration where "retryDelay = 2 * Second"

text \<open>An error is its text and whether it wraps \<open>net.ErrClosed\<close>.\<close>

record flushError =
  fe_closed :: bool
  fe_text :: string

text \<open>\<open>strings.Contains\<close>.\<close>

fun hasPrefix :: "string \<Rightarrow> string \<Rightarrow> bool" where
  "hasPrefix s [] = True"
| "hasPrefix [] (c # p) = False"
| "hasPrefix (d # s) (c # p) = (d = c \<and> hasPrefix s p)"

fun strContains :: "string \<Rightarrow> string \<Rightarrow> bool" where
  "strContains [] sub = (sub = [])"
| "strContains (c # s) sub = (hasPrefix (c # s) sub \<or> strContains s sub)"

definition isRetryable :: "flushError \<Rightarrow> bool" where
  "isRetryable err =
     (if fe_closed err then False
      else strContains (fe_text err) ''connection refused'' \<or> strContains (fe_text err) ''connect: connection refused'')"

record sendRun =
  sr_exit :: int
  sr_flushes :: nat
  sr_slept :: duration

text \<open>The loop from a given attempt on.\<close>

function flushLoop :: "(nat \<Rightarrow> flushError option) \<Rightarrow> nat \<Rightarrow> duration \<Rightarrow> sendRun" where
  "flushLoop flush attempt slept =
     (if \<not> attempt < maxRetries then \<lparr>sr_exit = 1, sr_flushes = attempt, sr_slept = slept\<rparr>
      else case flush attempt of
        None \<Rightarrow> \<lparr>sr_exit = 0, sr_flushes = Suc attempt, sr_slept = slept\<rparr>
      | Some err \<Rightarrow>
          if isRetryable err \<and> attempt < maxRetries - 1 then flushLoop flush (Suc attempt) (slept + retryDelay)
          else \<lparr>sr_exit = 1, sr_flushes = Suc attempt, sr_slept = slept\<rparr>)"
  by pat_completeness auto
termination
  by (relation "measure (\<lambda>(flush, attempt, slept). maxRetries - attempt)") (auto simp: maxRetries_def)

declare flushLoop.simps [simp del]

definition runSender :: "bool \<Rightarrow> (nat \<Rightarrow> flushError option) \<Rightarrow> sendRun" where
  "runSender exporterBuilt flush =
     (if \<not> exporterBuilt then \<lparr>sr_exit = 1, sr_flushes = 0, sr_slept = 0\<rparr> else flushLoop flush 0 0)"

section \<open>Properties\<close>

lemma hasPrefix_iff: "hasPrefix s p \<longleftrightarrow> (\<exists>r. s = p @ r)"
  by (induction s p rule: hasPrefix.induct) auto

lemma strContains_iff: "strContains s sub \<longleftrightarrow> (\<exists>a b. s = a @ sub @ b)"
proof (induction s)
  case (Cons c s)
  have "(\<exists>a b. c # s = a @ sub @ b) \<longleftrightarrow> (\<exists>b. c # s = sub @ b) \<or> (\<exists>a b. s = a @ sub @ b)"
    by (metis append_Cons append_Nil list.sel(3) list.exhaust_sel tl_append2)
  with Cons show ?case by (simp add: hasPrefix_iff)
qed simp

text \<open>The second test of \<open>isRetryable\<close> is implied by the first.\<close>

lemma isRetryable_iff: "isRetryable err \<longleftrightarrow> \<not> fe_closed err \<and> strContains (fe_text err) ''connection refused''"
proof -
  have "strContains s ''connection refused''" if c: "strContains s ''connect: connection refused''" for s
  proof -
    from c obtain a b where "s = a @ ''connect: connection refused'' @ b" by (auto simp: strContains_iff)
    then have "s = (a @ ''connect: '') @ ''connection refused'' @ b" by simp
    then show ?thesis unfolding strContains_iff by blast
  qed
  then show ?thesis by (auto simp: isRetryable_def)
qed

definition givesUp :: "(nat \<Rightarrow> flushError option) \<Rightarrow> nat \<Rightarrow> bool" where
  "givesUp flush i \<longleftrightarrow> (case flush i of None \<Rightarrow> True | Some err \<Rightarrow> \<not> isRetryable err)"

lemma flushLoop_exact:
  assumes "n \<le> 4" "\<And>i. i < n \<Longrightarrow> \<not> givesUp flush i" "givesUp flush n \<or> n = 4"
  shows "k \<le> n \<Longrightarrow> flushLoop flush k slept
    = \<lparr>sr_exit = (if flush n = None then 0 else 1), sr_flushes = Suc n, sr_slept = slept + int (n - k) * retryDelay\<rparr>"
proof (induction "n - k" arbitrary: k slept)
  case 0
  then have "k = n" by simp
  with assms show ?case
    by (auto simp: flushLoop.simps [of flush n] flushLoop.simps [of flush 4] maxRetries_def givesUp_def split: option.splits)
next
  case (Suc m)
  then have k: "k < n" by simp
  with assms(2) have "\<not> givesUp flush k" by simp
  then obtain err where "flush k = Some err" "isRetryable err" by (auto simp: givesUp_def split: option.splits)
  then have "flushLoop flush k slept = flushLoop flush (Suc k) (slept + retryDelay)"
    using k assms(1) by (simp add: flushLoop.simps [of flush k] maxRetries_def)
  also have "\<dots> = \<lparr>sr_exit = (if flush n = None then 0 else 1), sr_flushes = Suc n, sr_slept = slept + retryDelay + int (n - Suc k) * retryDelay\<rparr>"
    using Suc k by (intro Suc.hyps(1)) auto
  also have "slept + retryDelay + int (n - Suc k) * retryDelay = slept + int (n - k) * retryDelay"
    using k by (simp add: of_nat_diff algebra_simps)
  finally show ?case .
qed

text \<open>
  The tool flushes until an attempt succeeds, fails for good or is the fifth; it waits two seconds
  between attempts and reports success exactly when the last attempt succeeded.
\<close>

lemma runSender_exact:
  "\<exists>n \<le> 4. (\<forall>i < n. \<not> givesUp flush i) \<and> (givesUp flush n \<or> n = 4)
     \<and> runSender True flush = \<lparr>sr_exit = (if flush n = None then 0 else 1), sr_flushes = Suc n, sr_slept = int n * retryDelay\<rparr>"
proof -
  define n where "n = (LEAST i. givesUp flush i \<or> i = 4)"
  have n: "givesUp flush n \<or> n = 4" unfolding n_def by (rule LeastI [of _ 4]) simp
  moreover have le: "n \<le> 4" unfolding n_def by (rule Least_le) simp
  moreover have lt: "\<not> givesUp flush i" if "i < n" for i using not_less_Least that unfolding n_def by blast
  ultimately show ?thesis
    using flushLoop_exact [of n flush 0 0] by (intro exI [of _ n]) (auto simp: runSender_def)
qed

end
