(* ===== verification/EngineThreads.thy ===== *)
theory EngineThreads
  imports Detection
begin

text \<open>
  The detection engine at the granularity of its locks. The state store of
  \<open>internal/detection/engine.go\<close> maps keys to pointers: \<open>GetState\<close> hands out the pointer that is
  stored, \<open>handleMatch\<close> changes the object in place without a lock, sends the result and stores the
  pointer again, while the cleanup ticker and a hot reload run in other goroutines. The states are
  in a heap here, and the steps of the goroutines interleave. The fields of an object are written in
  one step: the only one that another goroutine reads is \<open>LastDetected\<close>, which is written once.
\<close>

section \<open>Goroutines\<close>

text \<open>What the loop of \<open>Run\<close> is doing, with the scenarios of its snapshot that are left.\<close>

datatype engineWork =
    Waiting
  | Scanning DetectionInput "LoadedScenario list"
  | Matched DetectionInput "LoadedScenario list" LoadedScenario
  | Looked DetectionInput "LoadedScenario list" LoadedScenario "nat option"
  | Emitting DetectionInput "LoadedScenario list" LoadedScenario nat DetectionResult
  | Storing DetectionInput "LoadedScenario list" LoadedScenario nat

datatype engineReload = NoReload | Cleared | Registering "LoadedScenario list"

text \<open>The state store of \<open>rn_engine\<close> is not used: its place is taken by the heap and the map of pointers.\<close>

record ('a, 'p, 'w) threads =
  rn_engine :: "('a, 'p, 'w) engineImpl"
  rn_heap :: "nat \<Rightarrow> DetectionState"
  rn_next :: nat
  rn_states :: "(string, nat) gomap"
  rn_work :: engineWork
  rn_reload :: engineReload
  rn_taken :: "DetectionResult list"
  rn_cleanups :: nat

text \<open>
  The part of \<open>handleMatch\<close> between its two calls of the store and the send: the object is allocated
  or changed in place, and the goroutine either has a result to send or goes on to store.
\<close>

definition changeState :: "location \<Rightarrow> time \<Rightarrow> DetectionInput \<Rightarrow> LoadedScenario list \<Rightarrow> LoadedScenario \<Rightarrow> nat option
     \<Rightarrow> ('a, 'p, 'w) threads \<Rightarrow> ('a, 'p, 'w) threads" where
  "changeState loc idNow input rest scenario ptr s =
     (let old = map_option (rn_heap s) ptr; new = nextState scenario input old;
          p = (case ptr of None \<Rightarrow> rn_next s | Some p \<Rightarrow> p);
          s' = s\<lparr>rn_heap := (rn_heap s)(p := new), rn_next := (case ptr of None \<Rightarrow> Suc (rn_next s) | Some _ \<Rightarrow> rn_next s)\<rparr>
      in s'\<lparr>rn_work := (if emits scenario input old then Emitting input rest scenario p (mkResult loc idNow scenario input new)
             else Storing input rest scenario p)\<rparr>)"

inductive thread_step :: "location \<Rightarrow> ('a, 'p, 'w) threads \<Rightarrow> ('a, 'p, 'w) threads \<Rightarrow> bool" for loc where
  receive: "rn_work s = Waiting \<Longrightarrow>
    thread_step loc s (s\<lparr>rn_work := Scanning input (filter ls_Enabled (map snd (en_scenarios (rn_engine s))))\<rparr>)"
| evaluate: "rn_work s = Scanning input (scenario # rest) \<Longrightarrow> evaluateScenario (rn_engine s) scenario input = (r, e) \<Longrightarrow>
    thread_step loc s (s\<lparr>rn_engine := e, rn_work := (if r = Inr True then Matched input rest scenario else Scanning input rest)\<rparr>)"
| scanned: "rn_work s = Scanning input [] \<Longrightarrow> thread_step loc s (s\<lparr>rn_work := Waiting\<rparr>)"
| look_up: "rn_work s = Matched input rest scenario \<Longrightarrow>
    thread_step loc s (s\<lparr>rn_work := Looked input rest scenario (mget (rn_states s) (matchKey scenario input))\<rparr>)"
| change: "rn_work s = Looked input rest scenario ptr \<Longrightarrow> thread_step loc s (changeState loc idNow input rest scenario ptr s)"
| emit: "rn_work s = Emitting input rest scenario p result \<Longrightarrow>
    thread_step loc s (s\<lparr>rn_engine := sendResult (rn_engine s) result, rn_work := Storing input rest scenario p\<rparr>)"
| store: "rn_work s = Storing input rest scenario p \<Longrightarrow>
    thread_step loc s (s\<lparr>rn_states := mput (matchKey scenario input) p (rn_states s), rn_work := Scanning input rest\<rparr>)"
| clean_up: "thread_step loc s
    (s\<lparr>rn_states := fst (rangeDelete (\<lambda>k p. expired (en_stateStore (rn_engine s)) now k (rn_heap s p)) (rn_states s) (rn_states s) 0),
       rn_cleanups := Suc (rn_cleanups s)\<rparr>)"
| reload_clears: "rn_reload s = NoReload \<Longrightarrow>
    thread_step loc s (s\<lparr>rn_engine := (rn_engine s)\<lparr>en_scenarios := []\<rparr>,
      rn_reload := (if en_scenarioLoader (rn_engine s) = None then NoReload else Cleared)\<rparr>)"
| reload_fails: "rn_reload s = Cleared \<Longrightarrow> en_scenarioLoader (rn_engine s) = Some load \<Longrightarrow> load w = Inl err \<Longrightarrow>
    thread_step loc s (s\<lparr>rn_reload := NoReload\<rparr>)"
| reload_lists: "rn_reload s = Cleared \<Longrightarrow> en_scenarioLoader (rn_engine s) = Some load \<Longrightarrow> load w = Inr scenarios \<Longrightarrow>
    thread_step loc s (s\<lparr>rn_reload := Registering scenarios\<rparr>)"
| reload_registers: "rn_reload s = Registering (scenario # rest) \<Longrightarrow>
    thread_step loc s (s\<lparr>rn_engine := snd (RegisterScenario (rn_engine s) scenario), rn_reload := Registering rest\<rparr>)"
| reload_done: "rn_reload s = Registering [] \<Longrightarrow> thread_step loc s (s\<lparr>rn_reload := NoReload\<rparr>)"
| take: "chan_recv (en_outputCh (rn_engine s)) = Some (result, ch) \<Longrightarrow>
    thread_step loc s (s\<lparr>rn_engine := (rn_engine s)\<lparr>en_outputCh := ch\<rparr>, rn_taken := rn_taken s @ [result]\<rparr>)"

definition startThreads :: "('a, 'p, 'w) engineImpl \<Rightarrow> ('a, 'p, 'w) threads" where
  "startThreads e = \<lparr>rn_engine = e, rn_heap = (\<lambda>_. undefined), rn_next = 0, rn_states = [], rn_work = Waiting, rn_reload = NoReload,
     rn_taken = [], rn_cleanups = 0\<rparr>"

section \<open>Pointers\<close>

text \<open>
  Different keys never share an object, and the pointer that the loop holds is stored under no other
  key than its own, if at all.
\<close>

definition work_ok :: "('a, 'p, 'w) threads \<Rightarrow> bool" where
  "work_ok s \<longleftrightarrow>
     (case rn_work s of
        Looked i rest sc None \<Rightarrow> mget (rn_states s) (matchKey sc i) = None
      | Looked i rest sc (Some p) \<Rightarrow> holds (rn_states s) (rn_next s) (matchKey sc i) p
      | Emitting i rest sc p r \<Rightarrow> holds (rn_states s) (rn_next s) (matchKey sc i) p \<and> ds_ThresholdMet (rn_heap s p)
          \<and> StateKey (dr_ScenarioID r) (dr_Resource r) = matchKey sc i
      | Storing i rest sc p \<Rightarrow> holds (rn_states s) (rn_next s) (matchKey sc i) p
      | _ \<Rightarrow> True)"

definition heap_ok :: "('a, 'p, 'w) threads \<Rightarrow> bool" where
  "heap_ok s \<longleftrightarrow> pointers_ok (rn_states s) (rn_next s) \<and> work_ok s"

section \<open>Counting results\<close>

text \<open>
  A key is marked when its threshold counts as met: in the store, or in the hand of the loop that is
  about to store it.
\<close>

fun inHand :: "engineWork \<Rightarrow> (string \<times> nat) option" where
  "inHand (Emitting i rest sc p r) = Some (matchKey sc i, p)"
| "inHand (Storing i rest sc p) = Some (matchKey sc i, p)"
| "inHand _ = None"

definition marked :: "string \<Rightarrow> ('a, 'p, 'w) threads \<Rightarrow> bool" where
  "marked k s \<longleftrightarrow> (\<exists>p. mget (rn_states s) k = Some p \<and> ds_ThresholdMet (rn_heap s p))
     \<or> (\<exists>p. inHand (rn_work s) = Some (k, p) \<and> ds_ThresholdMet (rn_heap s p))"

fun pending :: "string \<Rightarrow> engineWork \<Rightarrow> nat" where
  "pending k (Emitting i rest sc p r) = (if forKey k r then 1 else 0)"
| "pending k _ = 0"

definition sent :: "string \<Rightarrow> ('a, 'p, 'w) threads \<Rightarrow> nat" where
  "sent k s = length (filter (forKey k) (rn_taken s @ ch_buf (en_outputCh (rn_engine s))))"

definition balance :: "string \<Rightarrow> ('a, 'p, 'w) threads \<Rightarrow> nat" where
  "balance k s = sent k s + pending k (rn_work s) + (if marked k s then 0 else 1)"

definition thread_inv :: "string \<Rightarrow> ('a, 'p, 'w) threads \<Rightarrow> bool" where
  "thread_inv k s \<longleftrightarrow> heap_ok s \<and> balance k s \<le> 1 + rn_cleanups s"

lemma evaluate_out [simp]: "evaluateScenario e sc i = (r, e') \<Longrightarrow> en_outputCh e' = en_outputCh e"
  by (auto simp: evaluateScenario_def split: if_splits option.splits prod.splits sum.splits)

lemma register_out [simp]: "en_outputCh (snd (RegisterScenario e sc)) = en_outputCh e"
  by (simp add: RegisterScenario_def split: option.splits prod.splits sum.splits)

lemma changeState_heap:
  assumes "heap_ok s" "rn_work s = Looked i rest sc ptr"
  shows "heap_ok (changeState loc t i rest sc ptr s)"
  using assms holds_new [of "rn_states s" "rn_next s" "matchKey sc i"] pointers_ok_Suc [of "rn_states s" "rn_next s"]
  by (cases ptr) (auto simp: heap_ok_def work_ok_def changeState_def Let_def nextState_def mkResult_def)

lemma heap_ok_cleanup:
  assumes "heap_ok s"
  shows "heap_ok (s\<lparr>rn_states := fst (rangeDelete P (rn_states s) (rn_states s) 0), rn_cleanups := n\<rparr>)"
proof -
  have wf: "map_wf (rn_states s)" using assms by (simp add: heap_ok_def pointers_ok_def)
  show ?thesis
    using assms pointers_ok_sweep [of "rn_states s" "rn_next s" P] holds_sweep [OF wf] swept_get(2) [OF wf]
    by (auto simp: heap_ok_def work_ok_def split: engineWork.splits option.splits)
qed

lemma heap_ok_store:
  assumes "heap_ok s" "rn_work s = Storing i rest sc p"
  shows "heap_ok (s\<lparr>rn_states := mput (matchKey sc i) p (rn_states s), rn_work := Scanning i rest\<rparr>)"
  using assms by (simp add: heap_ok_def work_ok_def pointers_ok_store)

text \<open>Steps that touch neither heap nor store keep the pointers in order.\<close>

lemma heap_ok_frame:
  "heap_ok s \<Longrightarrow> rn_heap s' = rn_heap s \<Longrightarrow> rn_next s' = rn_next s \<Longrightarrow> rn_states s' = rn_states s \<Longrightarrow> work_ok s' \<Longrightarrow> heap_ok s'"
  by (simp add: heap_ok_def)

lemma work_ok_cong:
  "rn_heap s' = rn_heap s \<Longrightarrow> rn_next s' = rn_next s \<Longrightarrow> rn_states s' = rn_states s \<Longrightarrow> rn_work s' = rn_work s \<Longrightarrow> work_ok s' = work_ok s"
  by (simp add: work_ok_def holds_def split: engineWork.splits option.splits)

lemma heap_ok_step:
  assumes "thread_step loc s s'" "heap_ok s"
  shows "heap_ok s'"
  using assms
proof (induction rule: thread_step.induct)
  case (look_up s input rest scenario)
  then show ?case by (auto simp: heap_ok_def work_ok_def holds_found split: option.splits)
next
  case (change s input rest scenario ptr idNow)
  then show ?case by (simp add: changeState_heap)
next
  case (emit s input rest scenario p result)
  then show ?case by (auto simp: heap_ok_def work_ok_def holds_def)
next
  case (store s input rest scenario p)
  then show ?case by (simp add: heap_ok_store)
next
  case (clean_up s now)
  then show ?case by (rule heap_ok_cleanup)
qed (auto simp: heap_ok_def work_ok_def holds_def split: engineWork.splits option.splits if_splits)

lemma changeState_balance:
  assumes "heap_ok s" "rn_work s = Looked i rest sc ptr"
  shows "balance k (changeState loc t i rest sc ptr s) \<le> balance k s"
proof -
  let ?s = "changeState loc t i rest sc ptr s" and ?key = "matchKey sc i"
  let ?old = "map_option (rn_heap s) ptr" and ?p = "case ptr of None \<Rightarrow> rn_next s | Some p \<Rightarrow> p"
  have [simp]: "sent k ?s = sent k s" "rn_states ?s = rn_states s" by (simp_all add: sent_def changeState_def Let_def)
  have heap: "rn_heap ?s = (rn_heap s)(?p := nextState sc i ?old)" by (simp add: changeState_def Let_def)
  have free: "mget (rn_states s) k' = Some ?p \<Longrightarrow> k' = ?key" for k'
    using assms by (cases ptr) (auto simp: heap_ok_def work_ok_def holds_def pointers_ok_def)
  have met: "ds_ThresholdMet (nextState sc i ?old) \<longleftrightarrow> isMet ?old \<or> emits sc i ?old" by (simp add: nextState_def)
  show ?thesis
  proof (cases "k = ?key")
    case False
    then have "marked k ?s = marked k s"
      using free assms(2) by (auto simp: marked_def heap changeState_def Let_def)
    moreover have "pending k (rn_work ?s) = 0" using False by (simp add: changeState_def Let_def)
    ultimately show ?thesis using assms(2) by (simp add: balance_def)
  next
    case True
    have hand: "inHand (rn_work ?s) = Some (?key, ?p)" by (simp add: changeState_def Let_def)
    have stored: "mget (rn_states s) ?key = None \<or> (\<exists>p. ptr = Some p \<and> mget (rn_states s) ?key = Some p)"
      using assms by (cases ptr) (auto simp: heap_ok_def work_ok_def holds_def)
    have mark: "marked k s \<longleftrightarrow> (\<exists>p. mget (rn_states s) ?key = Some p \<and> ds_ThresholdMet (rn_heap s p))"
      using True assms(2) by (simp add: marked_def)
    show ?thesis
    proof (cases "emits sc i ?old")
      case em: True
      then have "\<not> isMet ?old" by (simp add: emits_def)
      then have "\<not> marked k s" unfolding mark using stored by auto
      moreover have "marked k ?s" using hand True met em by (auto simp: marked_def heap)
      moreover have "pending k (rn_work ?s) = 1" using em True by (simp add: changeState_def Let_def)
      ultimately show ?thesis using assms(2) by (simp add: balance_def)
    next
      case ne: False
      have "marked k ?s" if "marked k s"
      proof -
        from that stored have "isMet ?old" unfolding mark by auto
        then show ?thesis using hand True met by (auto simp: marked_def heap)
      qed
      moreover have "pending k (rn_work ?s) = 0" using ne by (simp add: changeState_def Let_def)
      ultimately show ?thesis using assms(2) by (simp add: balance_def)
    qed
  qed
qed

lemma cleanup_balance:
  "balance k (s\<lparr>rn_states := m, rn_cleanups := n\<rparr>) \<le> Suc (balance k s)"
  by (simp add: balance_def sent_def)

lemma emit_balance:
  assumes "rn_work s = Emitting i rest sc p r"
  shows "balance k (s\<lparr>rn_engine := sendResult (rn_engine s) r, rn_work := Storing i rest sc p\<rparr>) \<le> balance k s"
proof -
  have "marked k (s\<lparr>rn_engine := sendResult (rn_engine s) r, rn_work := Storing i rest sc p\<rparr>) = marked k s"
    using assms by (simp add: marked_def)
  then show ?thesis
    using assms by (auto simp: balance_def sent_def sendResult_def chan_trySend_def)
qed

lemma store_balance:
  assumes "heap_ok s" "rn_work s = Storing i rest sc p"
  shows "balance k (s\<lparr>rn_states := mput (matchKey sc i) p (rn_states s), rn_work := Scanning i rest\<rparr>) \<le> balance k s"
proof -
  let ?s = "s\<lparr>rn_states := mput (matchKey sc i) p (rn_states s), rn_work := Scanning i rest\<rparr>"
  have "mget (rn_states s) (matchKey sc i) \<in> {None, Some p}"
    using assms by (auto simp: heap_ok_def work_ok_def holds_def)
  then have "marked k s \<Longrightarrow> marked k ?s" using assms(2) by (auto simp: marked_def split: if_splits)
  then show ?thesis using assms(2) by (simp add: balance_def sent_def)
qed

lemma balance_cong:
  "rn_heap s' = rn_heap s \<Longrightarrow> rn_states s' = rn_states s \<Longrightarrow> inHand (rn_work s') = inHand (rn_work s) \<Longrightarrow>
   pending k (rn_work s') = pending k (rn_work s) \<Longrightarrow> sent k s' = sent k s \<Longrightarrow> balance k s' = balance k s"
  by (simp add: balance_def marked_def)

lemma balance_step:
  assumes "thread_step loc s s'" "heap_ok s"
  shows "balance k s' + rn_cleanups s \<le> balance k s + rn_cleanups s'"
  using assms
proof (induction rule: thread_step.induct)
  case (change s input rest scenario ptr idNow)
  then show ?case using changeState_balance [of s input rest scenario ptr k loc idNow] by (simp add: changeState_def Let_def)
next
  case (emit s input rest scenario p result)
  then show ?case using emit_balance [of s input rest scenario p result k] by simp
next
  case (store s input rest scenario p)
  then show ?case using store_balance [of s input rest scenario p k] by simp
next
  case (clean_up s now)
  then show ?case using cleanup_balance [where s = s and k = k] by simp
next
  case (take s result ch)
  then have "sent k (s\<lparr>rn_engine := (rn_engine s)\<lparr>en_outputCh := ch\<rparr>, rn_taken := rn_taken s @ [result]\<rparr>) = sent k s"
    by (auto simp: sent_def chan_recv_def split: list.splits)
  then show ?case by (simp add: balance_def marked_def)
qed (simp_all add: balance_def marked_def sent_def)

interpretation engine_threads: kept_invariant "thread_step loc" "thread_inv k" for loc k
proof
  show "thread_inv k s'" if "thread_step loc s s'" "thread_inv k s" for s s' :: "('a, 'b, 'c) threads"
    using heap_ok_step [OF that(1)] balance_step [OF that(1), of k] that(2) by (simp add: thread_inv_def)
qed

section \<open>Without interference\<close>

text \<open>
  The engine with the states themselves in the store, as the operations of \<open>Detection\<close> see it. A
  goroutine that is not interrupted does what they say.
\<close>

definition asEngine :: "('a, 'p, 'w) threads \<Rightarrow> ('a, 'p, 'w) engineImpl" where
  "asEngine s = (rn_engine s)\<lparr>en_stateStore := (en_stateStore (rn_engine s))
     \<lparr>st_states := map (\<lambda>(k, p). (k, rn_heap s p)) (rn_states s)\<rparr>\<rparr>"

lemma evaluate_store:
  "evaluateScenario (e\<lparr>en_stateStore := st\<rparr>) sc i
     = (fst (evaluateScenario e sc i), (snd (evaluateScenario e sc i))\<lparr>en_stateStore := st\<rparr>)"
proof (cases "prefilter sc i \<and> ls_Expression sc \<noteq> ''''")
  case True
  show ?thesis
  proof (cases "en_celEvaluator e")
    case None
    then show ?thesis by (simp add: evaluateScenario_def)
  next
    case (Some ev)
    with True show ?thesis by (simp add: evaluateScenario_eval [where ev = ev] Let_def)
  qed
next
  case False
  then show ?thesis by (simp add: evaluateScenario_prefilter)
qed

lemma scenario_alone:
  assumes "heap_ok s" "rn_work s = Scanning i (sc # rest)"
  shows "\<exists>s'. (thread_step loc)\<^sup>*\<^sup>* s s' \<and> rn_work s' = Scanning i rest \<and> asEngine s' = scenarioStep loc t i sc (asEngine s)
     \<and> rn_reload s' = rn_reload s \<and> rn_taken s' = rn_taken s"
proof -
  obtain r e where ev: "evaluateScenario (rn_engine s) sc i = (r, e)" by force
  have ev': "evaluateScenario (asEngine s) sc i = (r, e\<lparr>en_stateStore := en_stateStore (asEngine s)\<rparr>)"
    by (simp add: asEngine_def evaluate_store ev)
  have st: "en_stateStore e = en_stateStore (rn_engine s)" using evaluateScenario_frame(5) [of "rn_engine s" sc i] ev by simp
  let ?s1 = "s\<lparr>rn_engine := e, rn_work := (if r = Inr True then Matched i rest sc else Scanning i rest)\<rparr>"
  have s1: "thread_step loc s ?s1" by (rule thread_step.evaluate [OF assms(2) ev])
  show ?thesis
  proof (cases "r = Inr True")
    case False
    then have "asEngine ?s1 = scenarioStep loc t i sc (asEngine s)"
      by (simp add: scenarioStep_def ev' Let_def) (simp add: asEngine_def st)
    with s1 False show ?thesis by (intro exI [of _ ?s1]) auto
  next
    case True
    let ?key = "matchKey sc i" and ?ptr = "mget (rn_states s) (matchKey sc i)"
    let ?s2 = "?s1\<lparr>rn_work := Looked i rest sc ?ptr\<rparr>"
    let ?old = "map_option (rn_heap s) ?ptr" and ?p = "case ?ptr of None \<Rightarrow> rn_next s | Some p \<Rightarrow> p"
    let ?new = "nextState sc i ?old"
    let ?s3 = "changeState loc t i rest sc ?ptr ?s2"
    let ?e3 = "if emits sc i ?old then sendResult e (mkResult loc t sc i ?new) else e"
    let ?s4 = "?s3\<lparr>rn_engine := ?e3, rn_work := Storing i rest sc ?p\<rparr>"
    let ?s5 = "?s4\<lparr>rn_states := mput ?key ?p (rn_states s), rn_work := Scanning i rest\<rparr>"
    have s2: "thread_step loc ?s1 ?s2" using True thread_step.look_up [of ?s1 i rest sc loc] by simp
    have s3: "thread_step loc ?s2 ?s3" by (rule thread_step.change) simp
    have s4: "(thread_step loc)\<^sup>*\<^sup>* ?s3 ?s4"
    proof (cases "emits sc i ?old")
      case em: True
      have "rn_work ?s3 = Emitting i rest sc ?p (mkResult loc t sc i ?new)" "rn_engine ?s3 = e"
        using em by (cases ?ptr; simp add: changeState_def Let_def)+
      from thread_step.emit [OF this(1), of loc] this(2) em show ?thesis by simp
    next
      case False
      then have "?s3 = ?s4" by (cases ?ptr) (simp_all add: changeState_def Let_def)
      then show ?thesis by simp
    qed
    have "rn_states ?s4 = rn_states s" by (simp add: changeState_def Let_def)
    then have s5: "thread_step loc ?s4 ?s5" using thread_step.store [of ?s4 i rest sc ?p loc] by simp
    have reach: "(thread_step loc)\<^sup>*\<^sup>* s ?s5" using s1 s2 s3 s4 s5 by (meson converse_rtranclp_into_rtranclp rtranclp.rtrancl_into_rtrancl)
    have "map (\<lambda>(k, q). (k, ((rn_heap s)(?p := ?new)) q)) (mput ?key ?p (rn_states s))
        = mput ?key ?new (map (\<lambda>(k, q). (k, rn_heap s q)) (rn_states s))"
      using assms(1) by (intro deref_update [of _ "rn_next s"]) (simp_all add: heap_ok_def)
    moreover have "rn_heap ?s5 = (rn_heap s)(?p := ?new)" by (cases ?ptr) (simp_all add: changeState_def Let_def)
    ultimately have "asEngine ?s5 = handleMatch loc t (e\<lparr>en_stateStore := en_stateStore (asEngine s)\<rparr>) sc i"
      by (simp add: handleMatch_eq asEngine_def GetState_def SetState_def get_deref sendResult_def st Let_def)
    then have "asEngine ?s5 = scenarioStep loc t i sc (asEngine s)" using True by (simp add: scenarioStep_def ev')
    with reach show ?thesis by (intro exI [of _ ?s5]) (simp add: changeState_def Let_def)
  qed
qed

interpretation pointers: kept_invariant "thread_step loc" heap_ok for loc
  by unfold_locales (rule heap_ok_step)

lemma scan_alone:
  "heap_ok s \<Longrightarrow> rn_work s = Scanning i scs \<Longrightarrow>
     \<exists>s'. (thread_step loc)\<^sup>*\<^sup>* s s' \<and> rn_work s' = Waiting \<and> asEngine s' = processScenarios loc clk i n scs (asEngine s)
       \<and> rn_reload s' = rn_reload s \<and> rn_taken s' = rn_taken s"
proof (induction scs arbitrary: s n)
  case Nil
  let ?s = "s\<lparr>rn_work := Waiting\<rparr>"
  have "thread_step loc s ?s" by (rule thread_step.scanned [OF Nil.prems(2)])
  then show ?case by (intro exI [of _ ?s]) (auto simp: asEngine_def)
next
  case (Cons sc rest)
  obtain s1 where s1: "(thread_step loc)\<^sup>*\<^sup>* s s1" "rn_work s1 = Scanning i rest"
    "asEngine s1 = scenarioStep loc (clk n) i sc (asEngine s)" "rn_reload s1 = rn_reload s" "rn_taken s1 = rn_taken s"
    using scenario_alone [OF Cons.prems, of loc "clk n"] by blast
  obtain s2 where "(thread_step loc)\<^sup>*\<^sup>* s1 s2" "rn_work s2 = Waiting"
    "asEngine s2 = processScenarios loc clk i (Suc n) rest (asEngine s1)" "rn_reload s2 = rn_reload s1" "rn_taken s2 = rn_taken s1"
    using Cons.IH [OF pointers.reachable_keeps [OF s1(1) Cons.prems(1)] s1(2)] by blast
  with s1 show ?case unfolding processScenarios_step by (intro exI [of _ s2]) (auto intro: rtranclp_trans)
qed

lemma register_store:
  "snd (RegisterScenario (e\<lparr>en_stateStore := st\<rparr>) sc) = (snd (RegisterScenario e sc))\<lparr>en_stateStore := st\<rparr>"
  "en_stateStore (snd (RegisterScenario e sc)) = en_stateStore e"
proof -
  consider "ls_Expression sc = []" | "ls_Expression sc \<noteq> []" "en_celEvaluator e = None"
    | ev r ev' where "ls_Expression sc \<noteq> []" "en_celEvaluator e = Some ev" "Compile ev (ls_Expression sc) = (r, ev')"
    by (cases "en_celEvaluator e") (auto, metis surj_pair)
  then show "snd (RegisterScenario (e\<lparr>en_stateStore := st\<rparr>) sc) = (snd (RegisterScenario e sc))\<lparr>en_stateStore := st\<rparr>"
    "en_stateStore (snd (RegisterScenario e sc)) = en_stateStore e"
    by (cases; simp add: RegisterScenario_def split: sum.split)+
qed

lemma registerAll_foldl: "fst (registerAll e scs n) = foldl (\<lambda>e sc. snd (RegisterScenario e sc)) e scs"
  by (induction scs arbitrary: e n) (auto split: prod.split option.split)

lemma registerAll_step: "fst (registerAll e (sc # rest) n) = fst (registerAll (snd (RegisterScenario e sc)) rest n)"
  unfolding registerAll_foldl by simp

lemma registering_alone:
  "rn_reload s = Registering scs \<Longrightarrow>
     \<exists>s'. (thread_step loc)\<^sup>*\<^sup>* s s' \<and> rn_reload s' = NoReload \<and> asEngine s' = fst (registerAll (asEngine s) scs n)
       \<and> rn_work s' = rn_work s \<and> rn_taken s' = rn_taken s"
proof (induction scs arbitrary: s)
  case Nil
  let ?s = "s\<lparr>rn_reload := NoReload\<rparr>"
  have "thread_step loc s ?s" by (rule thread_step.reload_done [OF Nil.prems])
  then show ?case by (intro exI [of _ ?s]) (auto simp: asEngine_def)
next
  case (Cons sc rest)
  let ?s = "s\<lparr>rn_engine := snd (RegisterScenario (rn_engine s) sc), rn_reload := Registering rest\<rparr>"
  have step: "thread_step loc s ?s" by (rule thread_step.reload_registers [OF Cons.prems])
  have "asEngine ?s = snd (RegisterScenario (asEngine s) sc)" by (simp add: asEngine_def register_store)
  with step Cons.IH [of ?s] show ?case unfolding registerAll_step by (auto intro: converse_rtranclp_into_rtranclp)
qed

lemma reload_alone:
  assumes "rn_reload s = NoReload"
  shows "\<exists>s'. (thread_step loc)\<^sup>*\<^sup>* s s' \<and> rn_reload s' = NoReload \<and> asEngine s' = snd (ReloadScenarios w (asEngine s))
       \<and> rn_work s' = rn_work s \<and> rn_taken s' = rn_taken s"
proof -
  let ?loader = "en_scenarioLoader (rn_engine s)"
  let ?s1 = "s\<lparr>rn_engine := (rn_engine s)\<lparr>en_scenarios := []\<rparr>, rn_reload := (if ?loader = None then NoReload else Cleared)\<rparr>"
  have s1: "thread_step loc s ?s1" by (rule thread_step.reload_clears [OF assms])
  have as1: "asEngine ?s1 = (asEngine s)\<lparr>en_scenarios := []\<rparr>" by (simp add: asEngine_def)
  have loader: "en_scenarioLoader (asEngine s) = ?loader" by (simp add: asEngine_def)
  show ?thesis
  proof (cases ?loader)
    case None
    then show ?thesis using s1 as1 loader
      by (intro exI [of _ ?s1]) (auto simp: ReloadScenarios_def loadScenarios_def)
  next
    case load: (Some load)
    show ?thesis
    proof (cases "load w")
      case (Inl err)
      let ?s2 = "?s1\<lparr>rn_reload := NoReload\<rparr>"
      have "thread_step loc ?s1 ?s2" by (rule thread_step.reload_fails [of _ load w err]) (simp_all add: load Inl)
      moreover have "asEngine ?s2 = asEngine ?s1" by (simp add: asEngine_def)
      ultimately show ?thesis using s1 as1 loader load Inl
        by (intro exI [of _ ?s2]) (auto simp: ReloadScenarios_def loadScenarios_def intro: rtranclp.rtrancl_into_rtrancl)
    next
      case (Inr scs)
      let ?s2 = "?s1\<lparr>rn_reload := Registering scs\<rparr>"
      have "thread_step loc ?s1 ?s2" by (rule thread_step.reload_lists [of _ load w scs]) (simp_all add: load Inr)
      with s1 have s2: "(thread_step loc)\<^sup>*\<^sup>* s ?s2" by auto
      have as2: "asEngine ?s2 = (asEngine s)\<lparr>en_scenarios := []\<rparr>" by (simp add: asEngine_def)
      obtain s3 where "(thread_step loc)\<^sup>*\<^sup>* ?s2 s3" "rn_reload s3 = NoReload" "asEngine s3 = fst (registerAll (asEngine ?s2) scs 0)"
        "rn_work s3 = rn_work ?s2" "rn_taken s3 = rn_taken ?s2" using registering_alone [of ?s2 scs loc 0] by auto
      with s2 show ?thesis using loader load Inr unfolding as2
        by (intro exI [of _ s3]) (auto simp: ReloadScenarios_def loadScenarios_def)
    qed
  qed
qed

lemma cleanup_alone:
  "asEngine (s\<lparr>rn_states := fst (rangeDelete (\<lambda>k p. expired (en_stateStore (rn_engine s)) now k (rn_heap s p)) (rn_states s) (rn_states s) 0),
       rn_cleanups := n\<rparr>) = cleanupTick now (asEngine s)"
proof -
  have "expired (st\<lparr>st_states := m\<rparr>) = expired st" for st m by (intro ext) (simp add: expired_def)
  then show ?thesis by (simp add: asEngine_def cleanupTick_def Cleanup_def case_prod_beta rangeDelete_deref)
qed

text \<open>Between two rounds: the loop waits and no reload is under way.\<close>

definition quiet :: "('a, 'p, 'w) threads \<Rightarrow> bool" where
  "quiet s \<longleftrightarrow> heap_ok s \<and> rn_work s = Waiting \<and> rn_reload s = NoReload"

lemma round_alone:
  assumes "quiet s"
  shows "\<exists>s'. (thread_step loc)\<^sup>*\<^sup>* s s' \<and> quiet s' \<and> (asEngine s', rn_taken s') = engineStep loc (asEngine s, rn_taken s) ev"
proof -
  have s: "heap_ok s" "rn_work s = Waiting" "rn_reload s = NoReload" using assms by (simp_all add: quiet_def)
  have "\<exists>s'. (thread_step loc)\<^sup>*\<^sup>* s s' \<and> rn_work s' = Waiting \<and> rn_reload s' = NoReload
     \<and> (asEngine s', rn_taken s') = engineStep loc (asEngine s, rn_taken s) ev"
  proof (cases ev)
    case (Input i clk)
    let ?scs = "filter ls_Enabled (map snd (en_scenarios (rn_engine s)))"
    let ?s = "s\<lparr>rn_work := Scanning i ?scs\<rparr>"
    have step: "thread_step loc s ?s" by (rule thread_step.receive [OF s(2)])
    have "asEngine ?s = asEngine s" "en_scenarios (asEngine s) = en_scenarios (rn_engine s)" by (simp_all add: asEngine_def)
    with scan_alone [of ?s i ?scs loc clk 0] heap_ok_step [OF step s(1)] s(3) step show ?thesis
      by (auto simp: Input processInput_def intro: converse_rtranclp_into_rtranclp)
  next
    case (CleanupTick now)
    then show ?thesis
      using cleanup_alone [where s = s and now = now and n = "Suc (rn_cleanups s)"] thread_step.clean_up [of loc s now] s
      by (intro exI [of _ "s\<lparr>rn_states := _, rn_cleanups := _\<rparr>"] conjI r_into_rtranclp; (assumption | simp))
  next
    case (Reload w)
    then show ?thesis using reload_alone [OF s(3), of loc w] s(2) by auto
  next
    case Take
    show ?thesis
    proof (cases "chan_recv (en_outputCh (rn_engine s))")
      case None
      then show ?thesis using s by (intro exI [of _ s]) (simp add: Take asEngine_def)
    next
      case (Some x)
      obtain r ch where x: "x = (r, ch)" by force
      let ?s = "s\<lparr>rn_engine := (rn_engine s)\<lparr>en_outputCh := ch\<rparr>, rn_taken := rn_taken s @ [r]\<rparr>"
      have "thread_step loc s ?s" by (rule thread_step.take) (simp add: Some x)
      with s show ?thesis by (intro exI [of _ ?s]) (auto simp: Take asEngine_def Some x)
    qed
  qed
  then show ?thesis using pointers.reachable_keeps [OF _ s(1)] by (auto simp: quiet_def)
qed

lemma rounds_alone:
  "quiet s \<Longrightarrow> \<exists>s'. (thread_step loc)\<^sup>*\<^sup>* s s' \<and> quiet s' \<and> (asEngine s', rn_taken s') = engineRun loc (asEngine s, rn_taken s) evs"
proof (induction evs arbitrary: s)
  case Nil
  then show ?case by (intro exI [of _ s]) (simp add: engineRun_def)
next
  case (Cons ev evs)
  from round_alone [OF Cons.prems, of loc ev] obtain s1 where s1: "(thread_step loc)\<^sup>*\<^sup>* s s1" "quiet s1"
    "(asEngine s1, rn_taken s1) = engineStep loc (asEngine s, rn_taken s) ev" by blast
  from Cons.IH [OF s1(2)] obtain s2 where "(thread_step loc)\<^sup>*\<^sup>* s1 s2" "quiet s2"
    "(asEngine s2, rn_taken s2) = engineRun loc (asEngine s1, rn_taken s1) evs" by blast
  with s1 show ?case by (intro exI [of _ s2]) (auto simp: engineRun_def intro: rtranclp_trans)
qed

lemma start_engine:
  assumes "newEngineImpl newEnv cfg ch loader = Inr e"
  shows "en_outputCh (startRun w e) = ch" "st_states (en_stateStore (startRun w e)) = []"
proof -
  have "cel_ok e" using assms by (auto simp: newEngineImpl_def NewCELEvaluator_def cel_ok_def cel_coherent_def split: sum.splits)
  then show "en_outputCh (startRun w e) = ch" "st_states (en_stateStore (startRun w e)) = []"
    using assms loadScenarios_store [of e w False]
    by (auto simp: startRun_def setReady_def LoadScenarios_def newEngineImpl_def newInMemoryStateStore_def split: sum.splits)
qed

section \<open>Properties\<close>

text \<open>
  C11. Also when the goroutines of the engine interleave between any two uses of its locks, and although
  states are changed in place outside of them, the results ever sent for one scenario and
  resource number at most one more than the ticks of the cleanup loop.
\<close>

theorem interleaved_results:
  assumes "newEngineImpl newEnv cfg (chan_make n) loader = Inr e"
    and "(thread_step loc)\<^sup>*\<^sup>* (startThreads (startRun w e)) s"
  shows "length (filter (forKey k) (rn_taken s @ ch_buf (en_outputCh (rn_engine s)))) \<le> 1 + rn_cleanups s"
proof -
  have "thread_inv k (startThreads (startRun w e))"
    using start_engine(1) [OF assms(1), of w]
    by (simp add: thread_inv_def heap_ok_def work_ok_def balance_def sent_def marked_def startThreads_def chan_make_def)
  from engine_threads.reachable_keeps [OF assms(2) this] show ?thesis by (simp add: thread_inv_def balance_def sent_def)
qed

theorem interleaved_results_witness:
  "\<exists>s. (thread_step UTC)\<^sup>*\<^sup>* (startThreads (startRun () sample_engine)) s
     \<and> rn_work s = Scanning (sample_input 10) [sample_scenario] \<and> rn_reload s = Cleared \<and> en_scenarios (rn_engine s) = []
     \<and> length (filter (forKey (StateKey ''S1'' sample_resource)) (rn_taken s @ ch_buf (en_outputCh (rn_engine s)))) \<le> 1"
proof -
  let ?s0 = "startThreads (startRun () sample_engine)"
  have sc: "map snd (en_scenarios (rn_engine ?s0)) = [sample_scenario]" "ls_Enabled sample_scenario"
    "en_scenarioLoader (rn_engine ?s0) \<noteq> None" "rn_work ?s0 = Waiting" "rn_reload ?s0 = NoReload" "rn_cleanups ?s0 = 0"
    by (simp_all add: startThreads_def startRun_def setReady_def LoadScenarios_def loadScenarios_def sample_engine_def
        RegisterScenario_def sample_scenario_def Compile_def literal_env_def BoolType_def)
  let ?s1 = "?s0\<lparr>rn_work := Scanning (sample_input 10) [sample_scenario]\<rparr>"
  let ?s2 = "?s1\<lparr>rn_engine := (rn_engine ?s1)\<lparr>en_scenarios := []\<rparr>, rn_reload := Cleared\<rparr>"
  have "thread_step UTC ?s0 ?s1" using thread_step.receive [of ?s0 UTC "sample_input 10"] sc by simp
  moreover have "thread_step UTC ?s1 ?s2" using thread_step.reload_clears [of ?s1 UTC] sc by simp
  ultimately have run: "(thread_step UTC)\<^sup>*\<^sup>* ?s0 ?s2" by auto
  show ?thesis
    using interleaved_results [OF sample_engine_new run, of "StateKey ''S1'' sample_resource"] run sc(6)
    by (intro exI [of _ ?s2]) simp
qed



end
