(* ===== verification/GoMemory.thy ===== *)
theory GoMemory
  imports Prelude "HOL-Library.Monad_Syntax"
begin

text \<open>
  The generated deep copies of the custom resources, \<open>api/v1alpha1/zz_generated.deepcopy.go\<close>. Elsewhere the
  resources are immutable values; here they are what Go has, structs whose pointers, slices and maps
  refer to blocks of a memory. A copy is a function on a value and the memory. Each
  \<open>DeepCopyInto\<close> is written with the statements the generator uses (\<open>into\<close>, \<open>newPtr\<close>, \<open>makeSlice\<close>, \<open>makeMap\<close>), and
  each struct has its type, so that a field of reference type that is only assigned shows up.
  Shown: every copy has the value of the original and shares no memory with it.
\<close>

section \<open>Memory\<close>

datatype goPrim = PStr string | PInt int | PBool bool

text \<open>A pointer, slice or map is a reference to a block, or nil.\<close>

datatype goVal = Prim goPrim | Struct "(string \<times> goVal) list" | Ref "nat option"

datatype refKind = KPtr | KSlice | KMap

text \<open>The elements of a block; only those of a map have keys. The block of a pointer has one element.\<close>

datatype block = Block refKind "(string \<times> goVal) list"

record memory =
  mm_next :: nat
  mm_blocks :: "nat \<Rightarrow> block"

definition alloc :: "block \<Rightarrow> memory \<Rightarrow> goVal \<times> memory" where
  "alloc b m = (Ref (Some (mm_next m)), m\<lparr>mm_next := Suc (mm_next m), mm_blocks := (mm_blocks m)(mm_next m := b)\<rparr>)"

definition storeAt :: "nat \<Rightarrow> block \<Rightarrow> memory \<Rightarrow> memory" where
  "storeAt a b m = m\<lparr>mm_blocks := (mm_blocks m)(a := b)\<rparr>"

section \<open>Types and values\<close>

datatype goType = TPrim | TStruct "(string \<times> goType) list" | TRef refKind goType

datatype goTree = VPrim goPrim | VStruct "(string \<times> goTree) list" | VNil | VBlock refKind "(string \<times> goTree) list"

text \<open>
  The value of a Go value of a type, without addresses, and the addresses it reaches; \<open>None\<close> if it is not
  of the type or refers to memory that is not allocated.
\<close>

fun viewElems :: "('a \<Rightarrow> (goTree \<times> nat set) option) \<Rightarrow> (string \<times> 'a) list \<Rightarrow> ((string \<times> goTree) list \<times> nat set) option" where
  "viewElems f [] = Some ([], {})"
| "viewElems f ((k, e) # es) = do { (x, A) \<leftarrow> f e; (xs, B) \<leftarrow> viewElems f es; Some ((k, x) # xs, A \<union> B) }"

fun view :: "memory \<Rightarrow> goType \<Rightarrow> goVal \<Rightarrow> (goTree \<times> nat set) option"
  and viewFields :: "memory \<Rightarrow> (string \<times> goType) list \<Rightarrow> (string \<times> goVal) list \<Rightarrow> ((string \<times> goTree) list \<times> nat set) option" where
  "view m TPrim (Prim p) = Some (VPrim p, {})"
| "view m (TStruct fs) (Struct vs) = do { (xs, A) \<leftarrow> viewFields m fs vs; Some (VStruct xs, A) }"
| "view m (TRef k t) (Ref None) = Some (VNil, {})"
| "view m (TRef k t) (Ref (Some a)) =
     (case mm_blocks m a of Block k' es \<Rightarrow>
        if a < mm_next m \<and> k' = k \<and> (k = KPtr \<longrightarrow> length es = 1)
        then do { (xs, A) \<leftarrow> viewElems (view m t) es; Some (VBlock k xs, insert a A) } else None)"
| "view m _ _ = None"
| "viewFields m [] [] = Some ([], {})"
| "viewFields m ((f, t) # fs) ((g, v) # vs) =
     (if f = g then do { (x, A) \<leftarrow> view m t v; (xs, B) \<leftarrow> viewFields m fs vs; Some ((f, x) # xs, A \<union> B) } else None)"
| "viewFields m _ _ = None"

section \<open>The statements of the generator\<close>

type_synonym copier = "goVal \<Rightarrow> memory \<Rightarrow> goVal \<times> memory"

text \<open>\<open>out.F = in.F\<close>, \<open>**out = **in\<close>, and the elements in \<open>copy(*out, *in)\<close>\<close>

definition assign :: copier where
  "assign v m = (v, m)"

fun copyElems :: "copier \<Rightarrow> (string \<times> goVal) list \<Rightarrow> memory \<Rightarrow> (string \<times> goVal) list \<times> memory" where
  "copyElems c [] m = ([], m)"
| "copyElems c ((k, e) # es) m = (let (e', m1) = c e m; (es', m2) = copyElems c es m1 in ((k, e') # es', m2))"

text \<open>
  \<open>if in.F != nil { *out = new(T) or make(...); copy the elements }\<close>. The block is allocated here after its
  elements have been copied; no statement depends on the order of allocations.
\<close>

definition fresh :: "refKind \<Rightarrow> copier \<Rightarrow> copier" where
  "fresh k c v m =
     (case v of
        Ref (Some a) \<Rightarrow>
          (case mm_blocks m a of Block _ es \<Rightarrow> let (es', m1) = copyElems c es m in alloc (Block k es') m1)
      | _ \<Rightarrow> (v, m))"

definition newPtr :: "copier \<Rightarrow> copier" where "newPtr = fresh KPtr"
definition makeSlice :: "copier \<Rightarrow> copier" where "makeSlice = fresh KSlice"
definition makeMap :: "copier \<Rightarrow> copier" where "makeMap = fresh KMap"

text \<open>\<open>*out = *in\<close>, followed by the fields that are copied in their own way\<close>

fun copyFields :: "(string \<times> copier) list \<Rightarrow> (string \<times> goVal) list \<Rightarrow> memory \<Rightarrow> (string \<times> goVal) list \<times> memory" where
  "copyFields cs [] m = ([], m)"
| "copyFields cs ((f, v) # vs) m =
     (let (v', m1) = (case map_of cs f of Some c \<Rightarrow> c v m | None \<Rightarrow> (v, m)); (vs', m2) = copyFields cs vs m1
      in ((f, v') # vs', m2))"

definition into :: "(string \<times> copier) list \<Rightarrow> copier" where
  "into cs v m = (case v of Struct vs \<Rightarrow> (let (vs', m') = copyFields cs vs m in (Struct vs', m')) | _ \<Rightarrow> (v, m))"

text \<open>
  \<open>DeepCopy\<close>: nil for nil, else a new struct that \<open>DeepCopyInto\<close> fills. \<open>DeepCopyObject\<close> gives the same as an
  interface value, and \<open>*val.DeepCopy()\<close> the struct without its pointer.
\<close>

definition DeepCopy :: "copier \<Rightarrow> copier" where
  "DeepCopy deepCopyInto v m = newPtr deepCopyInto v m"

definition DeepCopyObject :: "copier \<Rightarrow> copier" where
  "DeepCopyObject deepCopyInto v m =
     (let (c, m') = DeepCopy deepCopyInto v m in if c \<noteq> Ref None then (c, m') else (Ref None, m'))"

definition derefDeepCopy :: "copier \<Rightarrow> copier" where
  "derefDeepCopy deepCopyInto v m =
     (let (p, m1) = alloc (Block KPtr [('''', v)]) m; (c, m2) = DeepCopy deepCopyInto p m1
      in case c of Ref (Some a) \<Rightarrow> (case mm_blocks m2 a of Block _ ((_, v') # _) \<Rightarrow> (v', m2) | _ \<Rightarrow> (v, m2)) | _ \<Rightarrow> (v, m2))"

section \<open>Deep copies\<close>

definition extends :: "memory \<Rightarrow> memory \<Rightarrow> bool" where
  "extends m m' \<longleftrightarrow> mm_next m \<le> mm_next m' \<and> (\<forall>a < mm_next m. mm_blocks m' a = mm_blocks m a)"

text \<open>The copy has the same value in new memory, and the memory of before is as it was.\<close>

definition deep :: "goType \<Rightarrow> copier \<Rightarrow> bool" where
  "deep t c \<longleftrightarrow> (\<forall>m v x A. view m t v = Some (x, A) \<longrightarrow>
     extends m (snd (c v m)) \<and> (\<exists>B. view (snd (c v m)) t (fst (c v m)) = Some (x, B) \<and> (\<forall>b \<in> B. mm_next m \<le> b)))"

text \<open>Types without references\<close>

fun flat :: "goType \<Rightarrow> bool" where
  "flat TPrim = True"
| "flat (TStruct fs) = list_all (\<lambda>(f, t). flat t) fs"
| "flat (TRef k t) = False"

lemma extends_refl [simp]: "extends m m"
  by (simp add: extends_def)

lemma extends_trans [trans]: "extends m m1 \<Longrightarrow> extends m1 m2 \<Longrightarrow> extends m m2"
  by (auto simp: extends_def)

lemma extends_next: "extends m m' \<Longrightarrow> mm_next m \<le> mm_next m'"
  by (simp add: extends_def)

lemma extends_alloc [simp]: "extends m (snd (alloc b m))"
  by (simp add: extends_def alloc_def)

text \<open>A value reaches allocated memory only, and depends on nothing else.\<close>

lemma viewElems_reach:
  "viewElems f es = Some (xs, A) \<Longrightarrow> (\<And>k e x B. (k, e) \<in> set es \<Longrightarrow> f e = Some (x, B) \<Longrightarrow> P B) \<Longrightarrow> P {} \<Longrightarrow>
     (\<And>A B. P A \<Longrightarrow> P B \<Longrightarrow> P (A \<union> B)) \<Longrightarrow> P A"
  by (induction f es arbitrary: xs A rule: viewElems.induct) (fastforce simp: bind_eq_Some_conv)+

lemma view_bounded:
  "view m t v = Some (x, A) \<Longrightarrow> A \<subseteq> {..<mm_next m}"
  "viewFields m fs vs = Some (xs, A) \<Longrightarrow> A \<subseteq> {..<mm_next m}"
proof (induction m t v and m fs vs arbitrary: x A and xs A rule: view_viewFields.induct)
  case (4 m k t a)
  then obtain k' es where b: "mm_blocks m a = Block k' es" by (cases "mm_blocks m a")
  with 4 obtain ys B where "viewElems (view m t) es = Some (ys, B)" "A = insert a B" "a < mm_next m"
    by (auto simp: bind_eq_Some_conv split: if_splits)
  moreover have "B \<subseteq> {..<mm_next m}"
    by (rule viewElems_reach [OF \<open>viewElems (view m t) es = Some (ys, B)\<close>]) (use 4 b \<open>a < mm_next m\<close> in \<open>auto split: if_splits\<close>)
  ultimately show ?case by simp
qed (fastforce simp: bind_eq_Some_conv split: if_splits)+

lemma viewElems_mono:
  "viewElems f es = Some (xs, A) \<Longrightarrow> (\<And>e x B. f e = Some (x, B) \<Longrightarrow> B \<subseteq> A \<Longrightarrow> g e = Some (x, B)) \<Longrightarrow> viewElems g es = Some (xs, A)"
proof (induction f es arbitrary: xs A rule: viewElems.induct)
  case (2 f k e es)
  then obtain x B ys C where e: "f e = Some (x, B)" and es: "viewElems f es = Some (ys, C)" and r: "xs = (k, x) # ys" "A = B \<union> C"
    by (auto simp: bind_eq_Some_conv)
  have "viewElems g es = Some (ys, C)" by (rule 2(1) [OF e refl es]) (rule 2(3); use r in auto)
  moreover have "g e = Some (x, B)" using 2(3) e r by auto
  ultimately show ?case using r by simp
qed simp

lemma view_frame:
  "view m t v = Some (x, A) \<Longrightarrow> (\<And>a. a \<in> A \<Longrightarrow> a < mm_next m' \<and> mm_blocks m' a = mm_blocks m a) \<Longrightarrow> view m' t v = Some (x, A)"
  "viewFields m fs vs = Some (xs, A) \<Longrightarrow> (\<And>a. a \<in> A \<Longrightarrow> a < mm_next m' \<and> mm_blocks m' a = mm_blocks m a) \<Longrightarrow> viewFields m' fs vs = Some (xs, A)"
proof (induction m t v and m fs vs arbitrary: x A and xs A rule: view_viewFields.induct)
  case (4 m k t a)
  then obtain k' es where b: "mm_blocks m a = Block k' es" by (cases "mm_blocks m a")
  with 4 obtain ys B where es: "viewElems (view m t) es = Some (ys, B)" "A = insert a B" "x = VBlock k ys"
    and ok: "a < mm_next m" "k' = k" "k = KPtr \<longrightarrow> length es = 1"
    by (auto simp: bind_eq_Some_conv split: if_splits)
  have "viewElems (view m' t) es = Some (ys, B)"
    by (rule viewElems_mono [OF es(1)]) (rule 4(1) [OF b]; use ok 4(3) es(2) in auto)
  moreover have "a < mm_next m'" "mm_blocks m' a = Block k' es" using 4(3) b es(2) by auto
  ultimately show ?case using ok es by simp
next
  case (7 m f t fs g v vs)
  from 7(3) obtain y B ys C where r: "f = g" "view m t v = Some (y, B)" "viewFields m fs vs = Some (ys, C)" "xs = (f, y) # ys" "A = B \<union> C"
    by (auto simp: bind_eq_Some_conv split: if_splits)
  then show ?case using 7 by auto
qed (auto simp: bind_eq_Some_conv)

lemma view_extends: "view m t v = Some (x, A) \<Longrightarrow> extends m m' \<Longrightarrow> view m' t v = Some (x, A)"
  using view_bounded(1) [of m t v x A] by (auto simp: extends_def intro!: view_frame(1) [of m])

lemma viewElems_extends: "viewElems (view m t) es = Some (xs, A) \<Longrightarrow> extends m m' \<Longrightarrow> viewElems (view m' t) es = Some (xs, A)"
  by (erule viewElems_mono) (rule view_extends)

lemma flat_no_refs:
  "view m t v = Some (x, A) \<Longrightarrow> flat t \<Longrightarrow> A = {}"
  "viewFields m fs vs = Some (xs, A) \<Longrightarrow> list_all (\<lambda>(f, t). flat t) fs \<Longrightarrow> A = {}"
  by (induction m t v and m fs vs arbitrary: x A and xs A rule: view_viewFields.induct)
    (auto simp: bind_eq_Some_conv split: if_splits)

section \<open>The statements copy deeply\<close>

lemma deepD:
  "deep t c \<Longrightarrow> view m t v = Some (x, A) \<Longrightarrow> c v m = (v', m') \<Longrightarrow>
     extends m m' \<and> (\<exists>B. view m' t v' = Some (x, B) \<and> (\<forall>b \<in> B. mm_next m \<le> b))"
  unfolding deep_def by (metis fst_conv snd_conv)

lemma deep_assign: "flat t \<Longrightarrow> deep t assign"
  using flat_no_refs(1) by (fastforce simp: deep_def assign_def)

lemma copyElems_deep:
  assumes "deep t c"
  shows "viewElems (view m t) es = Some (xs, A) \<Longrightarrow> copyElems c es m = (es', m') \<Longrightarrow>
     extends m m' \<and> length es' = length es \<and> (\<exists>B. viewElems (view m' t) es' = Some (xs, B) \<and> (\<forall>b \<in> B. mm_next m \<le> b))"
proof (induction es arbitrary: m xs A es' m')
  case (Cons p es)
  obtain k e where p: "p = (k, e)" by force
  obtain e' m1 where c: "c e m = (e', m1)" by force
  obtain es1 m2 where cs: "copyElems c es m1 = (es1, m2)" by force
  have out: "es' = (k, e') # es1" "m' = m2" using Cons.prems(2) p c cs by auto
  from Cons.prems(1) p obtain x B ys C where e: "view m t e = Some (x, B)" and es: "viewElems (view m t) es = Some (ys, C)"
    and xs: "xs = (k, x) # ys" by (auto simp: bind_eq_Some_conv)
  from assms e c obtain B' where b: "extends m m1" "view m1 t e' = Some (x, B')" "\<forall>b \<in> B'. mm_next m \<le> b"
    using deepD [of t c] by blast
  from Cons.IH [OF viewElems_extends [OF es b(1)] cs] obtain C' where
    d: "extends m1 m2" "length es1 = length es" "viewElems (view m2 t) es1 = Some (ys, C')" "\<forall>b \<in> C'. mm_next m1 \<le> b" by blast
  have "viewElems (view m2 t) es' = Some (xs, B' \<union> C')" using view_extends [OF b(2) d(1)] d(3) xs out by simp
  moreover have "\<forall>b \<in> B' \<union> C'. mm_next m \<le> b" using b d(4) extends_next [OF b(1)] by fastforce
  ultimately show ?case using b(1) d(1,2) out by (auto intro: extends_trans)
qed simp

lemma fresh_deep:
  assumes "deep t c"
  shows "deep (TRef k t) (fresh k c)"
  unfolding deep_def
proof (intro allI impI)
  fix m v x A
  assume v: "view m (TRef k t) v = Some (x, A)"
  then consider "v = Ref None" | a where "v = Ref (Some a)" by (cases v) (auto elim!: option.exhaust)
  then show "extends m (snd (fresh k c v m)) \<and> (\<exists>B. view (snd (fresh k c v m)) (TRef k t) (fst (fresh k c v m)) = Some (x, B) \<and> (\<forall>b \<in> B. mm_next m \<le> b))"
  proof cases
    case 1
    with v show ?thesis by (simp add: fresh_def)
  next
    case (2 a)
    obtain k' es where b: "mm_blocks m a = Block k' es" by (cases "mm_blocks m a")
    with v 2 obtain xs C where es: "viewElems (view m t) es = Some (xs, C)" "x = VBlock k xs" "k = KPtr \<longrightarrow> length es = 1"
      by (auto simp: bind_eq_Some_conv split: if_splits)
    obtain es' m1 where cp: "copyElems c es m = (es', m1)" by force
    let ?m2 = "snd (alloc (Block k es') m1)"
    from copyElems_deep [OF assms es(1) cp] obtain B where d: "extends m m1" "length es' = length es"
      "viewElems (view m1 t) es' = Some (xs, B)" "\<forall>b \<in> B. mm_next m \<le> b" by blast
    have out: "fresh k c v m = (Ref (Some (mm_next m1)), ?m2)" using 2 b cp by (simp add: fresh_def alloc_def)
    have "viewElems (view ?m2 t) es' = Some (xs, B)" by (rule viewElems_extends [OF d(3)]) simp
    then have "view ?m2 (TRef k t) (Ref (Some (mm_next m1))) = Some (x, insert (mm_next m1) B)"
      using es d(2) by (simp add: alloc_def)
    moreover have "extends m ?m2" using d(1) by (blast intro: extends_trans extends_alloc)
    ultimately show ?thesis using d(4) extends_next [OF d(1)] out by auto
  qed
qed

text \<open>A struct is copied deeply when every field that is not copied in its own way has no references.\<close>

fun covered :: "(string \<times> copier) list \<Rightarrow> (string \<times> goType) list \<Rightarrow> bool" where
  "covered cs [] \<longleftrightarrow> True"
| "covered cs ((f, t) # fs) \<longleftrightarrow> (case map_of cs f of Some c \<Rightarrow> deep t c | None \<Rightarrow> flat t) \<and> covered cs fs"

lemma copyFields_deep:
  "covered cs fs \<Longrightarrow> viewFields m fs vs = Some (xs, A) \<Longrightarrow> copyFields cs vs m = (vs', m') \<Longrightarrow>
     extends m m' \<and> (\<exists>B. viewFields m' fs vs' = Some (xs, B) \<and> (\<forall>b \<in> B. mm_next m \<le> b))"
proof (induction vs arbitrary: m fs xs A vs' m')
  case Nil
  then show ?case by (cases fs) auto
next
  case (Cons p vs)
  obtain f v where p: "p = (f, v)" by force
  from Cons.prems(2) p obtain t fs' where fs: "fs = (f, t) # fs'" by (cases fs) (auto split: if_splits)
  from Cons.prems(2) p fs obtain x B ys C where v: "view m t v = Some (x, B)" and vs: "viewFields m fs' vs = Some (ys, C)"
    and xs: "xs = (f, x) # ys" by (auto simp: bind_eq_Some_conv)
  let ?c = "case map_of cs f of Some c \<Rightarrow> c | None \<Rightarrow> assign"
  obtain v' m1 where c: "?c v m = (v', m1)" by force
  obtain vs1 m2 where r: "copyFields cs vs m1 = (vs1, m2)" by force
  have "(case map_of cs f of Some c \<Rightarrow> c v m | None \<Rightarrow> (v, m)) = (v', m1)" using c by (simp add: assign_def split: option.splits)
  then have out: "vs' = (f, v') # vs1" "m' = m2" using Cons.prems(3) p r by auto
  have "deep t ?c" and cov: "covered cs fs'" using Cons.prems(1) fs by (auto simp: deep_assign split: option.splits)
  from deepD [OF this(1) v c] obtain B' where b: "extends m m1" "view m1 t v' = Some (x, B')" "\<forall>b \<in> B'. mm_next m \<le> b" by blast
  have "viewFields m1 fs' vs = Some (ys, C)"
    by (rule view_frame(2) [OF vs]) (use view_bounded(2) [OF vs] b(1) in \<open>fastforce simp: extends_def\<close>)
  from Cons.IH [OF cov this r] obtain C' where
    d: "extends m1 m2" "viewFields m2 fs' vs1 = Some (ys, C')" "\<forall>b \<in> C'. mm_next m1 \<le> b" by blast
  have "viewFields m2 fs vs' = Some (xs, B' \<union> C')" using view_extends [OF b(2) d(1)] d(2) xs fs out by simp
  moreover have "\<forall>b \<in> B' \<union> C'. mm_next m \<le> b" using b(3) d(3) extends_next [OF b(1)] by fastforce
  ultimately show ?case using b(1) d(1) out by (auto intro: extends_trans)
qed

lemma into_deep: "covered cs fs \<Longrightarrow> deep (TStruct fs) (into cs)"
  unfolding deep_def
proof (intro allI impI)
  fix m v x A
  assume cov: "covered cs fs" and v: "view m (TStruct fs) v = Some (x, A)"
  then obtain vs xs where vs: "v = Struct vs" "viewFields m fs vs = Some (xs, A)" "x = VStruct xs"
    by (cases v) (auto simp: bind_eq_Some_conv)
  obtain vs' m' where cp: "copyFields cs vs m = (vs', m')" by force
  from copyFields_deep [OF cov vs(2) cp] vs cp
  show "extends m (snd (into cs v m)) \<and> (\<exists>B. view (snd (into cs v m)) (TStruct fs) (fst (into cs v m)) = Some (x, B) \<and> (\<forall>b \<in> B. mm_next m \<le> b))"
    by (auto simp: into_def)
qed

lemma DeepCopy_deep: "deep t c \<Longrightarrow> deep (TRef KPtr t) (DeepCopy c)"
  using fresh_deep [of t c KPtr] by (simp add: deep_def DeepCopy_def newPtr_def)

lemma DeepCopyObject_same: "DeepCopyObject c = DeepCopy c"
  by (auto simp: DeepCopyObject_def fun_eq_iff split: prod.splits)

lemma derefDeepCopy_eq:
  "derefDeepCopy c v m =
     (let (v', m1) = c v (snd (alloc (Block KPtr [('''', v)]) m)) in (v', snd (alloc (Block KPtr [('''', v')]) m1)))"
  by (simp add: derefDeepCopy_def DeepCopy_def newPtr_def fresh_def alloc_def Let_def split: prod.split)

lemma derefDeepCopy_deep:
  assumes "deep t c"
  shows "deep t (derefDeepCopy c)"
  unfolding deep_def
proof (intro allI impI)
  fix m v x A
  assume v: "view m t v = Some (x, A)"
  let ?m0 = "snd (alloc (Block KPtr [('''', v)]) m)"
  obtain v' m1 where c: "c v ?m0 = (v', m1)" by force
  let ?m2 = "snd (alloc (Block KPtr [('''', v')]) m1)"
  have ext: "extends m ?m0" "extends m1 ?m2" by simp_all
  from deepD [OF assms view_extends [OF v ext(1)] c] obtain B where
    b: "extends ?m0 m1" "view m1 t v' = Some (x, B)" "\<forall>b \<in> B. mm_next ?m0 \<le> b" by blast
  have "extends m ?m2" using ext b(1) by (blast intro: extends_trans)
  then show "extends m (snd (derefDeepCopy c v m)) \<and>
      (\<exists>B. view (snd (derefDeepCopy c v m)) t (fst (derefDeepCopy c v m)) = Some (x, B) \<and> (\<forall>b \<in> B. mm_next m \<le> b))"
    using view_extends [OF b(2) ext(2)] b(3) extends_next [OF ext(1)] by (auto simp: derefDeepCopy_eq c intro: order_trans)
qed

lemma makers_deep:
  "deep t c \<Longrightarrow> deep (TRef KPtr t) (newPtr c)" "deep t c \<Longrightarrow> deep (TRef KSlice t) (makeSlice c)" "deep t c \<Longrightarrow> deep (TRef KMap t) (makeMap c)"
  by (simp_all add: newPtr_def makeSlice_def makeMap_def fresh_deep)

lemmas deep_intros = deep_assign makers_deep derefDeepCopy_deep into_deep

text \<open>Memory that a value does not reach can be overwritten.\<close>

lemma view_storeAt: "view m t v = Some (x, A) \<Longrightarrow> a \<notin> A \<Longrightarrow> view (storeAt a b m) t v = Some (x, A)"
  using view_bounded(1) [of m t v x A] by (auto simp: storeAt_def intro!: view_frame(1) [of m])

lemma deep_separates:
  assumes "deep t c" "view m t v = Some (x, A)" "c v m = (v', m')"
  obtains B where "view m' t v = Some (x, A)" "view m' t v' = Some (x, B)" "A \<inter> B = {}"
proof -
  from deepD [OF assms] obtain B where "extends m m'" "view m' t v' = Some (x, B)" "\<forall>b \<in> B. mm_next m \<le> b" by blast
  then show thesis using that view_extends [OF assms(2)] view_bounded(1) [OF assms(2)] by fastforce
qed

end
