(* ===== verification/ApiCopies.thy ===== *)
theory ApiCopies
  imports GoMemory
begin

text \<open>
  The types of \<open>api/v1alpha1\<close> with their references, the 74 functions of \<open>zz_generated.deepcopy.go\<close> in the
  statements of \<open>GoMemory\<close>, and the registration of the kinds. The types of \<open>metav1\<close> and their copies are
  arguments; \<open>meta_ok\<close> is what their documentation says: durations and type metadata are plain data, and
  the other copies are deep.
\<close>

record apiMeta =
  am_TypeMeta :: goType
  am_Duration :: goType
  am_Time :: "goType \<times> copier"
  am_ObjectMeta :: "goType \<times> copier"
  am_ListMeta :: "goType \<times> copier"
  am_LabelSelector :: "goType \<times> copier"
  am_Condition :: "goType \<times> copier"

definition meta_ok :: "apiMeta \<Rightarrow> bool" where
  "meta_ok M \<longleftrightarrow> flat (am_TypeMeta M) \<and> flat (am_Duration M)
     \<and> list_all (\<lambda>(t, c). deep t c) [am_Time M, am_ObjectMeta M, am_ListMeta M, am_LabelSelector M, am_Condition M]"

section \<open>The types of the API\<close>

definition ResourceFilter_type :: goType where
  "ResourceFilter_type = TStruct [
     (''Kind'', TPrim), (''APIVersion'', TPrim)]"

definition ThresholdSpec_type :: "apiMeta \<Rightarrow> goType" where
  "ThresholdSpec_type M = TStruct [
     (''Count'', TPrim), (''Window'', am_Duration M)]"

definition DetectionSpec_type :: "apiMeta \<Rightarrow> goType" where
  "DetectionSpec_type M = TStruct [
     (''Source'', TPrim), (''Resource'', TRef KPtr ResourceFilter_type), (''Expression'', TPrim),
     (''Threshold'', TRef KPtr (ThresholdSpec_type M)), (''Duration'', TRef KPtr (am_Duration M))]"

definition ActionSpec_type :: goType where
  "ActionSpec_type = TStruct [
     (''Type'', TPrim), (''Order'', TPrim), (''Params'', TRef KMap TPrim), (''If'', TPrim), (''Unless'', TPrim)]"

definition NotifySpec_type :: goType where
  "NotifySpec_type = TStruct [
     (''Severity'', TPrim), (''Channels'', TRef KSlice TPrim), (''Message'', TPrim)]"

definition EscalationSpec_type :: goType where
  "EscalationSpec_type = TStruct [
     (''Notify'', TRef KPtr NotifySpec_type), (''CreateEvent'', TPrim), (''MarkResource'', TPrim)]"

definition RemediationSpec_type :: "apiMeta \<Rightarrow> goType" where
  "RemediationSpec_type M = TStruct [
     (''Actions'', TRef KSlice ActionSpec_type), (''Cooldown'', TRef KPtr (am_Duration M)), (''MaxRetries'', TPrim),
     (''Escalation'', TRef KPtr EscalationSpec_type)]"

definition ParameterSpec_type :: goType where
  "ParameterSpec_type = TStruct [
     (''Name'', TPrim), (''Type'', TPrim), (''Description'', TPrim), (''Default'', TPrim), (''Required'', TPrim)]"

definition DocumentationSpec_type :: goType where
  "DocumentationSpec_type = TStruct [
     (''Summary'', TPrim), (''RootCauses'', TRef KSlice TPrim), (''ManualSteps'', TRef KSlice TPrim), (''RunbookURL'', TPrim)]"

definition Scenario_type :: "apiMeta \<Rightarrow> goType" where
  "Scenario_type M = TStruct [
     (''ID'', TPrim), (''Name'', TPrim), (''Description'', TPrim), (''Enabled'', TPrim), (''Severity'', TPrim),
     (''Category'', TPrim), (''Detection'', DetectionSpec_type M), (''Remediation'', RemediationSpec_type M),
     (''Parameters'', TRef KSlice ParameterSpec_type), (''Documentation'', DocumentationSpec_type)]"

definition ScenarioLibrarySpec_type :: "apiMeta \<Rightarrow> goType" where
  "ScenarioLibrarySpec_type M = TStruct [
     (''Scenarios'', TRef KMap (Scenario_type M))]"

definition ScenarioLibraryStatus_type :: "apiMeta \<Rightarrow> goType" where
  "ScenarioLibraryStatus_type M = TStruct [
     (''ScenarioCount'', TPrim), (''EnabledCount'', TPrim), (''LastUpdated'', fst (am_Time M)),
     (''Conditions'', TRef KSlice (fst (am_Condition M)))]"

definition ScenarioLibrary_type :: "apiMeta \<Rightarrow> goType" where
  "ScenarioLibrary_type M = TStruct [
     (''TypeMeta'', am_TypeMeta M), (''ObjectMeta'', fst (am_ObjectMeta M)), (''Spec'', ScenarioLibrarySpec_type M),
     (''Status'', ScenarioLibraryStatus_type M)]"

definition ScenarioLibraryList_type :: "apiMeta \<Rightarrow> goType" where
  "ScenarioLibraryList_type M = TStruct [
     (''TypeMeta'', am_TypeMeta M), (''ListMeta'', fst (am_ListMeta M)), (''Items'', TRef KSlice (ScenarioLibrary_type M))]"

definition TargetSelector_type :: "apiMeta \<Rightarrow> goType" where
  "TargetSelector_type M = TStruct [
     (''Namespaces'', TRef KSlice TPrim), (''ExcludedNamespaces'', TRef KSlice TPrim),
     (''LabelSelector'', TRef KPtr (fst (am_LabelSelector M))), (''ResourceTypes'', TRef KSlice TPrim)]"

definition ScenarioLibraryReference_type :: goType where
  "ScenarioLibraryReference_type = TStruct [
     (''Name'', TPrim)]"

definition ScenarioConfig_type :: "apiMeta \<Rightarrow> goType" where
  "ScenarioConfig_type M = TStruct [
     (''Name'', TPrim), (''Enabled'', TRef KPtr TPrim), (''Parameters'', TRef KMap TPrim),
     (''Cooldown'', TRef KPtr (am_Duration M)), (''MaxRetries'', TRef KPtr TPrim), (''AdditionalLabels'', TRef KMap TPrim)]"

definition GlobalEscalationConfig_type :: goType where
  "GlobalEscalationConfig_type = TStruct [
     (''Enabled'', TPrim), (''DefaultChannels'', TRef KSlice TPrim)]"

definition SecretReference_type :: goType where
  "SecretReference_type = TStruct [
     (''Name'', TPrim), (''Namespace'', TPrim), (''Key'', TPrim)]"

definition NotificationChannel_type :: goType where
  "NotificationChannel_type = TStruct [
     (''Name'', TPrim), (''Type'', TPrim), (''URL'', TPrim), (''SecretRef'', TRef KPtr SecretReference_type)]"

definition GlobalPolicyConfig_type :: "apiMeta \<Rightarrow> goType" where
  "GlobalPolicyConfig_type M = TStruct [
     (''DryRun'', TPrim), (''Paused'', TPrim), (''DefaultCooldown'', TRef KPtr (am_Duration M)),
     (''DefaultMaxRetries'', TRef KPtr TPrim), (''Escalation'', TRef KPtr GlobalEscalationConfig_type),
     (''NotificationChannels'', TRef KSlice NotificationChannel_type)]"

definition ClusterRemediationPolicySpec_type :: "apiMeta \<Rightarrow> goType" where
  "ClusterRemediationPolicySpec_type M = TStruct [
     (''TargetSelector'', TargetSelector_type M), (''ScenarioLibraryRef'', ScenarioLibraryReference_type),
     (''ScenarioConfigs'', TRef KSlice (ScenarioConfig_type M)), (''GlobalConfig'', GlobalPolicyConfig_type M)]"

definition DetectionStats_type :: goType where
  "DetectionStats_type = TStruct [
     (''TotalDetections'', TPrim), (''Last24Hours'', TPrim), (''ByScenario'', TRef KMap TPrim)]"

definition RemediationStats_type :: goType where
  "RemediationStats_type = TStruct [
     (''TotalRemediations'', TPrim), (''SuccessCount'', TPrim), (''FailureCount'', TPrim), (''SkippedCount'', TPrim),
     (''EscalationCount'', TPrim), (''Last24Hours'', TPrim)]"

definition ClusterRemediationPolicyStatus_type :: "apiMeta \<Rightarrow> goType" where
  "ClusterRemediationPolicyStatus_type M = TStruct [
     (''Active'', TPrim), (''MatchedResources'', TPrim), (''EnabledScenarios'', TPrim),
     (''LastEvaluated'', fst (am_Time M)), (''DetectionStats'', DetectionStats_type),
     (''RemediationStats'', RemediationStats_type), (''Conditions'', TRef KSlice (fst (am_Condition M)))]"

definition ClusterRemediationPolicy_type :: "apiMeta \<Rightarrow> goType" where
  "ClusterRemediationPolicy_type M = TStruct [
     (''TypeMeta'', am_TypeMeta M), (''ObjectMeta'', fst (am_ObjectMeta M)),
     (''Spec'', ClusterRemediationPolicySpec_type M), (''Status'', ClusterRemediationPolicyStatus_type M)]"

definition ClusterRemediationPolicyList_type :: "apiMeta \<Rightarrow> goType" where
  "ClusterRemediationPolicyList_type M = TStruct [
     (''TypeMeta'', am_TypeMeta M), (''ListMeta'', fst (am_ListMeta M)),
     (''Items'', TRef KSlice (ClusterRemediationPolicy_type M))]"

definition TaskTarget_type :: goType where
  "TaskTarget_type = TStruct [
     (''APIVersion'', TPrim), (''Kind'', TPrim), (''Name'', TPrim), (''Namespace'', TPrim)]"

definition TaskAction_type :: goType where
  "TaskAction_type = TStruct [
     (''Type'', TPrim), (''Order'', TPrim), (''Params'', TRef KMap TPrim)]"

definition RemediationTaskSpec_type :: "apiMeta \<Rightarrow> goType" where
  "RemediationTaskSpec_type M = TStruct [
     (''ScenarioID'', TPrim), (''ScenarioName'', TPrim), (''DetectionResultID'', TPrim), (''Severity'', TPrim),
     (''Target'', TaskTarget_type), (''Actions'', TRef KSlice TaskAction_type), (''Timeout'', am_Duration M),
     (''MaxRetries'', TPrim)]"

definition TaskResult_type :: goType where
  "TaskResult_type = TStruct [
     (''Success'', TPrim), (''Message'', TPrim), (''Error'', TPrim)]"

definition RemediationTaskStatus_type :: "apiMeta \<Rightarrow> goType" where
  "RemediationTaskStatus_type M = TStruct [
     (''Phase'', TPrim), (''ClaimedBy'', TPrim), (''ClaimedAt'', TRef KPtr (fst (am_Time M))),
     (''CompletedAt'', TRef KPtr (fst (am_Time M))), (''ActionsCompleted'', TPrim), (''RetryCount'', TPrim),
     (''Result'', TRef KPtr TaskResult_type)]"

definition RemediationTask_type :: "apiMeta \<Rightarrow> goType" where
  "RemediationTask_type M = TStruct [
     (''TypeMeta'', am_TypeMeta M), (''ObjectMeta'', fst (am_ObjectMeta M)), (''Spec'', RemediationTaskSpec_type M),
     (''Status'', RemediationTaskStatus_type M)]"

definition RemediationTaskList_type :: "apiMeta \<Rightarrow> goType" where
  "RemediationTaskList_type M = TStruct [
     (''TypeMeta'', am_TypeMeta M), (''ListMeta'', fst (am_ListMeta M)), (''Items'', TRef KSlice (RemediationTask_type M))]"

section \<open>The generated copies\<close>

definition ResourceFilter_DeepCopyInto :: copier where
  "ResourceFilter_DeepCopyInto = into []"

definition ResourceFilter_DeepCopy :: copier where
  "ResourceFilter_DeepCopy = DeepCopy ResourceFilter_DeepCopyInto"

definition ThresholdSpec_DeepCopyInto :: copier where
  "ThresholdSpec_DeepCopyInto = into []"

definition ThresholdSpec_DeepCopy :: copier where
  "ThresholdSpec_DeepCopy = DeepCopy ThresholdSpec_DeepCopyInto"

definition DetectionSpec_DeepCopyInto :: copier where
  "DetectionSpec_DeepCopyInto = into [(''Resource'', newPtr assign), (''Threshold'', newPtr assign), (''Duration'', newPtr assign)]"

definition DetectionSpec_DeepCopy :: copier where
  "DetectionSpec_DeepCopy = DeepCopy DetectionSpec_DeepCopyInto"

definition ActionSpec_DeepCopyInto :: copier where
  "ActionSpec_DeepCopyInto = into [(''Params'', makeMap assign)]"

definition ActionSpec_DeepCopy :: copier where
  "ActionSpec_DeepCopy = DeepCopy ActionSpec_DeepCopyInto"

definition NotifySpec_DeepCopyInto :: copier where
  "NotifySpec_DeepCopyInto = into [(''Channels'', makeSlice assign)]"

definition NotifySpec_DeepCopy :: copier where
  "NotifySpec_DeepCopy = DeepCopy NotifySpec_DeepCopyInto"

definition EscalationSpec_DeepCopyInto :: copier where
  "EscalationSpec_DeepCopyInto = into [(''Notify'', newPtr NotifySpec_DeepCopyInto)]"

definition EscalationSpec_DeepCopy :: copier where
  "EscalationSpec_DeepCopy = DeepCopy EscalationSpec_DeepCopyInto"

definition RemediationSpec_DeepCopyInto :: copier where
  "RemediationSpec_DeepCopyInto = into [
     (''Actions'', makeSlice ActionSpec_DeepCopyInto), (''Cooldown'', newPtr assign),
     (''Escalation'', newPtr EscalationSpec_DeepCopyInto)]"

definition RemediationSpec_DeepCopy :: copier where
  "RemediationSpec_DeepCopy = DeepCopy RemediationSpec_DeepCopyInto"

definition ParameterSpec_DeepCopyInto :: copier where
  "ParameterSpec_DeepCopyInto = into []"

definition ParameterSpec_DeepCopy :: copier where
  "ParameterSpec_DeepCopy = DeepCopy ParameterSpec_DeepCopyInto"

definition DocumentationSpec_DeepCopyInto :: copier where
  "DocumentationSpec_DeepCopyInto = into [(''RootCauses'', makeSlice assign), (''ManualSteps'', makeSlice assign)]"

definition DocumentationSpec_DeepCopy :: copier where
  "DocumentationSpec_DeepCopy = DeepCopy DocumentationSpec_DeepCopyInto"

definition Scenario_DeepCopyInto :: copier where
  "Scenario_DeepCopyInto = into [
     (''Detection'', DetectionSpec_DeepCopyInto), (''Remediation'', RemediationSpec_DeepCopyInto),
     (''Parameters'', makeSlice assign), (''Documentation'', DocumentationSpec_DeepCopyInto)]"

definition Scenario_DeepCopy :: copier where
  "Scenario_DeepCopy = DeepCopy Scenario_DeepCopyInto"

definition ScenarioLibrarySpec_DeepCopyInto :: copier where
  "ScenarioLibrarySpec_DeepCopyInto = into [(''Scenarios'', makeMap (derefDeepCopy Scenario_DeepCopyInto))]"

definition ScenarioLibrarySpec_DeepCopy :: copier where
  "ScenarioLibrarySpec_DeepCopy = DeepCopy ScenarioLibrarySpec_DeepCopyInto"

definition ScenarioLibraryStatus_DeepCopyInto :: "apiMeta \<Rightarrow> copier" where
  "ScenarioLibraryStatus_DeepCopyInto M = into [(''LastUpdated'', snd (am_Time M)), (''Conditions'', makeSlice (snd (am_Condition M)))]"

definition ScenarioLibraryStatus_DeepCopy :: "apiMeta \<Rightarrow> copier" where
  "ScenarioLibraryStatus_DeepCopy M = DeepCopy (ScenarioLibraryStatus_DeepCopyInto M)"

definition ScenarioLibrary_DeepCopyInto :: "apiMeta \<Rightarrow> copier" where
  "ScenarioLibrary_DeepCopyInto M = into [
     (''TypeMeta'', assign), (''ObjectMeta'', snd (am_ObjectMeta M)), (''Spec'', ScenarioLibrarySpec_DeepCopyInto),
     (''Status'', ScenarioLibraryStatus_DeepCopyInto M)]"

definition ScenarioLibrary_DeepCopy :: "apiMeta \<Rightarrow> copier" where
  "ScenarioLibrary_DeepCopy M = DeepCopy (ScenarioLibrary_DeepCopyInto M)"

definition ScenarioLibrary_DeepCopyObject :: "apiMeta \<Rightarrow> copier" where
  "ScenarioLibrary_DeepCopyObject M = DeepCopyObject (ScenarioLibrary_DeepCopyInto M)"

definition ScenarioLibraryList_DeepCopyInto :: "apiMeta \<Rightarrow> copier" where
  "ScenarioLibraryList_DeepCopyInto M = into [
     (''TypeMeta'', assign), (''ListMeta'', snd (am_ListMeta M)), (''Items'', makeSlice (ScenarioLibrary_DeepCopyInto M))]"

definition ScenarioLibraryList_DeepCopy :: "apiMeta \<Rightarrow> copier" where
  "ScenarioLibraryList_DeepCopy M = DeepCopy (ScenarioLibraryList_DeepCopyInto M)"

definition ScenarioLibraryList_DeepCopyObject :: "apiMeta \<Rightarrow> copier" where
  "ScenarioLibraryList_DeepCopyObject M = DeepCopyObject (ScenarioLibraryList_DeepCopyInto M)"

definition TargetSelector_DeepCopyInto :: "apiMeta \<Rightarrow> copier" where
  "TargetSelector_DeepCopyInto M = into [
     (''Namespaces'', makeSlice assign), (''ExcludedNamespaces'', makeSlice assign),
     (''LabelSelector'', newPtr (snd (am_LabelSelector M))), (''ResourceTypes'', makeSlice assign)]"

definition TargetSelector_DeepCopy :: "apiMeta \<Rightarrow> copier" where
  "TargetSelector_DeepCopy M = DeepCopy (TargetSelector_DeepCopyInto M)"

definition ScenarioLibraryReference_DeepCopyInto :: copier where
  "ScenarioLibraryReference_DeepCopyInto = into []"

definition ScenarioLibraryReference_DeepCopy :: copier where
  "ScenarioLibraryReference_DeepCopy = DeepCopy ScenarioLibraryReference_DeepCopyInto"

definition ScenarioConfig_DeepCopyInto :: copier where
  "ScenarioConfig_DeepCopyInto = into [
     (''Enabled'', newPtr assign), (''Parameters'', makeMap assign), (''Cooldown'', newPtr assign),
     (''MaxRetries'', newPtr assign), (''AdditionalLabels'', makeMap assign)]"

definition ScenarioConfig_DeepCopy :: copier where
  "ScenarioConfig_DeepCopy = DeepCopy ScenarioConfig_DeepCopyInto"

definition GlobalEscalationConfig_DeepCopyInto :: copier where
  "GlobalEscalationConfig_DeepCopyInto = into [(''DefaultChannels'', makeSlice assign)]"

definition GlobalEscalationConfig_DeepCopy :: copier where
  "GlobalEscalationConfig_DeepCopy = DeepCopy GlobalEscalationConfig_DeepCopyInto"

definition SecretReference_DeepCopyInto :: copier where
  "SecretReference_DeepCopyInto = into []"

definition SecretReference_DeepCopy :: copier where
  "SecretReference_DeepCopy = DeepCopy SecretReference_DeepCopyInto"

definition NotificationChannel_DeepCopyInto :: copier where
  "NotificationChannel_DeepCopyInto = into [(''SecretRef'', newPtr assign)]"

definition NotificationChannel_DeepCopy :: copier where
  "NotificationChannel_DeepCopy = DeepCopy NotificationChannel_DeepCopyInto"

definition GlobalPolicyConfig_DeepCopyInto :: copier where
  "GlobalPolicyConfig_DeepCopyInto = into [
     (''DefaultCooldown'', newPtr assign), (''DefaultMaxRetries'', newPtr assign),
     (''Escalation'', newPtr GlobalEscalationConfig_DeepCopyInto),
     (''NotificationChannels'', makeSlice NotificationChannel_DeepCopyInto)]"

definition GlobalPolicyConfig_DeepCopy :: copier where
  "GlobalPolicyConfig_DeepCopy = DeepCopy GlobalPolicyConfig_DeepCopyInto"

definition ClusterRemediationPolicySpec_DeepCopyInto :: "apiMeta \<Rightarrow> copier" where
  "ClusterRemediationPolicySpec_DeepCopyInto M = into [
     (''TargetSelector'', TargetSelector_DeepCopyInto M), (''ScenarioLibraryRef'', assign),
     (''ScenarioConfigs'', makeSlice ScenarioConfig_DeepCopyInto), (''GlobalConfig'', GlobalPolicyConfig_DeepCopyInto)]"

definition ClusterRemediationPolicySpec_DeepCopy :: "apiMeta \<Rightarrow> copier" where
  "ClusterRemediationPolicySpec_DeepCopy M = DeepCopy (ClusterRemediationPolicySpec_DeepCopyInto M)"

definition DetectionStats_DeepCopyInto :: copier where
  "DetectionStats_DeepCopyInto = into [(''ByScenario'', makeMap assign)]"

definition DetectionStats_DeepCopy :: copier where
  "DetectionStats_DeepCopy = DeepCopy DetectionStats_DeepCopyInto"

definition RemediationStats_DeepCopyInto :: copier where
  "RemediationStats_DeepCopyInto = into []"

definition RemediationStats_DeepCopy :: copier where
  "RemediationStats_DeepCopy = DeepCopy RemediationStats_DeepCopyInto"

definition ClusterRemediationPolicyStatus_DeepCopyInto :: "apiMeta \<Rightarrow> copier" where
  "ClusterRemediationPolicyStatus_DeepCopyInto M = into [
     (''LastEvaluated'', snd (am_Time M)), (''DetectionStats'', DetectionStats_DeepCopyInto),
     (''RemediationStats'', assign), (''Conditions'', makeSlice (snd (am_Condition M)))]"

definition ClusterRemediationPolicyStatus_DeepCopy :: "apiMeta \<Rightarrow> copier" where
  "ClusterRemediationPolicyStatus_DeepCopy M = DeepCopy (ClusterRemediationPolicyStatus_DeepCopyInto M)"

definition ClusterRemediationPolicy_DeepCopyInto :: "apiMeta \<Rightarrow> copier" where
  "ClusterRemediationPolicy_DeepCopyInto M = into [
     (''TypeMeta'', assign), (''ObjectMeta'', snd (am_ObjectMeta M)),
     (''Spec'', ClusterRemediationPolicySpec_DeepCopyInto M), (''Status'', ClusterRemediationPolicyStatus_DeepCopyInto M)]"

definition ClusterRemediationPolicy_DeepCopy :: "apiMeta \<Rightarrow> copier" where
  "ClusterRemediationPolicy_DeepCopy M = DeepCopy (ClusterRemediationPolicy_DeepCopyInto M)"

definition ClusterRemediationPolicy_DeepCopyObject :: "apiMeta \<Rightarrow> copier" where
  "ClusterRemediationPolicy_DeepCopyObject M = DeepCopyObject (ClusterRemediationPolicy_DeepCopyInto M)"

definition ClusterRemediationPolicyList_DeepCopyInto :: "apiMeta \<Rightarrow> copier" where
  "ClusterRemediationPolicyList_DeepCopyInto M = into [
     (''TypeMeta'', assign), (''ListMeta'', snd (am_ListMeta M)),
     (''Items'', makeSlice (ClusterRemediationPolicy_DeepCopyInto M))]"

definition ClusterRemediationPolicyList_DeepCopy :: "apiMeta \<Rightarrow> copier" where
  "ClusterRemediationPolicyList_DeepCopy M = DeepCopy (ClusterRemediationPolicyList_DeepCopyInto M)"

definition ClusterRemediationPolicyList_DeepCopyObject :: "apiMeta \<Rightarrow> copier" where
  "ClusterRemediationPolicyList_DeepCopyObject M = DeepCopyObject (ClusterRemediationPolicyList_DeepCopyInto M)"

definition TaskTarget_DeepCopyInto :: copier where
  "TaskTarget_DeepCopyInto = into []"

definition TaskTarget_DeepCopy :: copier where
  "TaskTarget_DeepCopy = DeepCopy TaskTarget_DeepCopyInto"

definition TaskAction_DeepCopyInto :: copier where
  "TaskAction_DeepCopyInto = into [(''Params'', makeMap assign)]"

definition TaskAction_DeepCopy :: copier where
  "TaskAction_DeepCopy = DeepCopy TaskAction_DeepCopyInto"

definition RemediationTaskSpec_DeepCopyInto :: copier where
  "RemediationTaskSpec_DeepCopyInto = into [(''Target'', assign), (''Actions'', makeSlice TaskAction_DeepCopyInto), (''Timeout'', assign)]"

definition RemediationTaskSpec_DeepCopy :: copier where
  "RemediationTaskSpec_DeepCopy = DeepCopy RemediationTaskSpec_DeepCopyInto"

definition TaskResult_DeepCopyInto :: copier where
  "TaskResult_DeepCopyInto = into []"

definition TaskResult_DeepCopy :: copier where
  "TaskResult_DeepCopy = DeepCopy TaskResult_DeepCopyInto"

definition RemediationTaskStatus_DeepCopyInto :: "apiMeta \<Rightarrow> copier" where
  "RemediationTaskStatus_DeepCopyInto M = into [
     (''ClaimedAt'', DeepCopy (snd (am_Time M))), (''CompletedAt'', DeepCopy (snd (am_Time M))), (''Result'', newPtr assign)]"

definition RemediationTaskStatus_DeepCopy :: "apiMeta \<Rightarrow> copier" where
  "RemediationTaskStatus_DeepCopy M = DeepCopy (RemediationTaskStatus_DeepCopyInto M)"

definition RemediationTask_DeepCopyInto :: "apiMeta \<Rightarrow> copier" where
  "RemediationTask_DeepCopyInto M = into [
     (''TypeMeta'', assign), (''ObjectMeta'', snd (am_ObjectMeta M)), (''Spec'', RemediationTaskSpec_DeepCopyInto),
     (''Status'', RemediationTaskStatus_DeepCopyInto M)]"

definition RemediationTask_DeepCopy :: "apiMeta \<Rightarrow> copier" where
  "RemediationTask_DeepCopy M = DeepCopy (RemediationTask_DeepCopyInto M)"

definition RemediationTask_DeepCopyObject :: "apiMeta \<Rightarrow> copier" where
  "RemediationTask_DeepCopyObject M = DeepCopyObject (RemediationTask_DeepCopyInto M)"

definition RemediationTaskList_DeepCopyInto :: "apiMeta \<Rightarrow> copier" where
  "RemediationTaskList_DeepCopyInto M = into [
     (''TypeMeta'', assign), (''ListMeta'', snd (am_ListMeta M)), (''Items'', makeSlice (RemediationTask_DeepCopyInto M))]"

definition RemediationTaskList_DeepCopy :: "apiMeta \<Rightarrow> copier" where
  "RemediationTaskList_DeepCopy M = DeepCopy (RemediationTaskList_DeepCopyInto M)"

definition RemediationTaskList_DeepCopyObject :: "apiMeta \<Rightarrow> copier" where
  "RemediationTaskList_DeepCopyObject M = DeepCopyObject (RemediationTaskList_DeepCopyInto M)"

text \<open>All of them, with the type of what they copy\<close>

definition apiCopies :: "apiMeta \<Rightarrow> (string \<times> goType \<times> copier) list" where
  "apiCopies M = [
     (''ResourceFilter.DeepCopyInto'', ResourceFilter_type, ResourceFilter_DeepCopyInto),
     (''ResourceFilter.DeepCopy'', TRef KPtr ResourceFilter_type, ResourceFilter_DeepCopy),
     (''ThresholdSpec.DeepCopyInto'', ThresholdSpec_type M, ThresholdSpec_DeepCopyInto),
     (''ThresholdSpec.DeepCopy'', TRef KPtr (ThresholdSpec_type M), ThresholdSpec_DeepCopy),
     (''DetectionSpec.DeepCopyInto'', DetectionSpec_type M, DetectionSpec_DeepCopyInto),
     (''DetectionSpec.DeepCopy'', TRef KPtr (DetectionSpec_type M), DetectionSpec_DeepCopy),
     (''ActionSpec.DeepCopyInto'', ActionSpec_type, ActionSpec_DeepCopyInto),
     (''ActionSpec.DeepCopy'', TRef KPtr ActionSpec_type, ActionSpec_DeepCopy),
     (''NotifySpec.DeepCopyInto'', NotifySpec_type, NotifySpec_DeepCopyInto),
     (''NotifySpec.DeepCopy'', TRef KPtr NotifySpec_type, NotifySpec_DeepCopy),
     (''EscalationSpec.DeepCopyInto'', EscalationSpec_type, EscalationSpec_DeepCopyInto),
     (''EscalationSpec.DeepCopy'', TRef KPtr EscalationSpec_type, EscalationSpec_DeepCopy),
     (''RemediationSpec.DeepCopyInto'', RemediationSpec_type M, RemediationSpec_DeepCopyInto),
     (''RemediationSpec.DeepCopy'', TRef KPtr (RemediationSpec_type M), RemediationSpec_DeepCopy),
     (''ParameterSpec.DeepCopyInto'', ParameterSpec_type, ParameterSpec_DeepCopyInto),
     (''ParameterSpec.DeepCopy'', TRef KPtr ParameterSpec_type, ParameterSpec_DeepCopy),
     (''DocumentationSpec.DeepCopyInto'', DocumentationSpec_type, DocumentationSpec_DeepCopyInto),
     (''DocumentationSpec.DeepCopy'', TRef KPtr DocumentationSpec_type, DocumentationSpec_DeepCopy),
     (''Scenario.DeepCopyInto'', Scenario_type M, Scenario_DeepCopyInto),
     (''Scenario.DeepCopy'', TRef KPtr (Scenario_type M), Scenario_DeepCopy),
     (''ScenarioLibrarySpec.DeepCopyInto'', ScenarioLibrarySpec_type M, ScenarioLibrarySpec_DeepCopyInto),
     (''ScenarioLibrarySpec.DeepCopy'', TRef KPtr (ScenarioLibrarySpec_type M), ScenarioLibrarySpec_DeepCopy),
     (''ScenarioLibraryStatus.DeepCopyInto'', ScenarioLibraryStatus_type M, ScenarioLibraryStatus_DeepCopyInto M),
     (''ScenarioLibraryStatus.DeepCopy'', TRef KPtr (ScenarioLibraryStatus_type M), ScenarioLibraryStatus_DeepCopy M),
     (''ScenarioLibrary.DeepCopyInto'', ScenarioLibrary_type M, ScenarioLibrary_DeepCopyInto M),
     (''ScenarioLibrary.DeepCopy'', TRef KPtr (ScenarioLibrary_type M), ScenarioLibrary_DeepCopy M),
     (''ScenarioLibrary.DeepCopyObject'', TRef KPtr (ScenarioLibrary_type M), ScenarioLibrary_DeepCopyObject M),
     (''ScenarioLibraryList.DeepCopyInto'', ScenarioLibraryList_type M, ScenarioLibraryList_DeepCopyInto M),
     (''ScenarioLibraryList.DeepCopy'', TRef KPtr (ScenarioLibraryList_type M), ScenarioLibraryList_DeepCopy M),
     (''ScenarioLibraryList.DeepCopyObject'', TRef KPtr (ScenarioLibraryList_type M), ScenarioLibraryList_DeepCopyObject M),
     (''TargetSelector.DeepCopyInto'', TargetSelector_type M, TargetSelector_DeepCopyInto M),
     (''TargetSelector.DeepCopy'', TRef KPtr (TargetSelector_type M), TargetSelector_DeepCopy M),
     (''ScenarioLibraryReference.DeepCopyInto'', ScenarioLibraryReference_type, ScenarioLibraryReference_DeepCopyInto),
     (''ScenarioLibraryReference.DeepCopy'', TRef KPtr ScenarioLibraryReference_type, ScenarioLibraryReference_DeepCopy),
     (''ScenarioConfig.DeepCopyInto'', ScenarioConfig_type M, ScenarioConfig_DeepCopyInto),
     (''ScenarioConfig.DeepCopy'', TRef KPtr (ScenarioConfig_type M), ScenarioConfig_DeepCopy),
     (''GlobalEscalationConfig.DeepCopyInto'', GlobalEscalationConfig_type, GlobalEscalationConfig_DeepCopyInto),
     (''GlobalEscalationConfig.DeepCopy'', TRef KPtr GlobalEscalationConfig_type, GlobalEscalationConfig_DeepCopy),
     (''SecretReference.DeepCopyInto'', SecretReference_type, SecretReference_DeepCopyInto),
     (''SecretReference.DeepCopy'', TRef KPtr SecretReference_type, SecretReference_DeepCopy),
     (''NotificationChannel.DeepCopyInto'', NotificationChannel_type, NotificationChannel_DeepCopyInto),
     (''NotificationChannel.DeepCopy'', TRef KPtr NotificationChannel_type, NotificationChannel_DeepCopy),
     (''GlobalPolicyConfig.DeepCopyInto'', GlobalPolicyConfig_type M, GlobalPolicyConfig_DeepCopyInto),
     (''GlobalPolicyConfig.DeepCopy'', TRef KPtr (GlobalPolicyConfig_type M), GlobalPolicyConfig_DeepCopy),
     (''ClusterRemediationPolicySpec.DeepCopyInto'', ClusterRemediationPolicySpec_type M, ClusterRemediationPolicySpec_DeepCopyInto M),
     (''ClusterRemediationPolicySpec.DeepCopy'', TRef KPtr (ClusterRemediationPolicySpec_type M), ClusterRemediationPolicySpec_DeepCopy M),
     (''DetectionStats.DeepCopyInto'', DetectionStats_type, DetectionStats_DeepCopyInto),
     (''DetectionStats.DeepCopy'', TRef KPtr DetectionStats_type, DetectionStats_DeepCopy),
     (''RemediationStats.DeepCopyInto'', RemediationStats_type, RemediationStats_DeepCopyInto),
     (''RemediationStats.DeepCopy'', TRef KPtr RemediationStats_type, RemediationStats_DeepCopy),
     (''ClusterRemediationPolicyStatus.DeepCopyInto'', ClusterRemediationPolicyStatus_type M, ClusterRemediationPolicyStatus_DeepCopyInto M),
     (''ClusterRemediationPolicyStatus.DeepCopy'', TRef KPtr (ClusterRemediationPolicyStatus_type M), ClusterRemediationPolicyStatus_DeepCopy M),
     (''ClusterRemediationPolicy.DeepCopyInto'', ClusterRemediationPolicy_type M, ClusterRemediationPolicy_DeepCopyInto M),
     (''ClusterRemediationPolicy.DeepCopy'', TRef KPtr (ClusterRemediationPolicy_type M), ClusterRemediationPolicy_DeepCopy M),
     (''ClusterRemediationPolicy.DeepCopyObject'', TRef KPtr (ClusterRemediationPolicy_type M), ClusterRemediationPolicy_DeepCopyObject M),
     (''ClusterRemediationPolicyList.DeepCopyInto'', ClusterRemediationPolicyList_type M, ClusterRemediationPolicyList_DeepCopyInto M),
     (''ClusterRemediationPolicyList.DeepCopy'', TRef KPtr (ClusterRemediationPolicyList_type M), ClusterRemediationPolicyList_DeepCopy M),
     (''ClusterRemediationPolicyList.DeepCopyObject'', TRef KPtr (ClusterRemediationPolicyList_type M), ClusterRemediationPolicyList_DeepCopyObject M),
     (''TaskTarget.DeepCopyInto'', TaskTarget_type, TaskTarget_DeepCopyInto),
     (''TaskTarget.DeepCopy'', TRef KPtr TaskTarget_type, TaskTarget_DeepCopy),
     (''TaskAction.DeepCopyInto'', TaskAction_type, TaskAction_DeepCopyInto),
     (''TaskAction.DeepCopy'', TRef KPtr TaskAction_type, TaskAction_DeepCopy),
     (''RemediationTaskSpec.DeepCopyInto'', RemediationTaskSpec_type M, RemediationTaskSpec_DeepCopyInto),
     (''RemediationTaskSpec.DeepCopy'', TRef KPtr (RemediationTaskSpec_type M), RemediationTaskSpec_DeepCopy),
     (''TaskResult.DeepCopyInto'', TaskResult_type, TaskResult_DeepCopyInto),
     (''TaskResult.DeepCopy'', TRef KPtr TaskResult_type, TaskResult_DeepCopy),
     (''RemediationTaskStatus.DeepCopyInto'', RemediationTaskStatus_type M, RemediationTaskStatus_DeepCopyInto M),
     (''RemediationTaskStatus.DeepCopy'', TRef KPtr (RemediationTaskStatus_type M), RemediationTaskStatus_DeepCopy M),
     (''RemediationTask.DeepCopyInto'', RemediationTask_type M, RemediationTask_DeepCopyInto M),
     (''RemediationTask.DeepCopy'', TRef KPtr (RemediationTask_type M), RemediationTask_DeepCopy M),
     (''RemediationTask.DeepCopyObject'', TRef KPtr (RemediationTask_type M), RemediationTask_DeepCopyObject M),
     (''RemediationTaskList.DeepCopyInto'', RemediationTaskList_type M, RemediationTaskList_DeepCopyInto M),
     (''RemediationTaskList.DeepCopy'', TRef KPtr (RemediationTaskList_type M), RemediationTaskList_DeepCopy M),
     (''RemediationTaskList.DeepCopyObject'', TRef KPtr (RemediationTaskList_type M), RemediationTaskList_DeepCopyObject M)]"

lemmas api_type_defs =
  ResourceFilter_type_def ThresholdSpec_type_def DetectionSpec_type_def ActionSpec_type_def NotifySpec_type_def
  EscalationSpec_type_def RemediationSpec_type_def ParameterSpec_type_def DocumentationSpec_type_def Scenario_type_def
  ScenarioLibrarySpec_type_def ScenarioLibraryStatus_type_def ScenarioLibrary_type_def ScenarioLibraryList_type_def
  TargetSelector_type_def ScenarioLibraryReference_type_def ScenarioConfig_type_def GlobalEscalationConfig_type_def
  SecretReference_type_def NotificationChannel_type_def GlobalPolicyConfig_type_def
  ClusterRemediationPolicySpec_type_def DetectionStats_type_def RemediationStats_type_def
  ClusterRemediationPolicyStatus_type_def ClusterRemediationPolicy_type_def ClusterRemediationPolicyList_type_def
  TaskTarget_type_def TaskAction_type_def RemediationTaskSpec_type_def TaskResult_type_def
  RemediationTaskStatus_type_def RemediationTask_type_def RemediationTaskList_type_def

lemmas api_copy_defs =
  ResourceFilter_DeepCopyInto_def ThresholdSpec_DeepCopyInto_def DetectionSpec_DeepCopyInto_def
  ActionSpec_DeepCopyInto_def NotifySpec_DeepCopyInto_def EscalationSpec_DeepCopyInto_def
  RemediationSpec_DeepCopyInto_def ParameterSpec_DeepCopyInto_def DocumentationSpec_DeepCopyInto_def
  Scenario_DeepCopyInto_def ScenarioLibrarySpec_DeepCopyInto_def ScenarioLibraryStatus_DeepCopyInto_def
  ScenarioLibrary_DeepCopyInto_def ScenarioLibraryList_DeepCopyInto_def TargetSelector_DeepCopyInto_def
  ScenarioLibraryReference_DeepCopyInto_def ScenarioConfig_DeepCopyInto_def GlobalEscalationConfig_DeepCopyInto_def
  SecretReference_DeepCopyInto_def NotificationChannel_DeepCopyInto_def GlobalPolicyConfig_DeepCopyInto_def
  ClusterRemediationPolicySpec_DeepCopyInto_def DetectionStats_DeepCopyInto_def RemediationStats_DeepCopyInto_def
  ClusterRemediationPolicyStatus_DeepCopyInto_def ClusterRemediationPolicy_DeepCopyInto_def
  ClusterRemediationPolicyList_DeepCopyInto_def TaskTarget_DeepCopyInto_def TaskAction_DeepCopyInto_def
  RemediationTaskSpec_DeepCopyInto_def TaskResult_DeepCopyInto_def RemediationTaskStatus_DeepCopyInto_def
  RemediationTask_DeepCopyInto_def RemediationTaskList_DeepCopyInto_def

lemmas api_pointer_defs =
  ResourceFilter_DeepCopy_def ThresholdSpec_DeepCopy_def DetectionSpec_DeepCopy_def ActionSpec_DeepCopy_def
  NotifySpec_DeepCopy_def EscalationSpec_DeepCopy_def RemediationSpec_DeepCopy_def ParameterSpec_DeepCopy_def
  DocumentationSpec_DeepCopy_def Scenario_DeepCopy_def ScenarioLibrarySpec_DeepCopy_def
  ScenarioLibraryStatus_DeepCopy_def ScenarioLibrary_DeepCopy_def ScenarioLibrary_DeepCopyObject_def
  ScenarioLibraryList_DeepCopy_def ScenarioLibraryList_DeepCopyObject_def TargetSelector_DeepCopy_def
  ScenarioLibraryReference_DeepCopy_def ScenarioConfig_DeepCopy_def GlobalEscalationConfig_DeepCopy_def
  SecretReference_DeepCopy_def NotificationChannel_DeepCopy_def GlobalPolicyConfig_DeepCopy_def
  ClusterRemediationPolicySpec_DeepCopy_def DetectionStats_DeepCopy_def RemediationStats_DeepCopy_def
  ClusterRemediationPolicyStatus_DeepCopy_def ClusterRemediationPolicy_DeepCopy_def
  ClusterRemediationPolicy_DeepCopyObject_def ClusterRemediationPolicyList_DeepCopy_def
  ClusterRemediationPolicyList_DeepCopyObject_def TaskTarget_DeepCopy_def TaskAction_DeepCopy_def
  RemediationTaskSpec_DeepCopy_def TaskResult_DeepCopy_def RemediationTaskStatus_DeepCopy_def
  RemediationTask_DeepCopy_def RemediationTask_DeepCopyObject_def RemediationTaskList_DeepCopy_def
  RemediationTaskList_DeepCopyObject_def

section \<open>Registration\<close>

definition GroupVersion :: "string \<times> string" where
  "GroupVersion = (''selfhealing.ariadna-ops.com'', ''v1alpha1'')"

text \<open>The \<open>init\<close> functions, which Go runs in the order of the file names; \<open>Register\<close> appends.\<close>

definition initClusterRemediationPolicy :: "string list \<Rightarrow> string list" where
  "initClusterRemediationPolicy registered = registered @ [''ClusterRemediationPolicy'', ''ClusterRemediationPolicyList'']"

definition initRemediationTask :: "string list \<Rightarrow> string list" where
  "initRemediationTask registered = registered @ [''RemediationTask'', ''RemediationTaskList'']"

definition initScenarioLibrary :: "string list \<Rightarrow> string list" where
  "initScenarioLibrary registered = registered @ [''ScenarioLibrary'', ''ScenarioLibraryList'']"

definition SchemeBuilder :: "string list" where
  "SchemeBuilder = (initScenarioLibrary \<circ> initRemediationTask \<circ> initClusterRemediationPolicy) []"

section \<open>Every copy is deep\<close>

lemma meta_deep:
  assumes "meta_ok M"
  shows "flat (am_TypeMeta M)" "flat (am_Duration M)" "deep (fst (am_Time M)) (snd (am_Time M))"
    "deep (fst (am_ObjectMeta M)) (snd (am_ObjectMeta M))" "deep (fst (am_ListMeta M)) (snd (am_ListMeta M))"
    "deep (fst (am_LabelSelector M)) (snd (am_LabelSelector M))" "deep (fst (am_Condition M)) (snd (am_Condition M))"
  using assms by (simp_all add: meta_ok_def case_prod_beta)

declare deep_assign [simp] makers_deep [simp] derefDeepCopy_deep [simp] DeepCopy_deep [simp]

lemma flat_types [simp]:
  "flat ResourceFilter_type"
  "meta_ok M \<Longrightarrow> flat (ThresholdSpec_type M)"
  "flat ParameterSpec_type"
  "flat ScenarioLibraryReference_type"
  "flat SecretReference_type"
  "flat RemediationStats_type"
  "flat TaskTarget_type"
  "flat TaskResult_type"
  by (simp_all add: api_type_defs meta_ok_def)

text \<open>In the order in which the types use each other\<close>

lemma ResourceFilter_deep [simp]: "deep ResourceFilter_type ResourceFilter_DeepCopyInto"
  by (simp add: ResourceFilter_type_def ResourceFilter_DeepCopyInto_def into_deep meta_deep)

lemma ThresholdSpec_deep [simp]: "meta_ok M \<Longrightarrow> deep (ThresholdSpec_type M) ThresholdSpec_DeepCopyInto"
  by (simp add: ThresholdSpec_type_def ThresholdSpec_DeepCopyInto_def into_deep meta_deep)

lemma DetectionSpec_deep [simp]: "meta_ok M \<Longrightarrow> deep (DetectionSpec_type M) DetectionSpec_DeepCopyInto"
  by (simp add: DetectionSpec_type_def DetectionSpec_DeepCopyInto_def into_deep meta_deep)

lemma ActionSpec_deep [simp]: "deep ActionSpec_type ActionSpec_DeepCopyInto"
  by (simp add: ActionSpec_type_def ActionSpec_DeepCopyInto_def into_deep meta_deep)

lemma NotifySpec_deep [simp]: "deep NotifySpec_type NotifySpec_DeepCopyInto"
  by (simp add: NotifySpec_type_def NotifySpec_DeepCopyInto_def into_deep meta_deep)

lemma EscalationSpec_deep [simp]: "deep EscalationSpec_type EscalationSpec_DeepCopyInto"
  by (simp add: EscalationSpec_type_def EscalationSpec_DeepCopyInto_def into_deep meta_deep)

lemma RemediationSpec_deep [simp]: "meta_ok M \<Longrightarrow> deep (RemediationSpec_type M) RemediationSpec_DeepCopyInto"
  by (simp add: RemediationSpec_type_def RemediationSpec_DeepCopyInto_def into_deep meta_deep)

lemma ParameterSpec_deep [simp]: "deep ParameterSpec_type ParameterSpec_DeepCopyInto"
  by (simp add: ParameterSpec_type_def ParameterSpec_DeepCopyInto_def into_deep meta_deep)

lemma DocumentationSpec_deep [simp]: "deep DocumentationSpec_type DocumentationSpec_DeepCopyInto"
  by (simp add: DocumentationSpec_type_def DocumentationSpec_DeepCopyInto_def into_deep meta_deep)

lemma Scenario_deep [simp]: "meta_ok M \<Longrightarrow> deep (Scenario_type M) Scenario_DeepCopyInto"
  by (simp add: Scenario_type_def Scenario_DeepCopyInto_def into_deep meta_deep)

lemma ScenarioLibrarySpec_deep [simp]: "meta_ok M \<Longrightarrow> deep (ScenarioLibrarySpec_type M) ScenarioLibrarySpec_DeepCopyInto"
  by (simp add: ScenarioLibrarySpec_type_def ScenarioLibrarySpec_DeepCopyInto_def into_deep meta_deep)

lemma ScenarioLibraryStatus_deep [simp]: "meta_ok M \<Longrightarrow> deep (ScenarioLibraryStatus_type M) (ScenarioLibraryStatus_DeepCopyInto M)"
  by (simp add: ScenarioLibraryStatus_type_def ScenarioLibraryStatus_DeepCopyInto_def into_deep meta_deep)

lemma ScenarioLibrary_deep [simp]: "meta_ok M \<Longrightarrow> deep (ScenarioLibrary_type M) (ScenarioLibrary_DeepCopyInto M)"
  by (simp add: ScenarioLibrary_type_def ScenarioLibrary_DeepCopyInto_def into_deep meta_deep)

lemma ScenarioLibraryList_deep [simp]: "meta_ok M \<Longrightarrow> deep (ScenarioLibraryList_type M) (ScenarioLibraryList_DeepCopyInto M)"
  by (simp add: ScenarioLibraryList_type_def ScenarioLibraryList_DeepCopyInto_def into_deep meta_deep)

lemma TargetSelector_deep [simp]: "meta_ok M \<Longrightarrow> deep (TargetSelector_type M) (TargetSelector_DeepCopyInto M)"
  by (simp add: TargetSelector_type_def TargetSelector_DeepCopyInto_def into_deep meta_deep)

lemma ScenarioLibraryReference_deep [simp]: "deep ScenarioLibraryReference_type ScenarioLibraryReference_DeepCopyInto"
  by (simp add: ScenarioLibraryReference_type_def ScenarioLibraryReference_DeepCopyInto_def into_deep meta_deep)

lemma ScenarioConfig_deep [simp]: "meta_ok M \<Longrightarrow> deep (ScenarioConfig_type M) ScenarioConfig_DeepCopyInto"
  by (simp add: ScenarioConfig_type_def ScenarioConfig_DeepCopyInto_def into_deep meta_deep)

lemma GlobalEscalationConfig_deep [simp]: "deep GlobalEscalationConfig_type GlobalEscalationConfig_DeepCopyInto"
  by (simp add: GlobalEscalationConfig_type_def GlobalEscalationConfig_DeepCopyInto_def into_deep meta_deep)

lemma SecretReference_deep [simp]: "deep SecretReference_type SecretReference_DeepCopyInto"
  by (simp add: SecretReference_type_def SecretReference_DeepCopyInto_def into_deep meta_deep)

lemma NotificationChannel_deep [simp]: "deep NotificationChannel_type NotificationChannel_DeepCopyInto"
  by (simp add: NotificationChannel_type_def NotificationChannel_DeepCopyInto_def into_deep meta_deep)

lemma GlobalPolicyConfig_deep [simp]: "meta_ok M \<Longrightarrow> deep (GlobalPolicyConfig_type M) GlobalPolicyConfig_DeepCopyInto"
  by (simp add: GlobalPolicyConfig_type_def GlobalPolicyConfig_DeepCopyInto_def into_deep meta_deep)

lemma ClusterRemediationPolicySpec_deep [simp]: "meta_ok M \<Longrightarrow> deep (ClusterRemediationPolicySpec_type M) (ClusterRemediationPolicySpec_DeepCopyInto M)"
  by (simp add: ClusterRemediationPolicySpec_type_def ClusterRemediationPolicySpec_DeepCopyInto_def into_deep meta_deep)

lemma DetectionStats_deep [simp]: "deep DetectionStats_type DetectionStats_DeepCopyInto"
  by (simp add: DetectionStats_type_def DetectionStats_DeepCopyInto_def into_deep meta_deep)

lemma RemediationStats_deep [simp]: "deep RemediationStats_type RemediationStats_DeepCopyInto"
  by (simp add: RemediationStats_type_def RemediationStats_DeepCopyInto_def into_deep meta_deep)

lemma ClusterRemediationPolicyStatus_deep [simp]: "meta_ok M \<Longrightarrow> deep (ClusterRemediationPolicyStatus_type M) (ClusterRemediationPolicyStatus_DeepCopyInto M)"
  by (simp add: ClusterRemediationPolicyStatus_type_def ClusterRemediationPolicyStatus_DeepCopyInto_def into_deep meta_deep)

lemma ClusterRemediationPolicy_deep [simp]: "meta_ok M \<Longrightarrow> deep (ClusterRemediationPolicy_type M) (ClusterRemediationPolicy_DeepCopyInto M)"
  by (simp add: ClusterRemediationPolicy_type_def ClusterRemediationPolicy_DeepCopyInto_def into_deep meta_deep)

lemma ClusterRemediationPolicyList_deep [simp]: "meta_ok M \<Longrightarrow> deep (ClusterRemediationPolicyList_type M) (ClusterRemediationPolicyList_DeepCopyInto M)"
  by (simp add: ClusterRemediationPolicyList_type_def ClusterRemediationPolicyList_DeepCopyInto_def into_deep meta_deep)

lemma TaskTarget_deep [simp]: "deep TaskTarget_type TaskTarget_DeepCopyInto"
  by (simp add: TaskTarget_type_def TaskTarget_DeepCopyInto_def into_deep meta_deep)

lemma TaskAction_deep [simp]: "deep TaskAction_type TaskAction_DeepCopyInto"
  by (simp add: TaskAction_type_def TaskAction_DeepCopyInto_def into_deep meta_deep)

lemma RemediationTaskSpec_deep [simp]: "meta_ok M \<Longrightarrow> deep (RemediationTaskSpec_type M) RemediationTaskSpec_DeepCopyInto"
  by (simp add: RemediationTaskSpec_type_def RemediationTaskSpec_DeepCopyInto_def into_deep meta_deep)

lemma TaskResult_deep [simp]: "deep TaskResult_type TaskResult_DeepCopyInto"
  by (simp add: TaskResult_type_def TaskResult_DeepCopyInto_def into_deep meta_deep)

lemma RemediationTaskStatus_deep [simp]: "meta_ok M \<Longrightarrow> deep (RemediationTaskStatus_type M) (RemediationTaskStatus_DeepCopyInto M)"
  by (simp add: RemediationTaskStatus_type_def RemediationTaskStatus_DeepCopyInto_def into_deep meta_deep)

lemma RemediationTask_deep [simp]: "meta_ok M \<Longrightarrow> deep (RemediationTask_type M) (RemediationTask_DeepCopyInto M)"
  by (simp add: RemediationTask_type_def RemediationTask_DeepCopyInto_def into_deep meta_deep)

lemma RemediationTaskList_deep [simp]: "meta_ok M \<Longrightarrow> deep (RemediationTaskList_type M) (RemediationTaskList_DeepCopyInto M)"
  by (simp add: RemediationTaskList_type_def RemediationTaskList_DeepCopyInto_def into_deep meta_deep)

lemma api_deep: "meta_ok M \<Longrightarrow> list_all (\<lambda>(n, t, c). deep t c) (apiCopies M)"
  by (simp add: apiCopies_def api_pointer_defs DeepCopyObject_same)

section \<open>Properties\<close>

text \<open>
  C36. Each of the 74 generated copy functions gives a value equal to the original that shares no memory with
  it: whatever is written later through the copy leaves the original as it is, and conversely. No
  field of a reference type is only assigned.
\<close>

theorem api_copies_independent:
  assumes "meta_ok M" "(n, t, c) \<in> set (apiCopies M)" "view m t v = Some (x, A)" "c v m = (v', m')"
  shows "\<exists>B. view m' t v = Some (x, A) \<and> view m' t v' = Some (x, B) \<and> A \<inter> B = {}
     \<and> (\<forall>a b. a \<in> B \<longrightarrow> view (storeAt a b m') t v = Some (x, A))
     \<and> (\<forall>a b. a \<in> A \<longrightarrow> view (storeAt a b m') t v' = Some (x, B))"
proof -
  have "deep t c" using api_deep [OF assms(1)] assms(2) by (auto simp: list_all_iff)
  from this assms(3, 4) obtain B where B: "view m' t v = Some (x, A)" "view m' t v' = Some (x, B)" "A \<inter> B = {}"
    by (rule deep_separates)
  with view_storeAt [OF B(1)] view_storeAt [OF B(2)] show ?thesis by blast
qed

definition sample_meta :: apiMeta where
  "sample_meta = \<lparr>am_TypeMeta = TStruct [(''Kind'', TPrim), (''APIVersion'', TPrim)], am_Duration = TPrim, am_Time = (TPrim, assign),
     am_ObjectMeta = (TStruct [(''Name'', TPrim), (''Labels'', TRef KMap TPrim)], into [(''Labels'', makeMap assign)]),
     am_ListMeta = (TPrim, assign),
     am_LabelSelector = (TStruct [(''MatchLabels'', TRef KMap TPrim)], into [(''MatchLabels'', makeMap assign)]),
     am_Condition = (TPrim, assign)\<rparr>"

definition sample_memory :: memory where
  "sample_memory = \<lparr>mm_next = 1, mm_blocks = (\<lambda>_. Block KMap [(''increment'', Prim (PStr ''2''))])\<rparr>"

definition sample_action :: goVal where
  "sample_action = Struct [(''Type'', Prim (PStr ''scaleUp'')), (''Order'', Prim (PInt 1)), (''Params'', Ref (Some 0)),
     (''If'', Prim (PStr '''')), (''Unless'', Prim (PStr ''''))]"

theorem api_copies_independent_witness:
  "\<exists>m' v' x. ActionSpec_DeepCopyInto sample_action sample_memory = (v', m') \<and> v' \<noteq> sample_action
     \<and> view m' ActionSpec_type v' = Some (x, {1}) \<and> view (storeAt 1 (Block KMap []) m') ActionSpec_type sample_action = Some (x, {0})"
proof -
  let ?v' = "fst (ActionSpec_DeepCopyInto sample_action sample_memory)" and ?m' = "snd (ActionSpec_DeepCopyInto sample_action sample_memory)"
  have ok: "meta_ok sample_meta" by (simp add: meta_ok_def sample_meta_def into_deep)
  have isin: "(''ActionSpec.DeepCopyInto'', ActionSpec_type, ActionSpec_DeepCopyInto) \<in> set (apiCopies sample_meta)"
    by (simp add: apiCopies_def)
  obtain x where x: "view sample_memory ActionSpec_type sample_action = Some (x, {0})"
    by (simp add: ActionSpec_type_def sample_action_def sample_memory_def)
  have cp: "ActionSpec_DeepCopyInto sample_action sample_memory = (?v', ?m')" by simp
  obtain B where B: "view ?m' ActionSpec_type ?v' = Some (x, B)"
    and w: "\<And>a b. a \<in> B \<Longrightarrow> view (storeAt a b ?m') ActionSpec_type sample_action = Some (x, {0})"
    using api_copies_independent [OF ok isin x cp] by blast
  have "?v' \<noteq> sample_action" "\<exists>y. view ?m' ActionSpec_type ?v' = Some (y, {1})"
    by (simp_all add: ActionSpec_DeepCopyInto_def ActionSpec_type_def sample_action_def sample_memory_def into_def makeMap_def fresh_def assign_def alloc_def)
  then have "?v' \<noteq> sample_action" "view ?m' ActionSpec_type ?v' = Some (x, {1})"
      "view (storeAt 1 (Block KMap []) ?m') ActionSpec_type sample_action = Some (x, {0})"
    using B w [of 1] by auto
  then show ?thesis using cp by blast
qed

text \<open>Each registered kind has its copy as a \<open>runtime.Object\<close>, and none is registered twice.\<close>

lemma registered_kinds:
  "distinct SchemeBuilder \<and> list_all (\<lambda>k. (k @ ''.DeepCopyObject'') \<in> set (map fst (apiCopies M))) SchemeBuilder"
  by (simp add: SchemeBuilder_def initScenarioLibrary_def initRemediationTask_def initClusterRemediationPolicy_def apiCopies_def)

end
