(* ===== verification/ControllerThreads.thy ===== *)
theory ControllerThreads
  imports Remediation
begin

text \<open>
  The remediation controller of \<open>internal/remediation/controller.go\<close> between uses of its locks. As in the
  engine the state store holds pointers: \<open>processResult\<close> keeps the pointer that \<open>GetState\<close> gave it through the
  execution of all actions, which may take minutes, changes the object in place and stores the pointer
  again at the end, while the cleanup ticker may delete the key. The cluster may change between any
  two calls. The store of \<open>ct_controller\<close> is not used; the heap and the map of pointers take its place.
\<close>

section \<open>Goroutines\<close>

text \<open>What the loop of \<open>Run\<close> is doing.\<close>

datatype controllerWork =
    Idle
  | Fetching DetectionResult
  | Deciding DetectionResult "nat option"
  | Publishing DetectionResult nat
  | Acting DetectionResult nat "ActionConfig list"
  | Updating DetectionResult nat
  | Saving DetectionResult nat

text \<open>\<open>ct_started\<close> are the results that passed all checks, in order.\<close>

record 'w cthreads =
  ct_controller :: "'w controllerImpl"
  ct_heap :: "nat \<Rightarrow> RemediationState"
  ct_next :: nat
  ct_states :: "(string, nat) gomap"
  ct_work :: controllerWork
  ct_world :: 'w
  ct_started :: "DetectionResult list"
  ct_cleanups :: nat

text \<open>The part of \<open>processResult\<close> from the lookup to the choice of the mode, with the object created if there is none.\<close>

definition pointerOf :: "nat option \<Rightarrow> 'w cthreads \<Rightarrow> nat" where
  "pointerOf ptr s = (case ptr of None \<Rightarrow> ct_next s | Some p \<Rightarrow> p)"

definition fetched :: "DetectionResult \<Rightarrow> nat option \<Rightarrow> 'w cthreads \<Rightarrow> RemediationState" where
  "fetched result ptr s = (case ptr of None \<Rightarrow> newState result | Some p \<Rightarrow> ct_heap s p)"

definition decide ::
  "(ActionConfig list \<Rightarrow> ActionConfig list) \<Rightarrow> location \<Rightarrow> result_clock \<Rightarrow> DetectionResult \<Rightarrow> nat option \<Rightarrow> 'w cthreads \<Rightarrow> 'w cthreads" where
  "decide srt loc clk result ptr s =
     (let c = ct_controller s; p = pointerOf ptr s; state = fetched result ptr s;
          s1 = s\<lparr>ct_heap := (ct_heap s)(p := state), ct_next := (case ptr of None \<Rightarrow> Suc (ct_next s) | Some _ \<Rightarrow> ct_next s)\<rparr>
      in if isInCooldown (pk_cooldown clk) state
         then s1\<lparr>ct_controller := recordSkipped loc clk c result ''cooldown'', ct_work := Idle\<rparr>
         else if rs_RemediationCount state \<ge> rm_DefaultMaxRetries (cfg_Remediation (co_config c)) then
           (if \<not> rs_Escalated state
            then s1\<lparr>ct_controller := escalate loc clk c result, ct_heap := (ct_heap s)(p := state\<lparr>rs_Escalated := True\<rparr>), ct_work := Saving result p\<rparr>
            else s1\<lparr>ct_work := Idle\<rparr>)
         else s1\<lparr>ct_started := ct_started s @ [result],
           ct_work := (case co_publisher c of Some _ \<Rightarrow> Publishing result p
             | None \<Rightarrow> Acting result p (if dr_RecommendedActions result = [] then [] else srt (dr_RecommendedActions result)))\<rparr>)"

definition remediated :: "result_clock \<Rightarrow> 'w controllerImpl \<Rightarrow> RemediationState \<Rightarrow> RemediationState" where
  "remediated clk c state = state\<lparr>rs_LastRemediation := pk_last clk, rs_RemediationCount := rs_RemediationCount state + 1,
     rs_CooldownUntil := time_Add (pk_until clk) (rm_DefaultCooldown (cfg_Remediation (co_config c)))\<rparr>"

inductive controller_thread ::
  "(ActionConfig list \<Rightarrow> ActionConfig list) \<Rightarrow> location \<Rightarrow> 'w cthreads \<Rightarrow> 'w cthreads \<Rightarrow> bool" for srt loc where
  receive: "ct_work s = Idle \<Longrightarrow> controller_thread srt loc s
    (s\<lparr>ct_work := (if admitted (ct_controller s) result (ct_world s) then Fetching result else Idle)\<rparr>)"
| fetch: "ct_work s = Fetching result \<Longrightarrow> controller_thread srt loc s
    (s\<lparr>ct_work := Deciding result (mget (ct_states s) (resultKey result))\<rparr>)"
| decide: "ct_work s = Deciding result ptr \<Longrightarrow> controller_thread srt loc s (decide srt loc clk result ptr s)"
| publish: "ct_work s = Publishing result p \<Longrightarrow> co_publisher (ct_controller s) = Some publisher \<Longrightarrow>
    publishTask now publisher (ct_controller s) result (ct_heap s p) (ct_world s) = (state, w) \<Longrightarrow>
    controller_thread srt loc s (s\<lparr>ct_heap := (ct_heap s)(p := state), ct_world := w, ct_work := Updating result p\<rparr>)"
| act: "ct_work s = Acting result p (a # rest) \<Longrightarrow> executeAction loc aclk (ct_controller s) result a (ct_world s) = (ar, w) \<Longrightarrow>
    controller_thread srt loc s
      (s\<lparr>ct_controller := sendResult (ct_controller s) ar,
         ct_heap := (ct_heap s)(p := (ct_heap s p)\<lparr>rs_LastActionStatus := ar_Status ar\<rparr>), ct_world := w,
         ct_work := (if ar_Status ar = ActionStatusFailed then Updating result p else Acting result p rest)\<rparr>)"
| acted: "ct_work s = Acting result p [] \<Longrightarrow> controller_thread srt loc s (s\<lparr>ct_work := Updating result p\<rparr>)"
| update: "ct_work s = Updating result p \<Longrightarrow> controller_thread srt loc s
    (s\<lparr>ct_heap := (ct_heap s)(p := remediated clk (ct_controller s) (ct_heap s p)), ct_work := Saving result p\<rparr>)"
| save: "ct_work s = Saving result p \<Longrightarrow> controller_thread srt loc s
    (s\<lparr>ct_states := mput (resultKey result) p (ct_states s), ct_work := Idle\<rparr>)"
| clean_up: "controller_thread srt loc s
    (s\<lparr>ct_states := fst (rangeDelete (\<lambda>k p. inactive (co_stateStore (ct_controller s)) cclk k (ct_heap s p)) (ct_states s) (ct_states s) 0),
       ct_cleanups := Suc (ct_cleanups s)\<rparr>)"
| take: "chan_recv (co_outputCh (ct_controller s)) = Some (r, ch) \<Longrightarrow>
    controller_thread srt loc s (s\<lparr>ct_controller := (ct_controller s)\<lparr>co_outputCh := ch\<rparr>\<rparr>)"
| cluster: "controller_thread srt loc s (s\<lparr>ct_world := w\<rparr>)"

definition startController :: "'w controllerImpl \<Rightarrow> 'w \<Rightarrow> 'w cthreads" where
  "startController c w = \<lparr>ct_controller = startRun c, ct_heap = (\<lambda>_. undefined), ct_next = 0, ct_states = [], ct_work = Idle, ct_world = w,
     ct_started = [], ct_cleanups = 0\<rparr>"

section \<open>Counting remediations\<close>

text \<open>The key and the pointer that the loop holds.\<close>

fun inHand :: "controllerWork \<Rightarrow> (string \<times> nat) option" where
  "inHand (Deciding r (Some p)) = Some (resultKey r, p)"
| "inHand (Publishing r p) = Some (resultKey r, p)"
| "inHand (Acting r p todo) = Some (resultKey r, p)"
| "inHand (Updating r p) = Some (resultKey r, p)"
| "inHand (Saving r p) = Some (resultKey r, p)"
| "inHand _ = None"

text \<open>A remediation that is under way is not counted yet.\<close>

fun underWay :: "string \<Rightarrow> controllerWork \<Rightarrow> int" where
  "underWay k (Publishing r p) = (if resultKey r = k then 1 else 0)"
| "underWay k (Acting r p todo) = (if resultKey r = k then 1 else 0)"
| "underWay k (Updating r p) = (if resultKey r = k then 1 else 0)"
| "underWay k _ = 0"

text \<open>The state of a key: the object in the hand of the loop, also if a cleanup has deleted the key meanwhile, or the stored one.\<close>

definition stateOf :: "string \<Rightarrow> 'w cthreads \<Rightarrow> RemediationState option" where
  "stateOf k s = (case inHand (ct_work s) of
     Some (key, p) \<Rightarrow> if key = k then Some (ct_heap s p) else map_option (ct_heap s) (mget (ct_states s) k)
   | None \<Rightarrow> map_option (ct_heap s) (mget (ct_states s) k))"

definition attempts :: "string \<Rightarrow> 'w cthreads \<Rightarrow> int" where
  "attempts k s = (case stateOf k s of None \<Rightarrow> 0 | Some st \<Rightarrow> rs_RemediationCount st) + underWay k (ct_work s)"

definition ctWork_ok :: "'w cthreads \<Rightarrow> bool" where
  "ctWork_ok s \<longleftrightarrow> (case inHand (ct_work s) of Some (key, p) \<Rightarrow> holds (ct_states s) (ct_next s) key p | None \<Rightarrow> True)
     \<and> (\<forall>r. ct_work s = Deciding r None \<longrightarrow> mget (ct_states s) (resultKey r) = None)"

definition budget :: "'w cthreads \<Rightarrow> int" where
  "budget s = max 0 (rm_DefaultMaxRetries (cfg_Remediation (co_config (ct_controller s))))"

definition startedFor :: "string \<Rightarrow> 'w cthreads \<Rightarrow> int" where
  "startedFor k s = int (length (filter (\<lambda>r. resultKey r = k) (ct_started s)))"

text \<open>
  A cleanup gives the budget of a key back, whether the loop holds its state at that moment or not; the
  last part is for a loop that fetched a state which was deleted before the checks.
\<close>

definition retries_inv :: "string \<Rightarrow> 'w cthreads \<Rightarrow> bool" where
  "retries_inv k s \<longleftrightarrow> pointers_ok (ct_states s) (ct_next s) \<and> ctWork_ok s \<and> 0 \<le> attempts k s \<and> attempts k s \<le> budget s
     \<and> startedFor k s \<le> budget s * int (ct_cleanups s) + attempts k s
     \<and> (\<forall>r p. ct_work s = Deciding r (Some p) \<and> resultKey r = k \<and> mget (ct_states s) k = None \<longrightarrow>
          startedFor k s \<le> budget s * int (ct_cleanups s))"

lemmas count_defs = retries_inv_def attempts_def stateOf_def ctWork_ok_def budget_def startedFor_def

lemma update_other:
  "holds m n key p \<Longrightarrow> k \<noteq> key \<Longrightarrow> map_option (h(p := st)) (mget m k) = map_option h (mget m k)"
  by (cases "mget m k") (auto simp: holds_def)

lemma underWay_hand: "underWay k work \<noteq> 0 \<Longrightarrow> \<exists>p. inHand work = Some (k, p)"
  by (cases work) (auto split: if_splits)

lemma retries_cong:
  "ct_heap s' = ct_heap s \<Longrightarrow> ct_next s' = ct_next s \<Longrightarrow> ct_states s' = ct_states s \<Longrightarrow> ct_work s' = ct_work s \<Longrightarrow>
   co_config (ct_controller s') = co_config (ct_controller s) \<Longrightarrow> ct_started s' = ct_started s \<Longrightarrow> ct_cleanups s' = ct_cleanups s \<Longrightarrow>
   retries_inv k s' = retries_inv k s"
  by (simp add: count_defs cong: option.case_cong if_cong)

lemma frames [simp]:
  "co_config (recordSkipped loc clk c r x) = co_config c" "co_config (escalate loc clk c r) = co_config c"
  "co_config (sendResult c ar) = co_config c"
  by (simp_all add: recordSkipped_def escalate_def sendResult_def)

text \<open>The loop changes the object in its hand, and the count of no other key.\<close>

lemma hand_step:
  assumes "retries_inv k s" "inHand (ct_work s) = Some (resultKey r, p)" "inHand work' = Some (resultKey r, p)" "\<forall>r ptr. work' \<noteq> Deciding r ptr"
    and "co_config c' = co_config (ct_controller s)"
    and "rs_RemediationCount state' + underWay (resultKey r) work' = rs_RemediationCount (ct_heap s p) + underWay (resultKey r) (ct_work s)"
    and "resultKey r \<noteq> k \<Longrightarrow> underWay k work' = underWay k (ct_work s)"
  shows "retries_inv k (s\<lparr>ct_controller := c', ct_heap := (ct_heap s)(p := state'), ct_world := w', ct_work := work'\<rparr>)"
proof -
  have h: "holds (ct_states s) (ct_next s) (resultKey r) p" using assms(1, 2) by (simp add: count_defs)
  show ?thesis
    using assms update_other [OF h, of k "ct_heap s" state'] by (cases "resultKey r = k") (simp_all add: count_defs)
qed

lemma publishTask_count: "publishTask now pub c r st w = (st', w') \<Longrightarrow> rs_RemediationCount st' = rs_RemediationCount st"
  using publishTask_state [of now pub c r st w] by (metis RemediationState.select_convs(4) RemediationState.surjective RemediationState.update_convs(7) fst_conv)

lemma fetched_attempts:
  assumes "retries_inv k s" "ct_work s = Deciding r ptr" "resultKey r = k"
  shows "attempts k s = rs_RemediationCount (fetched r ptr s)"
  using assms by (cases ptr) (auto simp: count_defs fetched_def newState_def)

lemma decide_inv:
  assumes "retries_inv k s" "ct_work s = Deciding r ptr"
  shows "retries_inv k (decide srt loc clk r ptr s)"
proof -
  let ?p = "pointerOf ptr s" and ?st = "fetched r ptr s" and ?n = "case ptr of None \<Rightarrow> Suc (ct_next s) | Some _ \<Rightarrow> ct_next s"
  have ok: "pointers_ok (ct_states s) ?n" "holds (ct_states s) ?n (resultKey r) ?p"
    using assms holds_new [of "ct_states s" "ct_next s" "resultKey r"]
    by (cases ptr; simp add: count_defs pointers_ok_Suc pointerOf_def)+
  have stored: "mget (ct_states s) (resultKey r) = Some ?p \<or> mget (ct_states s) (resultKey r) = None"
    using ok(2) by (auto simp: holds_def)
  note other = update_other [OF ok(2), of k "ct_heap s"]
  show ?thesis
  proof (cases "resultKey r = k")
    case False
    then show ?thesis
      using assms ok other by (cases ptr; auto simp: count_defs decide_def Let_def split: option.splits)
  next
    case True
    note now = fetched_attempts [OF assms True]
    have gone: "startedFor k s \<le> budget s * int (ct_cleanups s)" if "mget (ct_states s) k = None"
      using assms that True by (cases ptr) (auto simp: count_defs)
    let ?s = "decide srt loc clk r ptr s"
    have frame: "ct_states ?s = ct_states s" "ct_next ?s = ?n" "ct_cleanups ?s = ct_cleanups s" "budget ?s = budget s"
      "ct_work ?s = Idle \<or> inHand (ct_work ?s) = Some (k, ?p)" "\<forall>r ptr. ct_work ?s \<noteq> Deciding r ptr"
      using True by (auto simp: decide_def Let_def budget_def split: option.splits)
    have count: "rs_RemediationCount (ct_heap ?s ?p) = attempts k s" by (simp add: now decide_def Let_def)
    have started: "startedFor k ?s = startedFor k s + underWay k (ct_work ?s)"
      using True by (auto simp: decide_def Let_def startedFor_def split: option.splits)
    have room: "attempts k s + underWay k (ct_work ?s) \<le> budget s"
      using assms(1) now True by (auto simp: decide_def Let_def retries_inv_def budget_def split: option.splits)
    have "0 \<le> underWay k (ct_work ?s)" by (cases "ct_work ?s") auto
    show ?thesis
    proof (cases "ct_work ?s = Idle")
      case idle: True
      have "attempts k ?s = (if mget (ct_states s) k = None then 0 else attempts k s)"
        using stored True count by (auto simp: attempts_def stateOf_def idle frame(1))
      with assms(1) ok gone started frame idle show ?thesis by (auto simp: retries_inv_def ctWork_ok_def budget_def)
    next
      case False
      then have hand: "inHand (ct_work ?s) = Some (k, ?p)" using frame(5) by blast
      have "attempts k ?s = attempts k s + underWay k (ct_work ?s)" using count by (simp add: attempts_def stateOf_def hand)
      with assms(1) ok started room frame hand \<open>0 \<le> underWay k (ct_work ?s)\<close> True show ?thesis by (auto simp: retries_inv_def ctWork_ok_def)
    qed
  qed
qed

lemma sweep_inv:
  assumes "retries_inv k s"
  shows "retries_inv k (s\<lparr>ct_states := fst (rangeDelete P (ct_states s) (ct_states s) 0), ct_cleanups := Suc (ct_cleanups s)\<rparr>)"
    (is "retries_inv k ?s")
proof -
  have wf: "map_wf (ct_states s)" using assms by (simp add: retries_inv_def pointers_ok_def)
  have b: "budget ?s = budget s" "startedFor k ?s = startedFor k s" by (simp_all add: budget_def startedFor_def)
  have a: "0 \<le> attempts k s" "attempts k s \<le> budget s" "startedFor k s \<le> budget s * int (ct_cleanups s) + attempts k s"
    using assms by (simp_all add: retries_inv_def)
  have le: "startedFor k ?s \<le> budget ?s * int (ct_cleanups ?s)" using a(2, 3) b by (simp add: algebra_simps)
  have "attempts k ?s = attempts k s \<or> attempts k ?s = 0"
    using swept_get(2) [OF wf, of k P] swept_get(3) [OF wf, of k _ P] underWay_hand [of k "ct_work s"]
    by (cases "mget (ct_states s) k") (auto simp: attempts_def stateOf_def split: option.splits)
  moreover have "ctWork_ok ?s"
    using assms holds_sweep [OF wf] swept_get(2) [OF wf] by (auto simp: retries_inv_def ctWork_ok_def split: option.splits)
  ultimately show ?thesis
    using assms pointers_ok_sweep [of "ct_states s" "ct_next s" P] le a b unfolding retries_inv_def by auto
qed

lemma retries_step:
  assumes "controller_thread srt loc s s'" "retries_inv k s"
  shows "retries_inv k s'"
  using assms
proof (induction rule: controller_thread.induct)
  case (receive s result)
  then show ?case by (simp add: count_defs)
next
  case (fetch s result)
  then show ?case by (cases "mget (ct_states s) (resultKey result)") (auto simp: count_defs holds_found)
next
  case (decide s result ptr clk)
  then show ?case by (simp add: decide_inv)
next
  case (publish s result p publisher now state w)
  then show ?case using hand_step [of k s result p "Updating result p" "ct_controller s" state w] by (simp add: publishTask_count)
next
  case (act s result p a rest aclk ar w)
  then show ?case
    using hand_step [of k s result p "if ar_Status ar = ActionStatusFailed then Updating result p else Acting result p rest"
      "sendResult (ct_controller s) ar" "(ct_heap s p)\<lparr>rs_LastActionStatus := ar_Status ar\<rparr>" w] by simp
next
  case (acted s result p)
  then show ?case by (cases "resultKey result = k") (simp_all add: count_defs)
next
  case (update s result p clk)
  then show ?case
    using hand_step [of k s result p "Saving result p" "ct_controller s" "remediated clk (ct_controller s) (ct_heap s p)" "ct_world s"]
    by (simp add: remediated_def)
next
  case (save s result p)
  then show ?case by (auto simp: count_defs pointers_ok_store split: if_splits)
next
  case (clean_up s cclk)
  then show ?case by (rule sweep_inv)
next
  case (take s r ch)
  then show ?case using retries_cong [of "s\<lparr>ct_controller := (ct_controller s)\<lparr>co_outputCh := ch\<rparr>\<rparr>" s k] by simp
next
  case (cluster s w)
  then show ?case using retries_cong [of "s\<lparr>ct_world := w\<rparr>" s k] by simp
qed

interpretation controller_threads: kept_invariant "controller_thread srt loc" "retries_inv k" for srt loc k
  by unfold_locales (rule retries_step)

lemma config_step: "controller_thread srt loc s s' \<Longrightarrow> co_config (ct_controller s') = co_config (ct_controller s)"
  by (induction rule: controller_thread.induct) (simp_all add: decide_def Let_def)

interpretation controller_config: kept_invariant "controller_thread srt loc" "\<lambda>s. co_config (ct_controller s) = cfg" for srt loc cfg
  by unfold_locales (simp add: config_step)

section \<open>Without interference\<close>

text \<open>The controller with the states themselves in the store. A round that is not interrupted is \<open>processResult\<close>.\<close>

definition asController :: "'w cthreads \<Rightarrow> 'w controllerImpl" where
  "asController s = (ct_controller s)\<lparr>co_stateStore := \<lparr>rst_states = map (\<lambda>(k, p). (k, ct_heap s p)) (ct_states s)\<rparr>\<rparr>"

lemma store_irrelevant [simp]:
  "admitted (c\<lparr>co_stateStore := st\<rparr>) r w = admitted c r w"
  "executeAction loc aclk (c\<lparr>co_stateStore := st\<rparr>) r a w = executeAction loc aclk c r a w"
  "publishTask now pub (c\<lparr>co_stateStore := st\<rparr>) r state w = publishTask now pub c r state w"
  by (simp_all add: admitted_def executeAction_def publishTask_def Let_def cong: if_cong option.case_cong prod.case_cong)

lemma actionTrace_store [simp]:
  "actionTrace loc clk (c\<lparr>co_stateStore := st\<rparr>) r i as w = actionTrace loc clk c r i as w"
  by (induction as arbitrary: i w) (auto split: prod.splits)

lemma runActions_store:
  "runActions loc clk r i as (c\<lparr>co_stateStore := st\<rparr>) state w =
     (case runActions loc clk r i as c state w of (c', state', w') \<Rightarrow> (c'\<lparr>co_stateStore := st\<rparr>, state', w'))"
  by (simp add: runActions_trace case_prod_beta Let_def)

lemma acting_alone:
  "ct_work s = Acting r p as \<Longrightarrow>
     \<exists>s'. (controller_thread srt loc)\<^sup>*\<^sup>* s s' \<and> ct_work s' = Updating r p
       \<and> runActions loc clk r i as (ct_controller s) (ct_heap s p) (ct_world s) = (ct_controller s', ct_heap s' p, ct_world s')
       \<and> s' = s\<lparr>ct_controller := ct_controller s', ct_heap := (ct_heap s)(p := ct_heap s' p), ct_world := ct_world s', ct_work := ct_work s'\<rparr>"
proof (induction as arbitrary: s i)
  case Nil
  have "controller_thread srt loc s (s\<lparr>ct_work := Updating r p\<rparr>)" by (rule controller_thread.acted [OF Nil])
  then show ?case by (intro exI [of _ "s\<lparr>ct_work := Updating r p\<rparr>"]) auto
next
  case (Cons a as)
  obtain ar w where ex: "executeAction loc (clk i) (ct_controller s) r a (ct_world s) = (ar, w)" by force
  let ?s = "s\<lparr>ct_controller := sendResult (ct_controller s) ar,
    ct_heap := (ct_heap s)(p := (ct_heap s p)\<lparr>rs_LastActionStatus := ar_Status ar\<rparr>), ct_world := w,
    ct_work := (if ar_Status ar = ActionStatusFailed then Updating r p else Acting r p as)\<rparr>"
  have step: "controller_thread srt loc s ?s" by (rule controller_thread.act [OF Cons.prems ex])
  show ?case
  proof (cases "ar_Status ar = ActionStatusFailed")
    case True
    then show ?thesis using r_into_rtranclp [of "controller_thread srt loc", OF step] ex
      by (intro exI [of _ ?s]) (simp add: fun_upd_def)
  next
    case False
    then have "ct_work ?s = Acting r p as" by simp
    from Cons.IH [OF this, of "Suc i"] obtain s' where s': "(controller_thread srt loc)\<^sup>*\<^sup>* ?s s'" "ct_work s' = Updating r p"
      "runActions loc clk r (Suc i) as (ct_controller ?s) (ct_heap ?s p) (ct_world ?s) = (ct_controller s', ct_heap s' p, ct_world s')"
      "s' = ?s\<lparr>ct_controller := ct_controller s', ct_heap := (ct_heap ?s)(p := ct_heap s' p), ct_world := ct_world s', ct_work := ct_work s'\<rparr>"
      by blast
    have "runActions loc clk r i (a # as) (ct_controller s) (ct_heap s p) (ct_world s) = (ct_controller s', ct_heap s' p, ct_world s')"
      using s'(3) ex False by simp
    moreover have "s' = s\<lparr>ct_controller := ct_controller s', ct_heap := (ct_heap s)(p := ct_heap s' p), ct_world := ct_world s', ct_work := ct_work s'\<rparr>"
      by (subst s'(4)) simp
    moreover have "(controller_thread srt loc)\<^sup>*\<^sup>* s s'" using step s'(1) by (rule converse_rtranclp_into_rtranclp)
    ultimately show ?thesis using s'(2) by blast
  qed
qed

lemma send_store [simp]:
  "recordSkipped loc clk (c\<lparr>co_stateStore := st\<rparr>) r x = (recordSkipped loc clk c r x)\<lparr>co_stateStore := st\<rparr>"
  "escalate loc clk (c\<lparr>co_stateStore := st\<rparr>) r = (escalate loc clk c r)\<lparr>co_stateStore := st\<rparr>"
  by (simp_all add: recordSkipped_def escalate_def sendResult_def)

lemma fetched_current: "currentState (asController s) r = fetched r (mget (ct_states s) (resultKey r)) s"
  by (simp add: currentState_def GetState_def asController_def get_deref fetched_def split: option.split)

lemma processResult_mode:
  assumes "acts c clk r w"
  shows "co_publisher c = None \<Longrightarrow>
      runActions loc (pk_action clk) r 0 (if dr_RecommendedActions r = [] then [] else srt (dr_RecommendedActions r)) c (currentState c r) w = (c1, st1, w1) \<Longrightarrow>
      processResult srt loc clk c r w = (c1\<lparr>co_stateStore := SetState (co_stateStore c1) (resultKey r) (remediated clk c st1)\<rparr>, w1)"
    and "co_publisher c = Some pub \<Longrightarrow> publishTask (pk_publish clk) pub c r (currentState c r) w = (st1, w1) \<Longrightarrow>
      processResult srt loc clk c r w = (c\<lparr>co_stateStore := SetState (co_stateStore c) (resultKey r) (remediated clk c st1)\<rparr>, w1)"
  using assms
  by (auto simp: acts_def processResult_def executeActions_def remediated_def Let_def simp flip: currentState_def split: if_splits)

text \<open>The object of a key that is fetched changes nothing in the store while it stays as it is.\<close>

lemma fetched_same:
  assumes "pointers_ok (ct_states s) (ct_next s)" "ptr = mget (ct_states s) (resultKey r)"
  shows "map (\<lambda>(k, q). (k, ((ct_heap s)(pointerOf ptr s := fetched r ptr s)) q)) (ct_states s) = map (\<lambda>(k, q). (k, ct_heap s q)) (ct_states s)"
proof -
  have "q \<noteq> ct_next s" if "(k, q) \<in> set (ct_states s)" for k q
    using that assms(1) mget_in_set [of "ct_states s"] by (fastforce simp: pointers_ok_def)
  then show ?thesis by (cases ptr) (auto simp: pointerOf_def fetched_def)
qed

lemma saving_alone:
  assumes "pointers_ok (ct_states s) n" "p = (case mget (ct_states s) (resultKey r) of None \<Rightarrow> n | Some p \<Rightarrow> p)"
    and "ct_work s = Saving r p" "ct_heap s = h(p := state)"
  shows "\<exists>s'. controller_thread srt loc s s' \<and> ct_work s' = Idle \<and> ct_world s' = ct_world s
    \<and> asController s' = (ct_controller s)\<lparr>co_stateStore := \<lparr>rst_states = mput (resultKey r) state (map (\<lambda>(k, q). (k, h q)) (ct_states s))\<rparr>\<rparr>"
proof -
  let ?s = "s\<lparr>ct_states := mput (resultKey r) p (ct_states s), ct_work := Idle\<rparr>"
  have "controller_thread srt loc s ?s" by (rule controller_thread.save [OF assms(3)])
  moreover have "asController ?s = (ct_controller s)\<lparr>co_stateStore := \<lparr>rst_states = mput (resultKey r) state (map (\<lambda>(k, q). (k, h q)) (ct_states s))\<rparr>\<rparr>"
    using deref_update [OF assms(1, 2), of h state] by (simp add: asController_def assms(4))
  ultimately show ?thesis by (intro exI [of _ ?s]) simp
qed

lemma updating_alone:
  assumes "pointers_ok (ct_states s) n" "p = (case mget (ct_states s) (resultKey r) of None \<Rightarrow> n | Some p \<Rightarrow> p)"
    and "ct_work s = Updating r p" "ct_heap s = h(p := state)"
  shows "\<exists>s'. (controller_thread srt loc)\<^sup>*\<^sup>* s s' \<and> ct_work s' = Idle \<and> ct_world s' = ct_world s
    \<and> asController s' = (ct_controller s)\<lparr>co_stateStore := \<lparr>rst_states =
         mput (resultKey r) (remediated clk (ct_controller s) state) (map (\<lambda>(k, q). (k, h q)) (ct_states s))\<rparr>\<rparr>"
proof -
  let ?s = "s\<lparr>ct_heap := (ct_heap s)(p := remediated clk (ct_controller s) (ct_heap s p)), ct_work := Saving r p\<rparr>"
  have step: "controller_thread srt loc s ?s" by (rule controller_thread.update [OF assms(3)])
  have "ct_work ?s = Saving r p" "ct_heap ?s = h(p := remediated clk (ct_controller s) state)" using assms(4) by simp_all
  from saving_alone [of ?s n p r h "remediated clk (ct_controller s) state" srt loc, OF _ _ this] assms(1, 2)
  obtain s' where "controller_thread srt loc ?s s'" "ct_work s' = Idle" "ct_world s' = ct_world s"
    "asController s' = (ct_controller s)\<lparr>co_stateStore := \<lparr>rst_states =
         mput (resultKey r) (remediated clk (ct_controller s) state) (map (\<lambda>(k, q). (k, h q)) (ct_states s))\<rparr>\<rparr>" by auto
  with step show ?thesis by (intro exI [of _ s']) auto
qed

lemma asController_fields:
  "co_publisher (asController s) = co_publisher (ct_controller s)" "remediated clk (asController s) = remediated clk (ct_controller s)"
  "asController s = (ct_controller s)\<lparr>co_stateStore := co_stateStore (asController s)\<rparr>"
  "co_stateStore (asController s) = \<lparr>rst_states = map (\<lambda>(k, q). (k, ct_heap s q)) (ct_states s)\<rparr>"
  by (simp_all add: asController_def remediated_def fun_eq_iff)

lemma pointerOf_get: "pointerOf (mget (ct_states s) k) s = (case mget (ct_states s) k of None \<Rightarrow> ct_next s | Some p \<Rightarrow> p)"
  by (simp add: pointerOf_def)

text \<open>The checks of a result that is remediated.\<close>

lemma decide_acts:
  assumes "acts (asController s) clk r w" "ptr = mget (ct_states s) (resultKey r)"
  shows "ct_heap (decide srt loc clk r ptr s) = (ct_heap s)(pointerOf ptr s := fetched r ptr s)"
    "ct_states (decide srt loc clk r ptr s) = ct_states s" "ct_controller (decide srt loc clk r ptr s) = ct_controller s"
    "ct_world (decide srt loc clk r ptr s) = ct_world s"
    "ct_work (decide srt loc clk r ptr s) = (case co_publisher (ct_controller s) of Some _ \<Rightarrow> Publishing r (pointerOf ptr s)
       | None \<Rightarrow> Acting r (pointerOf ptr s) (if dr_RecommendedActions r = [] then [] else srt (dr_RecommendedActions r)))"
proof -
  have "\<not> isInCooldown (pk_cooldown clk) (fetched r ptr s)" "\<not> maxRetries (ct_controller s) \<le> rs_RemediationCount (fetched r ptr s)"
    using assms(1) unfolding acts_def fetched_current assms(2) by (simp_all add: asController_def)
  then show "ct_heap (decide srt loc clk r ptr s) = (ct_heap s)(pointerOf ptr s := fetched r ptr s)"
    "ct_states (decide srt loc clk r ptr s) = ct_states s" "ct_controller (decide srt loc clk r ptr s) = ct_controller s"
    "ct_world (decide srt loc clk r ptr s) = ct_world s"
    "ct_work (decide srt loc clk r ptr s) = (case co_publisher (ct_controller s) of Some _ \<Rightarrow> Publishing r (pointerOf ptr s)
       | None \<Rightarrow> Acting r (pointerOf ptr s) (if dr_RecommendedActions r = [] then [] else srt (dr_RecommendedActions r)))"
    by (simp_all add: decide_def Let_def)
qed

lemma executing_round:
  assumes "pointers_ok (ct_states s) (ct_next s)" "ct_work s = Deciding r (mget (ct_states s) (resultKey r))"
    and "acts (asController s) clk r (ct_world s)" "co_publisher (ct_controller s) = None"
  shows "\<exists>s'. (controller_thread srt loc)\<^sup>*\<^sup>* s s' \<and> ct_work s' = Idle
    \<and> (asController s', ct_world s') = processResult srt loc clk (asController s) r (ct_world s)"
proof -
  let ?ptr = "mget (ct_states s) (resultKey r)" and ?c = "ct_controller s" and ?ac = "asController s"
  let ?p = "pointerOf ?ptr s" and ?st = "fetched r ?ptr s" and ?s1 = "decide srt loc clk r ?ptr s"
  let ?as = "if dr_RecommendedActions r = [] then [] else srt (dr_RecommendedActions r)"
  have step: "controller_thread srt loc s ?s1" by (rule controller_thread.decide [OF assms(2)])
  note s1 = decide_acts [OF assms(3) refl, of srt loc]
  have "ct_work ?s1 = Acting r ?p ?as" using s1(5) assms(4) by simp
  from acting_alone [OF this, of srt loc "pk_action clk" 0] obtain s2 where s2: "(controller_thread srt loc)\<^sup>*\<^sup>* ?s1 s2" "ct_work s2 = Updating r ?p"
    "runActions loc (pk_action clk) r 0 ?as ?c ?st (ct_world s) = (ct_controller s2, ct_heap s2 ?p, ct_world s2)"
    "s2 = ?s1\<lparr>ct_controller := ct_controller s2, ct_heap := (ct_heap ?s1)(?p := ct_heap s2 ?p), ct_world := ct_world s2, ct_work := ct_work s2\<rparr>"
    unfolding s1 by (auto simp: s1)
  have st2: "ct_states s2 = ct_states s" "ct_heap s2 = (ct_heap s)(?p := ct_heap s2 ?p)" by (subst s2(4); simp add: s1)+
  have conf: "remediated clk (ct_controller s2) = remediated clk ?c"
    using controller_config.reachable_keeps [OF s2(1), of "co_config ?c"] s1(3) by (simp add: remediated_def fun_eq_iff)
  from updating_alone [OF _ _ s2(2) st2(2), of "ct_next s" srt loc clk] assms(1) pointerOf_get [of s "resultKey r"] st2(1)
  obtain s3 where s3: "(controller_thread srt loc)\<^sup>*\<^sup>* s2 s3" "ct_work s3 = Idle" "ct_world s3 = ct_world s2"
    "asController s3 = (ct_controller s2)\<lparr>co_stateStore := \<lparr>rst_states =
       mput (resultKey r) (remediated clk ?c (ct_heap s2 ?p)) (map (\<lambda>(k, q). (k, ct_heap s q)) (ct_states s))\<rparr>\<rparr>"
    by (auto simp: conf)
  have "runActions loc (pk_action clk) r 0 ?as ?ac (currentState ?ac r) (ct_world s)
      = ((ct_controller s2)\<lparr>co_stateStore := co_stateStore ?ac\<rparr>, ct_heap s2 ?p, ct_world s2)"
    unfolding fetched_current by (subst asController_fields(3), subst runActions_store) (simp add: s2(3))
  from processResult_mode(1) [where srt = srt, OF assms(3) _ this] assms(4)
  have "processResult srt loc clk ?ac r (ct_world s) = (asController s3, ct_world s3)"
    by (simp add: asController_fields(1, 2, 4) s3 SetState_def)
  moreover have "(controller_thread srt loc)\<^sup>*\<^sup>* s s3" using step s2(1) s3(1) by auto
  ultimately show ?thesis using s3(2) by (intro exI [of _ s3]) simp
qed

lemma publishing_round:
  assumes "pointers_ok (ct_states s) (ct_next s)" "ct_work s = Deciding r (mget (ct_states s) (resultKey r))"
    and "acts (asController s) clk r (ct_world s)" "co_publisher (ct_controller s) = Some pub"
  shows "\<exists>s'. (controller_thread srt loc)\<^sup>*\<^sup>* s s' \<and> ct_work s' = Idle
    \<and> (asController s', ct_world s') = processResult srt loc clk (asController s) r (ct_world s)"
proof -
  let ?ptr = "mget (ct_states s) (resultKey r)" and ?c = "ct_controller s" and ?ac = "asController s"
  let ?p = "pointerOf ?ptr s" and ?st = "fetched r ?ptr s" and ?s1 = "decide srt loc clk r ?ptr s"
  have step: "controller_thread srt loc s ?s1" by (rule controller_thread.decide [OF assms(2)])
  note s1 = decide_acts [OF assms(3) refl, of srt loc]
  obtain st1 w1 where pb: "publishTask (pk_publish clk) pub ?c r ?st (ct_world s) = (st1, w1)" by force
  let ?s2 = "?s1\<lparr>ct_heap := (ct_heap ?s1)(?p := st1), ct_world := w1, ct_work := Updating r ?p\<rparr>"
  have "controller_thread srt loc ?s1 ?s2"
    by (rule controller_thread.publish [of _ r ?p pub "pk_publish clk"]) (simp_all add: s1 assms(4) pb)
  moreover have "ct_work ?s2 = Updating r ?p" "ct_heap ?s2 = (ct_heap s)(?p := st1)" by (simp_all add: s1)
  ultimately obtain s3 where s3: "(controller_thread srt loc)\<^sup>*\<^sup>* s s3" "ct_work s3 = Idle" "ct_world s3 = w1"
    "asController s3 = ?c\<lparr>co_stateStore := \<lparr>rst_states =
       mput (resultKey r) (remediated clk ?c st1) (map (\<lambda>(k, q). (k, ct_heap s q)) (ct_states s))\<rparr>\<rparr>"
    using updating_alone [of ?s2 "ct_next s" ?p r "ct_heap s" st1 srt loc clk] assms(1) pointerOf_get [of s "resultKey r"] s1 step
    by (auto dest: converse_rtranclp_into_rtranclp)
  have "publishTask (pk_publish clk) pub ?ac r (currentState ?ac r) (ct_world s) = (st1, w1)"
    unfolding fetched_current using pb by (subst asController_fields(3)) simp
  from processResult_mode(2) [OF assms(3) _ this, of srt loc] assms(4)
  have "processResult srt loc clk ?ac r (ct_world s) = (asController s3, ct_world s3)"
    by (simp add: asController_fields(1, 2, 4) s3 SetState_def) (subst asController_fields(3), simp)
  then show ?thesis using s3 by (intro exI [of _ s3]) simp
qed

text \<open>An escalation, which stores the state as escalated.\<close>

lemma escalating_round:
  assumes "pointers_ok (ct_states s) (ct_next s)" "ct_work s = Deciding r (mget (ct_states s) (resultKey r))"
    and "escalates (asController s) clk r (ct_world s)"
  shows "\<exists>s'. (controller_thread srt loc)\<^sup>*\<^sup>* s s' \<and> ct_work s' = Idle
    \<and> (asController s', ct_world s') = processResult srt loc clk (asController s) r (ct_world s)"
proof -
  let ?ptr = "mget (ct_states s) (resultKey r)" and ?c = "ct_controller s" and ?ac = "asController s"
  let ?p = "pointerOf ?ptr s" and ?st = "fetched r ?ptr s" and ?s1 = "decide srt loc clk r ?ptr s"
  have step: "controller_thread srt loc s ?s1" by (rule controller_thread.decide [OF assms(2)])
  have "\<not> isInCooldown (pk_cooldown clk) ?st" "maxRetries ?c \<le> rs_RemediationCount ?st" "\<not> rs_Escalated ?st"
    using assms(3) unfolding escalates_def fetched_current by (simp_all add: asController_def)
  then have s1: "ct_work ?s1 = Saving r ?p" "ct_heap ?s1 = (ct_heap s)(?p := ?st\<lparr>rs_Escalated := True\<rparr>)" "ct_states ?s1 = ct_states s"
    "ct_controller ?s1 = escalate loc clk ?c r" "ct_world ?s1 = ct_world s" by (simp_all add: decide_def Let_def)
  from saving_alone [OF _ _ s1(1, 2), of "ct_next s" srt loc] assms(1) s1(3) pointerOf_get [of s "resultKey r"]
  obtain s2 where s2: "controller_thread srt loc ?s1 s2" "ct_work s2 = Idle" "ct_world s2 = ct_world s"
    "asController s2 = (escalate loc clk ?c r)\<lparr>co_stateStore := \<lparr>rst_states =
       mput (resultKey r) (?st\<lparr>rs_Escalated := True\<rparr>) (map (\<lambda>(k, q). (k, ct_heap s q)) (ct_states s))\<rparr>\<rparr>"
    by (auto simp: s1)
  have "processResult srt loc clk ?ac r (ct_world s) = (asController s2, ct_world s2)"
    unfolding processResult_escalates [OF assms(3)] fetched_current s2(3, 4) by (simp add: asController_def SetState_def)
  then show ?thesis using s2 step by (intro exI [of _ s2]) auto
qed

lemma work_irrelevant [simp]:
  "pointerOf ptr (s\<lparr>ct_work := x\<rparr>) = pointerOf ptr s" "fetched r ptr (s\<lparr>ct_work := x\<rparr>) = fetched r ptr s"
  "asController (s\<lparr>ct_work := x\<rparr>) = asController s"
  by (simp_all add: pointerOf_def fetched_def asController_def cong: option.case_cong)

lemma result_alone:
  assumes "pointers_ok (ct_states s) (ct_next s)" "ct_work s = Idle"
  shows "\<exists>s'. (controller_thread srt loc)\<^sup>*\<^sup>* s s' \<and> ct_work s' = Idle
    \<and> (asController s', ct_world s') = processResult srt loc clk (asController s) r (ct_world s)"
proof (cases "admitted (ct_controller s) r (ct_world s)")
  case False
  then have "processResult srt loc clk (asController s) r (ct_world s) = (asController s, ct_world s)"
    by (intro processResult_idle(1)) (simp add: asController_def)
  then show ?thesis using assms(2) by (intro exI [of _ s]) simp
next
  case True
  let ?ptr = "mget (ct_states s) (resultKey r)" and ?c = "ct_controller s" and ?ac = "asController s"
  let ?s1 = "s\<lparr>ct_work := Fetching r\<rparr>" let ?s2 = "s\<lparr>ct_work := Deciding r ?ptr\<rparr>" let ?s3 = "decide srt loc clk r ?ptr ?s2"
  let ?p = "pointerOf ?ptr s" and ?st = "fetched r ?ptr s"
  have "controller_thread srt loc s ?s1" using controller_thread.receive [OF assms(2), of srt loc r] True by simp
  moreover have "controller_thread srt loc ?s1 ?s2" using controller_thread.fetch [of ?s1 r srt loc] by simp
  ultimately have s2: "(controller_thread srt loc)\<^sup>*\<^sup>* s ?s2" by auto
  have "controller_thread srt loc ?s2 ?s3" by (rule controller_thread.decide) simp
  with s2 have s3: "(controller_thread srt loc)\<^sup>*\<^sup>* s ?s3" by auto
  have same: "asController ?s2 = ?ac" "ct_world ?s2 = ct_world s" "pointerOf ?ptr ?s2 = ?p" "fetched r ?ptr ?s2 = ?st"
    by simp_all
  have cur: "currentState ?ac r = ?st" by (rule fetched_current)
  have adm: "admitted ?ac r (ct_world s)" "maxRetries ?ac = maxRetries ?c" using True by (simp_all add: asController_def)
  have kept: "map (\<lambda>(k, q). (k, ((ct_heap s)(?p := ?st)) q)) (ct_states s) = map (\<lambda>(k, q). (k, ct_heap s q)) (ct_states s)"
    by (rule fetched_same [OF assms(1) refl])
  consider "isInCooldown (pk_cooldown clk) ?st"
    | "\<not> isInCooldown (pk_cooldown clk) ?st" "maxRetries ?c \<le> rs_RemediationCount ?st" "rs_Escalated ?st"
    | "escalates ?ac clk r (ct_world s)" | "acts ?ac clk r (ct_world s)"
    using adm unfolding acts_def escalates_def cur by force
  then show ?thesis
  proof cases
    case 1
    have "processResult srt loc clk ?ac r (ct_world s) = (recordSkipped loc clk ?ac r ''cooldown'', ct_world s)"
      using processResult_idle(2) [OF adm(1)] 1 cur by simp
    moreover have "ct_work ?s3 = Idle" "ct_world ?s3 = ct_world s" "asController ?s3 = recordSkipped loc clk ?ac r ''cooldown''"
      using 1 kept by (simp_all add: decide_def Let_def same asController_def)
    ultimately show ?thesis using s3 by (intro exI [of _ ?s3]) simp
  next
    case 2
    have "processResult srt loc clk ?ac r (ct_world s) = (?ac, ct_world s)"
      using processResult_idle(3) [OF adm(1)] 2 cur adm(2) by simp
    moreover have "ct_work ?s3 = Idle" "ct_world ?s3 = ct_world s" "asController ?s3 = ?ac"
      using 2 kept by (simp_all add: decide_def Let_def same asController_def)
    ultimately show ?thesis using s3 by (intro exI [of _ ?s3]) simp
  next
    case 3
    with escalating_round [of ?s2 r clk srt loc] assms(1) same obtain s' where
      "(controller_thread srt loc)\<^sup>*\<^sup>* ?s2 s'" "ct_work s' = Idle"
      "(asController s', ct_world s') = processResult srt loc clk ?ac r (ct_world s)" by auto
    with s2 show ?thesis by (intro exI [of _ s']) auto
  next
    case 4
    with executing_round [of ?s2 r clk srt loc] publishing_round [of ?s2 r clk _ srt loc] assms(1) same obtain s' where
      "(controller_thread srt loc)\<^sup>*\<^sup>* ?s2 s'" "ct_work s' = Idle"
      "(asController s', ct_world s') = processResult srt loc clk ?ac r (ct_world s)" by (cases "co_publisher ?c") auto
    with s2 show ?thesis by (intro exI [of _ s']) auto
  qed
qed

lemma controller_cleanup_alone:
  "asController (s\<lparr>ct_states := fst (rangeDelete (\<lambda>k p. inactive (co_stateStore (ct_controller s)) cclk k (ct_heap s p)) (ct_states s) (ct_states s) 0),
       ct_cleanups := n\<rparr>) = cleanupTick cclk (asController s)"
  by (simp add: asController_def cleanupTick_def Cleanup_def case_prod_beta rangeDelete_deref inactive_def)

lemma controller_round_alone:
  assumes "retries_inv k s" "ct_work s = Idle"
  shows "\<exists>s'. (controller_thread srt loc)\<^sup>*\<^sup>* s s' \<and> ct_work s' = Idle
    \<and> (asController s', ct_world s') = controllerStep srt loc (asController s, ct_world s) ev"
proof (cases ev)
  case (Result clk r)
  then show ?thesis using result_alone [OF _ assms(2), of srt loc clk r] assms(1) by (simp add: retries_inv_def)
next
  case (CleanupTick cclk)
  let ?s = "s\<lparr>ct_states := fst (rangeDelete (\<lambda>k p. inactive (co_stateStore (ct_controller s)) cclk k (ct_heap s p)) (ct_states s) (ct_states s) 0),
    ct_cleanups := Suc (ct_cleanups s)\<rparr>"
  have "controller_thread srt loc s ?s" by (rule controller_thread.clean_up)
  moreover have "asController ?s = cleanupTick cclk (asController s)" by (rule controller_cleanup_alone)
  ultimately show ?thesis using CleanupTick assms(2) by (intro exI [of _ ?s] conjI r_into_rtranclp) simp_all
next
  case TakeResult
  show ?thesis
  proof (cases "chan_recv (co_outputCh (ct_controller s))")
    case None
    then show ?thesis using TakeResult assms(2) by (intro exI [of _ s]) (simp add: asController_def)
  next
    case (Some x)
    obtain r ch where x: "x = (r, ch)" by force
    let ?s = "s\<lparr>ct_controller := (ct_controller s)\<lparr>co_outputCh := ch\<rparr>\<rparr>"
    have "controller_thread srt loc s ?s" by (rule controller_thread.take) (simp add: Some x)
    then show ?thesis using TakeResult assms(2) Some x by (intro exI [of _ ?s] conjI r_into_rtranclp) (simp_all add: asController_def)
  qed
next
  case (ClusterChange w)
  have "controller_thread srt loc s (s\<lparr>ct_world := w\<rparr>)" by (rule controller_thread.cluster)
  then show ?thesis using ClusterChange assms(2)
    by (intro exI [of _ "s\<lparr>ct_world := w\<rparr>"] conjI r_into_rtranclp) (simp_all add: asController_def)
qed

lemma controller_rounds_alone:
  "retries_inv k s \<Longrightarrow> ct_work s = Idle \<Longrightarrow> \<exists>s'. (controller_thread srt loc)\<^sup>*\<^sup>* s s' \<and> ct_work s' = Idle
    \<and> (asController s', ct_world s') = controllerRun srt loc (asController s, ct_world s) evs"
proof (induction evs arbitrary: s)
  case Nil
  then show ?case by (intro exI [of _ s]) (simp add: controllerRun_def)
next
  case (Cons ev evs)
  from controller_round_alone [OF Cons.prems, of srt loc ev] obtain s1 where s1: "(controller_thread srt loc)\<^sup>*\<^sup>* s s1" "ct_work s1 = Idle"
    "(asController s1, ct_world s1) = controllerStep srt loc (asController s, ct_world s) ev" by blast
  from Cons.IH [OF controller_threads.reachable_keeps [OF s1(1) Cons.prems(1)] s1(2)] obtain s2 where
    "(controller_thread srt loc)\<^sup>*\<^sup>* s1 s2" "ct_work s2 = Idle"
    "(asController s2, ct_world s2) = controllerRun srt loc (asController s1, ct_world s1) evs" by blast
  with s1 show ?case by (intro exI [of _ s2]) (auto simp: controllerRun_def intro: rtranclp_trans)
qed

lemma startController_inv: "retries_inv k (startController c w)"
  by (simp add: count_defs startController_def)

section \<open>Properties\<close>

text \<open>
  C4. However the loop, the cleanup and the cluster interleave, also when a key is deleted while its
  actions are executed, the remediations that a new controller starts for one scenario and resource number
  at most \<open>DefaultMaxRetries\<close> for each tick of the cleanup loop and \<open>DefaultMaxRetries\<close> more.
\<close>

theorem interleaved_retries:
  assumes "(controller_thread srt loc)\<^sup>*\<^sup>* (startController (newControllerImpl cfg ex ch pub res pol) w) s"
  shows "int (length (filter (\<lambda>r. resultKey r = k) (ct_started s)))
     \<le> max 0 (rm_DefaultMaxRetries (cfg_Remediation cfg)) * (1 + int (ct_cleanups s))"
proof -
  have "co_config (ct_controller s) = cfg"
    using controller_config.reachable_keeps [OF assms, of cfg] by (simp add: startController_def newControllerImpl_def startRun_def setReady_def)
  moreover have "retries_inv k s" using controller_threads.reachable_keeps [OF assms startController_inv] .
  ultimately show ?thesis by (simp add: retries_inv_def startedFor_def budget_def algebra_simps)
qed

theorem interleaved_retries_witness:
  "\<exists>s. (controller_thread (sort_key ac_Order) UTC)\<^sup>*\<^sup>* (startController (newControllerImpl Default sample_executor (chan_make 9) None None None) []) s
     \<and> ct_started s = [sample_result] \<and> (\<exists>todo. ct_work s = Acting sample_result 0 todo) \<and> ct_cleanups s = 1
     \<and> int (length (filter (\<lambda>r. resultKey r = resultKey sample_result) (ct_started s))) \<le> 6"
proof -
  let ?c = "newControllerImpl Default sample_executor (chan_make 9) None None None" and ?step = "controller_thread (sort_key ac_Order) UTC"
  let ?s0 = "startController ?c []" let ?s1 = "?s0\<lparr>ct_work := Fetching sample_result\<rparr>" let ?s2 = "?s0\<lparr>ct_work := Deciding sample_result None\<rparr>"
  let ?s3 = "decide (sort_key ac_Order) UTC (sample_clock 5) sample_result None ?s2" let ?s4 = "?s3\<lparr>ct_cleanups := 1\<rparr>"
  have "admitted (ct_controller ?s0) sample_result (ct_world ?s0)" "ct_work ?s0 = Idle" "ct_states ?s1 = []"
    by (simp_all add: startController_def startRun_def setReady_def newControllerImpl_def admitted_def)
  then have "?step ?s0 ?s1" "?step ?s1 ?s2"
    using controller_thread.receive [of ?s0 "sort_key ac_Order" UTC sample_result] controller_thread.fetch [of ?s1 sample_result "sort_key ac_Order" UTC]
    by simp_all
  moreover have "?step ?s2 ?s3" by (rule controller_thread.decide) simp
  moreover have s3: "ct_states ?s3 = []" "ct_cleanups ?s3 = 0" "ct_started ?s3 = [sample_result]" "\<exists>todo. ct_work ?s3 = Acting sample_result 0 todo"
    by (simp_all add: decide_def Let_def startController_def startRun_def setReady_def newControllerImpl_def fetched_def pointerOf_def newState_def
        isInCooldown_def time_defs Default_def)
  moreover have "?step ?s3 ?s4" using controller_thread.clean_up [of "sort_key ac_Order" UTC ?s3] s3(1, 2)
    by (cases ?s3) simp
  ultimately have run: "?step\<^sup>*\<^sup>* ?s0 ?s4" by (meson converse_rtranclp_into_rtranclp rtranclp.rtrancl_refl)
  have "ct_started ?s4 = [sample_result]" "\<exists>todo. ct_work ?s4 = Acting sample_result 0 todo" "ct_cleanups ?s4 = 1" using s3 by simp_all
  moreover have "int (length (filter (\<lambda>r. resultKey r = resultKey sample_result) (ct_started ?s4))) \<le> 6"
    using interleaved_retries [OF run, of "resultKey sample_result"] by (simp add: Default_def)
  ultimately show ?thesis using run by blast
qed

text \<open>The rounds of \<open>Remediation\<close> are among the runs of the goroutines.\<close>

theorem controller_rounds_are_runs:
  "\<exists>s. (controller_thread srt loc)\<^sup>*\<^sup>* (startController (newControllerImpl cfg ex ch pub res pol) w) s
     \<and> (asController s, ct_world s) = controllerRun srt loc (startRun (newControllerImpl cfg ex ch pub res pol), w) evs"
proof -
  let ?c = "newControllerImpl cfg ex ch pub res pol"
  have "asController (startController ?c w) = startRun ?c"
    by (simp add: asController_def startController_def startRun_def setReady_def newControllerImpl_def newInMemoryRemediationStateStore_def)
  then show ?thesis
    using controller_rounds_alone [OF startController_inv, of ?c w srt loc evs] by (auto simp: startController_def)
qed

end
