(* ===== verification/Spec2Isabelle.thy ===== *)
theory Spec2Isabelle
  imports Lifecycle CommandLine TaskWorker TaskClaims Executor Cache Sender EngineThreads Panics ApiCopies ControllerThreads
begin

text \<open>
  Verification of the Ariadna self-healing operator, a Kubernetes operator written in Go.

  \<^bold>\<open>The program.\<close> Monitors turn pods, events and logs into detection inputs. The detection engine evaluates
  the CEL expressions of the loaded scenarios on each input, counts matches per scenario and resource
  in a time window, and sends a result when a threshold is reached. The remediation controller
  checks policies, cooldown and retries for each result and then either executes the recommended
  actions itself (standalone mode) or publishes a RemediationTask (leader mode), which the workers of
  all pods watch, claim and execute; a janitor expires and deletes tasks. The pipeline builds and
  connects the layers; the process of \<open>cmd/operator/main.go\<close> configures it, takes part in the leader election,
  answers health probes and stops on a signal.

  \<^bold>\<open>The theories\<close>, each with the definitions in the order of the source, its invariant and its properties:

  \<^item> \<open>Prelude\<close>: Go's integers with their wrap-around, the part of float64 that is needed, instants and
    saturating durations, buffered channels with a non-blocking send, maps as association lists,
    decimal and date formats, and \<open>slice_sorter\<close>, what \<open>sort.Slice\<close> guarantees. \<open>Durations\<close>: parsing and
    printing of durations, with their round trip.
  \<^item> \<open>Types\<close> (\<open>internal/types\<close>), \<open>Config\<close> (\<open>internal/config\<close>): structs, defaults, validation, flags.
  \<^item> \<open>StateStore\<close>: the loop that deletes from a map while ranging over it, the locale of a state
    store, interpreted for both stores, and maps of pointers to states.
  \<^item> \<open>CEL\<close> and \<open>Detection\<close> (\<open>internal/detection\<close>): the evaluator with its cache; registration, reload,
    evaluation, thresholds, state and cleanup. A run is a list of events (inputs, cleanup ticks,
    reloads, receptions). Shown: the invariant of every run, the exact effect of an input on every
    key, exact thresholds, at most one result per key and cleanup, exact reload and cleanup, and
    that a result that meets a full channel is lost. \<open>EngineThreads\<close>: the goroutines of the engine between
    uses of its locks, with the states behind shared pointers; every run of events is one of theirs,
    and the bound on results holds for all of them.
  \<^item> \<open>Policy\<close> (\<open>internal/policy\<close>), \<open>OwnerResolver\<close>, \<open>Remediation\<close> (\<open>internal/remediation\<close>): admission
    equals its declarative meaning; resolution is sound and final; the controller keeps its
    invariant, its retry budget, its cooldown, its order of actions, and a blocked result has no effect.
    \<open>ControllerThreads\<close>: the goroutines of the controller between uses of its locks, with states behind
    pointers; every run of events is one of theirs, and the retry budget holds for all of them.
  \<^item> \<open>CRDLoader\<close> (\<open>internal/crdloader\<close> and the custom resources of \<open>api/v1alpha1\<close>): exact conversion,
    distinct state keys.
  \<^item> \<open>Handlers\<close> and \<open>Executor\<close> (\<open>internal/action\<close>): bounds of scaling and of limits, the choice of a
    rollback, the contract of the executor, the only panic.
  \<^item> \<open>TaskQueue\<close> and \<open>TaskClaims\<close> (\<open>internal/taskqueue\<close>): names and contents of tasks, execution, final
    status, the sweep of the janitor; and a step relation in which the API calls of leader,
    workers and janitors interleave on stale copies, with the invariant that gives at most one claim.
    \<open>TaskWorker\<close>: the whole handler of a task with its deadline, counters and events, and the goroutines
    of a worker, which execute their actions one by one; counters and events are in balance at
    every moment. \<open>Janitor\<close>: the loop of the janitor and the counters and gauges of a sweep.
  \<^item> \<open>Panics\<close>: controller and worker with an executor that may panic; which results end the process, and
    that without a panic the operations above are exact.
  \<^item> \<open>Metrics\<close> (\<open>internal/metrics\<close>): every collector; registration at start never panics.
  \<^item> \<open>Cache\<close> (\<open>internal/cache\<close>): the LRU and FIFO cache with map, list and counters; consistency and
    termination, exact evictions, round trip.
  \<^item> \<open>Monitor\<close> (\<open>internal/monitor\<close>), \<open>Health\<close> (\<open>internal/health\<close>): callbacks, conversions, factories;
    checks, routes and responses.
  \<^item> \<open>Pipeline\<close> (\<open>internal/pipeline\<close>): construction, start, idle mode, hot reload, readiness, shutdown. A
    run interleaves the operations of the layers; each layer's part of it is a run of that layer,
    which carries the bounds of the layers over to the whole.
  \<^item> \<open>Operator\<close>, \<open>CommandLine\<close>, \<open>Clients\<close> and \<open>Lifecycle\<close> (\<open>cmd/operator/main.go\<close>): configuration, probes and the
    three modes; \<open>--print-config\<close>, whose merged view is the effective configuration; the clients built
    from credentials, without which the operator idles; and the process as a state machine with
    boot, election, signals, shutdown, panics and exit codes.
  \<^item> \<open>Sender\<close> (\<open>cmd/otel-sender\<close>): the retry loop of the test tool.
  \<^item> \<open>GoMemory\<close> and \<open>ApiCopies\<close> (\<open>api/v1alpha1/zz_generated.deepcopy.go\<close>): a memory of blocks that pointers, slices and
    maps refer to, the generated copy functions on it, and the registered kinds; every copy is equal to the
    original and shares no memory with it. Elsewhere the custom resources are immutable values.
  \<^item> This theory: properties of the controller with the real executor and resolver, and of leader and
    worker together.

  \<^bold>\<open>Interfaces.\<close> Locales state what one component relies on in another: \<open>StateStore\<close> for the two stores, the
  channel in \<open>Prelude\<close>, \<open>owner_resolver\<close>, \<open>action_executor\<close>, \<open>panicking_executor\<close>, the handlers' reports, \<open>stoppable\<close> layers,
  \<open>kept_invariant\<close> for goroutines that interleave; each is interpreted on the definitions of the program.

  \<^bold>\<open>Parameters.\<close> Code outside the repository is an argument: the Kubernetes API as records of calls on a
  cluster state, cel-go as a record of functions, JSON and YAML, label selectors, quantities, float parsing,
  the constructors of client-go, the registry of Prometheus, the time zone. Every reading of the clock is an argument, so nothing is assumed about
  time unless a property says so. Laws that a property needs are its hypotheses: that sorting sorts
  (\<open>slice_sorter\<close>), that formatting a string gives it back, that the API server rejects stale updates
  (\<open>api_laws\<close>, with a reference API that satisfies them).

  \<^bold>\<open>Bounds and termination.\<close> All loops are structural or have a termination proof, except the eviction by
  entry count, which may run forever in the code: it is a partial function in the option type, and
  the consistency of the cache includes that it ends when the limit is positive. Integers wrap at
  their widths where the code can overflow. A panic is \<open>None\<close>; \<open>Remediation\<close> and \<open>TaskWorker\<close> take an executor
  that returns, and \<open>Panics\<close> says when that is all there is.

  \<^bold>\<open>Concurrency.\<close> Goroutines interleave by operations. In \<open>TaskClaims\<close> an operation is one call of the API
  server, in \<open>TaskWorker\<close> one call or one action, in \<open>EngineThreads\<close> and \<open>ControllerThreads\<close> what happens
  between two uses of a lock, channel or API; in \<open>Detection\<close>, \<open>Remediation\<close> and \<open>Pipeline\<close> it is one round of a
  loop, the handling of an input, of a result, of a tick or of a reload, although the code takes and
  releases its locks several times in such a round; in \<open>Lifecycle\<close> it is one event in the life of the
  process, a panic included. Interleavings inside these operations and data races are not modelled.

  \<^bold>\<open>Not modelled.\<close> Logging, histogram buckets, the debug dump of the configuration, the sockets of the HTTP
  and OTLP servers, the delivery of Kubernetes events, leader election inside client-go beyond its callbacks, and the
  effect of a deadline inside an executor, which is given the deadline as an argument.
\<close>

section \<open>From a detection to the workload\<close>

text \<open>What the action layer does with a scale action: it rejects a pod and scales a Deployment.\<close>

lemma scale_rejected:
  assumes "rr_Kind r \<notin> {''Deployment'', ''StatefulSet''}" "ac_Type a = ActionTypeScaleUp"
  shows "\<exists>ar e. Execute (newExecutorImpl gn qo client) ts r a w = Some ((ar, Some e), w)"
  using assms by (simp add: Execute_def GetHandler_new action_type_defs scaleHandler_def ScaleValidate_def Let_def)

lemma scale_accepted:
  assumes "rr_Kind r = ''Deployment''" "ac_Type a = ActionTypeScaleUp"
    and "k8_GetScale client ''Deployment'' (rr_Namespace r) (rr_Name r) w = Inr scale"
    and "k8_UpdateScale client ''Deployment'' (rr_Namespace r) (rr_Name r)
           (scale\<lparr>scl_Replicas := newReplicaCount (scl_Replicas scale) (scaleIncrement gn NewScaleHandler (ac_Params a))\<rparr>) w = (err, w')"
  shows "\<exists>ar. Execute (newExecutorImpl gn qo client) ts r a w = Some ((ar, map_option err_Error err), w')
    \<and> ar_Resource ar = r \<and> (err = None \<longrightarrow> ar_Status ar = ActionStatusSucceeded)"
  using assms
  by (cases err) (simp_all add: Execute_def GetHandler_new action_type_defs scaleHandler_def ScaleValidate_def ScaleExecute_def
      failWith_def succeedWith_def failResult_def okResult_def NewScaleHandler_def Let_def)

lemma resolve_pod_to_deployment:
  assumes "rr_Kind r = ''Pod''" "oa_GetPodOwners api w (rr_Namespace r) (rr_Name r) = Inr (rs # rest)" "or_Kind rs = ''ReplicaSet''"
    and "oa_GetReplicaSetOwners api w (rr_Namespace r) (or_Name rs) = Inr owners" "deploymentOwner owners = Some d"
  shows "ResolveWorkloadOwner api w r = (ownerRef (rr_Namespace r) d, None)"
  using assms by (simp add: ResolveWorkloadOwner_def resolvePodOwner_def resolveReplicaSetOwner_def isWorkloadKind_def workloadKinds_def)

text \<open>
  C6. A scale action that a scenario recommends for a pod scales the Deployment that owns the pod
  through its ReplicaSet: the handlers reject the pod without an effect, the resolver finds the
  Deployment, and the retry writes its scale once, with the replicas increased within bounds; the
  reported result names the Deployment when the write succeeds.
\<close>

theorem pod_scaled_at_deployment:
  assumes "\<forall>ts r w out. Execute (newExecutorImpl gn qo client) ts r a w = Some out \<longrightarrow> co_executor c ts r a w = out"
    and "\<not> rm_DryRun (cfg_Remediation (co_config c))" "co_ownerResolver c = Some (ResolveWorkloadOwner api)"
    and "ac_Type a = ActionTypeScaleUp" "rr_Kind (dr_Resource r) = ''Pod''" "ns = rr_Namespace (dr_Resource r)"
    and "oa_GetPodOwners api w ns (rr_Name (dr_Resource r)) = Inr (rs # rest)" "or_Kind rs = ''ReplicaSet''"
    and "oa_GetReplicaSetOwners api w ns (or_Name rs) = Inr owners" "deploymentOwner owners = Some d"
    and "k8_GetScale client ''Deployment'' ns (or_Name d) w = Inr scale"
  shows "\<exists>n. 0 \<le> n \<and> n < 2 ^ 31
    \<and> (in32 (scl_Replicas scale + scaleIncrement gn NewScaleHandler (ac_Params a)) \<longrightarrow>
         n = max 0 (scl_Replicas scale + scaleIncrement gn NewScaleHandler (ac_Params a)))
    \<and> snd (executeAction loc clk c r a w) = snd (k8_UpdateScale client ''Deployment'' ns (or_Name d) (scale\<lparr>scl_Replicas := n\<rparr>) w)
    \<and> (fst (k8_UpdateScale client ''Deployment'' ns (or_Name d) (scale\<lparr>scl_Replicas := n\<rparr>) w) = None \<longrightarrow>
         ar_Status (fst (executeAction loc clk c r a w)) = ActionStatusSucceeded
         \<and> ar_Resource (fst (executeAction loc clk c r a w)) = ownerRef ns d)"
proof -
  let ?inc = "scaleIncrement gn NewScaleHandler (ac_Params a)" and ?d = "ownerRef ns d"
  let ?n = "newReplicaCount (scl_Replicas scale) ?inc"
  have kind: "rr_Kind ?d = ''Deployment''" "rr_Namespace ?d = ns" "rr_Name ?d = or_Name d"
    using deploymentOwner_kind [OF assms(10)] by (simp_all add: ownerRef_def)
  then have keys: "rr_Key ?d \<noteq> rr_Key (dr_Resource r)" using assms(5) by (simp add: rr_Key_def)
  obtain ar e where "Execute (newExecutorImpl gn qo client) (ak_exec clk) (dr_Resource r) a w = Some ((ar, Some e), w)"
    using scale_rejected [of "dr_Resource r" a gn qo client "ak_exec clk" w] assms(4, 5) by auto
  with assms(1) have first: "co_executor c (ak_exec clk) (dr_Resource r) a w = ((ar, Some e), w)" by blast
  have resolved: "ResolveWorkloadOwner api w (dr_Resource r) = (?d, None)"
    using resolve_pod_to_deployment [of "dr_Resource r"] assms(5-10) by simp
  obtain err w' where up: "k8_UpdateScale client ''Deployment'' ns (or_Name d) (scale\<lparr>scl_Replicas := ?n\<rparr>) w = (err, w')" by force
  with scale_accepted [of ?d a client w scale gn err w' qo "ak_retry clk"] kind assms(4, 11) obtain ar2 where
    "Execute (newExecutorImpl gn qo client) (ak_retry clk) ?d a w = Some ((ar2, map_option err_Error err), w')"
    and ar2: "ar_Resource ar2 = ?d" "err = None \<longrightarrow> ar_Status ar2 = ActionStatusSucceeded" by auto
  with assms(1) have second: "co_executor c (ak_retry clk) ?d a w = ((ar2, map_option err_Error err), w')" by blast
  have "snd (executeAction loc clk c r a w) = w' \<and> (err = None \<longrightarrow> ar_Status (fst (executeAction loc clk c r a w)) = ActionStatusSucceeded
      \<and> ar_Resource (fst (executeAction loc clk c r a w)) = ?d)"
    using assms(2, 3) first resolved keys second ar2 by (cases err) (simp_all add: executeAction_def Let_def)
  then show ?thesis
    using up newReplicaCount_nonneg [of "scl_Replicas scale" ?inc] newReplicaCount_exact [of "scl_Replicas scale" ?inc]
    by (intro exI [of _ ?n]) (auto simp: in32_def)
qed


text \<open>An executor over the sample cluster, whose state is the number of replicas.\<close>

definition sample_exec :: "int ActionExecutor" where
  "sample_exec ts r a w = (case Execute (newExecutorImpl sample_num int_quantity sample_kube) ts r a w of
     Some out \<Rightarrow> out | None \<Rightarrow> ((zeroActionResult, None), w))"

definition sample_owners :: "int owner_api" where
  "sample_owners = \<lparr>oa_GetPodOwners = (\<lambda>w ns n. Inr [\<lparr>or_APIVersion = ''apps/v1'', or_Kind = ''ReplicaSet'', or_Name = ''web-7'', or_UID = ''u7''\<rparr>]),
     oa_GetReplicaSetOwners = (\<lambda>w ns n. Inr [\<lparr>or_APIVersion = ''apps/v1'', or_Kind = ''Deployment'', or_Name = ''web'', or_UID = ''u8''\<rparr>])\<rparr>"

theorem pod_scaled_at_deployment_witness:
  "snd (executeAction UTC (sample_action_clock 1)
     (newControllerImpl Default sample_exec (chan_make 9) None (Some (ResolveWorkloadOwner sample_owners)) None)
     sample_result (zeroAction\<lparr>ac_Type := ActionTypeScaleUp\<rparr>) 4) = 5"
proof -
  let ?c = "newControllerImpl Default sample_exec (chan_make 9) None (Some (ResolveWorkloadOwner sample_owners)) None"
  let ?a = "zeroAction\<lparr>ac_Type := ActionTypeScaleUp\<rparr>" and ?dep = "\<lparr>or_APIVersion = ''apps/v1'', or_Kind = ''Deployment'', or_Name = ''web'', or_UID = ''u8''\<rparr>"
  have link: "\<forall>ts r w out. Execute (newExecutorImpl sample_num int_quantity sample_kube) ts r ?a w = Some out \<longrightarrow> co_executor ?c ts r ?a w = out"
    by (simp add: newControllerImpl_def sample_exec_def)
  have inc: "scaleIncrement sample_num NewScaleHandler (ac_Params ?a) = 1"
    by (simp add: scaleIncrement_def NewScaleHandler_def zeroAction_def)
  have scale: "k8_GetScale sample_kube ''Deployment'' ''prod'' (or_Name ?dep) 4 = Inr \<lparr>scl_Replicas = 4, scl_Meta = ''rv1''\<rparr>"
    by (simp add: sample_kube_def)
  have live: "\<not> rm_DryRun (cfg_Remediation (co_config ?c))" "co_ownerResolver ?c = Some (ResolveWorkloadOwner sample_owners)"
    by (simp_all add: newControllerImpl_def Default_def)
  have pod: "ac_Type ?a = ActionTypeScaleUp" "rr_Kind (dr_Resource sample_result) = ''Pod''" "''prod'' = rr_Namespace (dr_Resource sample_result)"
    by (simp_all add: sample_result_def sample_pod_def)
  let ?rs = "\<lparr>or_APIVersion = ''apps/v1'', or_Kind = ''ReplicaSet'', or_Name = ''web-7'', or_UID = ''u7''\<rparr>"
  have owners: "oa_GetPodOwners sample_owners 4 ''prod'' (rr_Name (dr_Resource sample_result)) = Inr [?rs]" "or_Kind ?rs = ''ReplicaSet''"
    "oa_GetReplicaSetOwners sample_owners 4 ''prod'' (or_Name ?rs) = Inr [?dep]" "deploymentOwner [?dep] = Some ?dep"
    by (simp_all add: sample_owners_def)
  obtain n where "in32 (4 + 1) \<longrightarrow> n = max 0 (4 + 1)" "snd (executeAction UTC (sample_action_clock 1) ?c sample_result ?a 4) = n"
    using pod_scaled_at_deployment [OF link live pod owners scale, of UTC "sample_action_clock 1"] unfolding inc
    by (auto simp: sample_kube_def)
  then show ?thesis by (simp add: in32_def)
qed

section \<open>From the leader to a worker\<close>



definition sample_text :: "gval \<Rightarrow> string" where
  "sample_text v = (case v of GString s \<Rightarrow> s | _ \<Rightarrow> '''')"

definition sample_leader :: "refworld controllerImpl" where
  "sample_leader = newControllerImpl Default (\<lambda>ts r a w. ((zeroActionResult, None), w)) (chan_make 9)
     (Some (Publish refAPI (sort_key ac_Order) sample_text ''ns'')) None None"

definition sample_published :: RemediationTask where
  "sample_published = taskObject (sort_key ac_Order) sample_text ''ns'' 1 sample_result sample_pod"


end
